theory Spec2Isabelle
  imports Main "HOL-Library.Word"
begin

section \<open>The install orchestrator of pkg/manifest/installer.go\<close>

text \<open>
  The Go source is embedded function by function. A Go \<^verbatim>\<open>error\<close> is represented by its
  message, a \<^verbatim>\<open>nil\<close> error by \<open>None\<close>; a pointer that may be \<^verbatim>\<open>nil\<close> is an option;
  a run-time panic is a value of its own.
\<close>

type_synonym error = string

subsection \<open>Resource objects and the object orderer\<close>

text \<open>
  \<^verbatim>\<open>object.K8sObject\<close> is declared outside installer.go; the installer reads the fields
  Group, Kind, Name and Namespace and writes labels.
\<close>

record K8sObject =
  Group :: string
  Kind :: string
  Name :: string
  Namespace :: string
  Labels :: "(string \<times> string) list"

type_synonym K8sObjects = "K8sObject list"

text \<open>\<^verbatim>\<open>defaultObjectOrder\<close>: the switch over \<^verbatim>\<open>o.Group + "/" + o.Kind\<close>, case by case.\<close>

definition defaultObjectOrder :: "K8sObject \<Rightarrow> int" where
  "defaultObjectOrder o' =
     (let gk = Group o' @ ''/'' @ Kind o' in
      if gk = ''apiextensions.k8s.io/CustomResourceDefinition'' then - 1000
      else if gk = ''/ServiceAccount'' \<or> gk = ''rbac.authorization.k8s.io/ClusterRole'' then 1
      else if gk = ''rbac.authorization.k8s.io/ClusterRoleBinding'' then 2
      else if gk = ''/ConfigMap'' \<or> gk = ''/Secrets'' then 100
      else if gk = ''extensions/Deployment'' \<or> gk = ''app/Deployment'' then 1000
      else if gk = ''autoscaling/HorizontalPodAutoscaler'' then 1001
      else if gk = ''/Service'' then 10000
      else 1000)"

text \<open>An object of the given API group and kind, with the other fields left empty.\<close>

definition obj :: "string \<Rightarrow> string \<Rightarrow> K8sObject" where
  "obj g k = \<lparr>Group = g, Kind = k, Name = [], Namespace = [], Labels = []\<rparr>"

subsection \<open>Readiness predicates of the resource waiter\<close>

text \<open>Constants of the Kubernetes API types that the predicates compare against.\<close>

definition ServiceTypeClusterIP :: string where "ServiceTypeClusterIP = ''ClusterIP''"
definition ServiceTypeNodePort :: string where "ServiceTypeNodePort = ''NodePort''"
definition ServiceTypeLoadBalancer :: string where "ServiceTypeLoadBalancer = ''LoadBalancer''"
definition ServiceTypeExternalName :: string where "ServiceTypeExternalName = ''ExternalName''"
definition ClusterIPNone :: string where "ClusterIPNone = ''None''"
definition NamespaceActive :: string where "NamespaceActive = ''Active''"
definition PodReady :: string where "PodReady = ''Ready''"
definition ConditionTrue :: string where "ConditionTrue = ''True''"
definition ConditionFalse :: string where "ConditionFalse = ''False''"

text \<open>
  The fields of \<^verbatim>\<open>v1.Service\<close> that \<^verbatim>\<open>servicesReady\<close> reads.
  \<^verbatim>\<open>Status.LoadBalancer.Ingress\<close> is a slice compared with \<^verbatim>\<open>nil\<close>: \<open>None\<close> is the
  nil slice, \<open>Some xs\<close> an allocated one.
\<close>

record Service =
  svc_Namespace :: string
  svc_Name :: string
  svc_Type :: string
  svc_ClusterIP :: string
  svc_Ingress :: "string list option"

definition svc_label :: "Service \<Rightarrow> string" where
  "svc_label s = ''Service/'' @ svc_Namespace s @ ''/'' @ svc_Name s"

text \<open>The loop of \<^verbatim>\<open>servicesReady\<close>, with the slice \<^verbatim>\<open>notReady\<close> as accumulator.\<close>

fun servicesReady_loop :: "Service list \<Rightarrow> string list \<Rightarrow> string list" where
  "servicesReady_loop [] notReady = notReady"
| "servicesReady_loop (s # svc) notReady =
     (if svc_Type s = ServiceTypeExternalName then servicesReady_loop svc notReady
      else if svc_ClusterIP s \<noteq> ClusterIPNone \<and> svc_ClusterIP s = [] then
        servicesReady_loop svc (notReady @ [svc_label s])
      else if svc_Type s = ServiceTypeLoadBalancer \<and> svc_Ingress s = None then
        servicesReady_loop svc (notReady @ [svc_label s])
      else servicesReady_loop svc notReady)"

definition servicesReady :: "Service list \<Rightarrow> bool \<times> string list" where
  "servicesReady svc = (let notReady = servicesReady_loop svc [] in (length notReady = 0, notReady))"

text \<open>
  The service condition in the words of the specification: a service is held back when it
  is of type ClusterIP without a cluster IP, or of type LoadBalancer without an ingress
  endpoint, and is ready otherwise.
\<close>

definition spec_serviceReady :: "Service \<Rightarrow> bool" where
  "spec_serviceReady s =
     (\<not> ((svc_Type s = ServiceTypeClusterIP \<and> svc_ClusterIP s = [])
         \<or> (svc_Type s = ServiceTypeLoadBalancer \<and> svc_Ingress s = None)))"

text \<open>The condition the code evaluates for one service.\<close>

definition serviceNotReady :: "Service \<Rightarrow> bool" where
  "serviceNotReady s =
     (svc_Type s \<noteq> ServiceTypeExternalName \<and>
      (svc_ClusterIP s = [] \<or> (svc_Type s = ServiceTypeLoadBalancer \<and> svc_Ingress s = None)))"

text \<open>
  Deployments. \<^verbatim>\<open>Spec.Replicas\<close> is a \<^verbatim>\<open>*int32\<close>, \<^verbatim>\<open>Status.ReadyReplicas\<close> an
  \<^verbatim>\<open>int32\<close>; the struct \<^verbatim>\<open>deployment\<close> of the installer holds two pointers.
\<close>

type_synonym int32 = "32 word"

record ReplicaSet =
  rs_Name :: string
  rs_ReadyReplicas :: int32

record Deployment =
  dep_Namespace :: string
  dep_Name :: string
  dep_Replicas :: "int32 option"

record deployment =
  replicaSets :: "ReplicaSet option"
  deployment :: "Deployment option"

datatype panic = NilPointerDereference

text \<open>
  The comparison \<^verbatim>\<open>v.replicaSets.Status.ReadyReplicas < *v.deployment.Spec.Replicas\<close>
  of one loop iteration: it dereferences three pointers and compares two signed 32-bit
  integers.
\<close>

definition deploymentNotReady :: "deployment \<Rightarrow> panic + bool" where
  "deploymentNotReady v =
     (case replicaSets v of
        None \<Rightarrow> Inl NilPointerDereference
      | Some rs \<Rightarrow>
          (case deployment v of
             None \<Rightarrow> Inl NilPointerDereference
           | Some d \<Rightarrow>
               (case dep_Replicas d of
                  None \<Rightarrow> Inl NilPointerDereference
                | Some n \<Rightarrow> Inr (sint (rs_ReadyReplicas rs) < sint n))))"

definition dep_label :: "Deployment \<Rightarrow> string" where
  "dep_label d = ''Deployment/'' @ dep_Namespace d @ ''/'' @ dep_Name d"

fun deploymentsReady_loop :: "deployment list \<Rightarrow> string list \<Rightarrow> panic + string list" where
  "deploymentsReady_loop [] notReady = Inr notReady"
| "deploymentsReady_loop (v # deployments) notReady =
     (case deploymentNotReady v of
        Inl p \<Rightarrow> Inl p
      | Inr True \<Rightarrow>
          (case deployment v of
             None \<Rightarrow> Inl NilPointerDereference
           | Some d \<Rightarrow> deploymentsReady_loop deployments (notReady @ [dep_label d]))
      | Inr False \<Rightarrow> deploymentsReady_loop deployments notReady)"

definition deploymentsReady :: "deployment list \<Rightarrow> panic + bool \<times> string list" where
  "deploymentsReady deployments =
     (case deploymentsReady_loop deployments [] of
        Inl p \<Rightarrow> Inl p
      | Inr notReady \<Rightarrow> Inr (length notReady = 0, notReady))"

text \<open>Namespaces and pods.\<close>

record NamespaceObj =
  ns_Name :: string
  ns_Phase :: string

record PodCondition =
  pc_Type :: string
  pc_Status :: string

record Pod =
  pod_Namespace :: string
  pod_Name :: string
  pod_Conditions :: "PodCondition list"

definition isNamespaceReady :: "NamespaceObj \<Rightarrow> bool" where
  "isNamespaceReady namespace = (ns_Phase namespace = NamespaceActive)"

fun isPodReady_loop :: "PodCondition list \<Rightarrow> bool" where
  "isPodReady_loop [] = False"
| "isPodReady_loop (condition # conditions) =
     (if pc_Type condition = PodReady \<and> pc_Status condition = ConditionTrue then True
      else isPodReady_loop conditions)"

definition isPodReady :: "Pod \<Rightarrow> bool" where
  "isPodReady pod =
     (if length (pod_Conditions pod) > 0 then isPodReady_loop (pod_Conditions pod) else False)"

fun namespacesReady_loop :: "NamespaceObj list \<Rightarrow> string list \<Rightarrow> string list" where
  "namespacesReady_loop [] notReady = notReady"
| "namespacesReady_loop (namespace # namespaces) notReady =
     (if \<not> isNamespaceReady namespace
      then namespacesReady_loop namespaces (notReady @ [''Namespace/'' @ ns_Name namespace])
      else namespacesReady_loop namespaces notReady)"

definition namespacesReady :: "NamespaceObj list \<Rightarrow> bool \<times> string list" where
  "namespacesReady namespaces =
     (let notReady = namespacesReady_loop namespaces [] in (length notReady = 0, notReady))"

fun podsReady_loop :: "Pod list \<Rightarrow> string list \<Rightarrow> string list" where
  "podsReady_loop [] notReady = notReady"
| "podsReady_loop (pod # pods) notReady =
     (if \<not> isPodReady pod
      then podsReady_loop pods (notReady @ [''Pod/'' @ pod_Namespace pod @ ''/'' @ pod_Name pod])
      else podsReady_loop pods notReady)"

definition podsReady :: "Pod list \<Rightarrow> bool \<times> string list" where
  "podsReady pods = (let notReady = podsReady_loop pods [] in (length notReady = 0, notReady))"

fun joinStringSlices :: "string list list \<Rightarrow> string list" where
  "joinStringSlices [] = []"
| "joinStringSlices (ss # s) = ss @ joinStringSlices s"

subsection \<open>The cluster, the executor and the trace of a run\<close>

text \<open>
  Everything outside the installer (the cluster API, the kubectl executor, the file
  system, the clock) is an environment: each operation takes the current state of the
  outside world, of an arbitrary type \<open>'w\<close>, and returns its result with the next state.
  The installer's own state is the world together with a trace, to which the model
  appends one event for each call of the executor, each fetch of a custom resource
  definition, each file-system call and each log line of the CRD waiter.
\<close>

datatype level = Info | Warn | Error

record CRDCondition =
  cond_Type :: string
  cond_Status :: string
  cond_Reason :: string

type_synonym path = "string list"

datatype event =
    Log level string
  | GetCRD string "error + CRDCondition list"
  | KubectlGetAll string string string string "string list"
  | KubectlDelete bool bool string string string string "string list"
  | KubectlApply bool bool string string string string "string list"
  | MkdirAll path
  | WriteFile path string

record 'w st =
  world :: 'w
  trace :: "event list"

definition logf :: "level \<Rightarrow> string \<Rightarrow> 'w st \<Rightarrow> 'w st" where
  "logf l msg s = s\<lparr>trace := trace s @ [Log l msg]\<rparr>"

text \<open>
  \<^verbatim>\<open>wait.Poll(interval, timeout, condition)\<close> of the Kubernetes client library. The
  condition runs once per tick of the interval; the first error or \<^verbatim>\<open>true\<close> ends the
  wait, and a panic of the condition ends it as a panic. The library sets a timer only
  for a timeout other than 0.

  With a timer, the timer closes the ticker, the condition runs once more, and a
  condition still false gives \<^verbatim>\<open>ErrWaitTimeout\<close>: this is \<open>pollTimed\<close>, whose first
  argument is the number of ticks the wait receives before the timer fires.
\<close>

definition ErrWaitTimeout :: error where
  "ErrWaitTimeout = ''timed out waiting for the condition''"

fun pollTimed :: "nat \<Rightarrow> ('s \<Rightarrow> (panic + bool \<times> error option) \<times> 's) \<Rightarrow> 's
    \<Rightarrow> (panic + error option) \<times> 's" where
  "pollTimed 0 condition s =
     (case condition s of
        (Inl p, s') \<Rightarrow> (Inl p, s')
      | (Inr (ok, Some err), s') \<Rightarrow> (Inr (Some err), s')
      | (Inr (True, None), s') \<Rightarrow> (Inr None, s')
      | (Inr (False, None), s') \<Rightarrow> (Inr (Some ErrWaitTimeout), s'))"
| "pollTimed (Suc ticks) condition s =
     (case condition s of
        (Inl p, s') \<Rightarrow> (Inl p, s')
      | (Inr (ok, Some err), s') \<Rightarrow> (Inr (Some err), s')
      | (Inr (True, None), s') \<Rightarrow> (Inr None, s')
      | (Inr (False, None), s') \<Rightarrow> pollTimed ticks condition s')"

text \<open>
  Without a timer the ticker is never closed, and the wait ends only when the condition
  returns \<^verbatim>\<open>true\<close> or an error, or panics: this is \<open>pollForever\<close>, which has no value
  when the condition stays false for ever.
\<close>

partial_function (option) pollForever :: "('s \<Rightarrow> (panic + bool \<times> error option) \<times> 's) \<Rightarrow> 's
    \<Rightarrow> ((panic + error option) \<times> 's) option" where
  "pollForever condition s =
     (case condition s of
        (Inl p, s') \<Rightarrow> Some (Inl p, s')
      | (Inr (ok, Some err), s') \<Rightarrow> Some (Inr (Some err), s')
      | (Inr (ok, None), s') \<Rightarrow> if ok then Some (Inr None, s') else pollForever condition s')"

text \<open>
  The wait itself: \<open>None\<close> when it does not return. A duration is a number of
  nanoseconds.
\<close>

definition Poll :: "nat \<Rightarrow> int \<Rightarrow> ('s \<Rightarrow> (panic + bool \<times> error option) \<times> 's) \<Rightarrow> 's
    \<Rightarrow> ((panic + error option) \<times> 's) option" where
  "Poll ticks timeout condition s =
     (if timeout \<noteq> 0 then Some (pollTimed ticks condition s) else pollForever condition s)"

subsection \<open>The CRD establishment waiter\<close>

definition Established :: string where "Established = ''Established''"
definition NamesAccepted :: string where "NamesAccepted = ''NamesAccepted''"

text \<open>
  The clientset for custom resource definitions: its construction from the REST
  configuration, which may fail, and the \<^verbatim>\<open>Get\<close> of one definition, of which the waiter
  reads the status conditions.
\<close>

record 'w crd_client =
  crd_NewForConfig :: "error option"
  crd_Get :: "string \<Rightarrow> 'w \<Rightarrow> (error + CRDCondition list) \<times> 'w"

definition call_crd_Get :: "'w crd_client \<Rightarrow> string \<Rightarrow> 'w st \<Rightarrow> (error + CRDCondition list) \<times> 'w st" where
  "call_crd_Get cs crdName s =
     (case crd_Get cs crdName (world s) of
        (r, w) \<Rightarrow> (r, s\<lparr>world := w, trace := trace s @ [GetCRD crdName r]\<rparr>))"

text \<open>\<^verbatim>\<open>%q\<close> of a name that needs no escaping.\<close>

definition quoted :: "string \<Rightarrow> string" where
  "quoted x = CHR 0x22 # x @ [CHR 0x22]"

fun cRDKindObjects :: "K8sObjects \<Rightarrow> K8sObjects" where
  "cRDKindObjects [] = []"
| "cRDKindObjects (o' # objects) =
     (if Kind o' = ''CustomResourceDefinition'' then o' # cRDKindObjects objects
      else cRDKindObjects objects)"

fun nsKindObjects :: "K8sObjects \<Rightarrow> K8sObjects" where
  "nsKindObjects [] = []"
| "nsKindObjects (o' # objects) =
     (if Kind o' = ''Namespace'' then o' # nsKindObjects objects
      else nsKindObjects objects)"

text \<open>
  The loop over \<^verbatim>\<open>crd.Status.Conditions\<close>. The result \<open>True\<close> stands for
  \<^verbatim>\<open>continue descriptor\<close>: the definition is established and the scan of its conditions
  stops; \<open>False\<close> means the loop ran to its end.
\<close>

fun crdConditions_loop :: "string \<Rightarrow> CRDCondition list \<Rightarrow> 'w st \<Rightarrow> bool \<times> 'w st" where
  "crdConditions_loop crdName [] s = (False, s)"
| "crdConditions_loop crdName (cond # conds) s =
     (if cond_Type cond = Established then
        (if cond_Status cond = ConditionTrue
         then (True, logf Info (''established CRD '' @ quoted crdName) s)
         else crdConditions_loop crdName conds s)
      else if cond_Type cond = NamesAccepted then
        (if cond_Status cond = ConditionFalse
         then crdConditions_loop crdName conds (logf Warn (''name conflict: '' @ cond_Reason cond) s)
         else crdConditions_loop crdName conds s)
      else crdConditions_loop crdName conds s)"

text \<open>The condition function given to \<^verbatim>\<open>wait.Poll\<close>: the loop labelled \<^verbatim>\<open>descriptor\<close>.\<close>

fun crdPoll :: "'w crd_client \<Rightarrow> string list \<Rightarrow> 'w st \<Rightarrow> (panic + bool \<times> error option) \<times> 'w st" where
  "crdPoll cs [] s = (Inr (True, None), s)"
| "crdPoll cs (crdName # crdNames) s =
     (case call_crd_Get cs crdName s of
        (Inl errGet, s1) \<Rightarrow> (Inr (False, Some errGet), s1)
      | (Inr conds, s1) \<Rightarrow>
          (case crdConditions_loop crdName conds s1 of
             (True, s2) \<Rightarrow> crdPoll cs crdNames s2
           | (False, s2) \<Rightarrow>
               (Inr (False, None), logf Info (''missing status condition for '' @ quoted crdName) s2)))"

text \<open>The maximum wait time for all CRDs to be created: 60 seconds.\<close>

definition cRDPollTimeout :: int where
  "cRDPollTimeout = 60 * 1000000000"

text \<open>
  \<open>ticks\<close> tells, from the state of the world in which a wait with a timer starts, how
  many ticks that wait receives before its timeout (60 s at 500 ms for this waiter, as
  the clock and the scheduler allow).
\<close>

definition waitForCRDs :: "('w \<Rightarrow> nat) \<Rightarrow> 'w crd_client \<Rightarrow> K8sObjects \<Rightarrow> bool \<Rightarrow> 'w st
    \<Rightarrow> ((panic + error option) \<times> 'w st) option" where
  "waitForCRDs ticks cs objects dryRun s =
     (if dryRun then Some (Inr None, logf Info ''Not waiting for CRDs in dry run mode.'' s)
      else
        let s0 = logf Info ''Waiting for CRDs to be applied.'' s in
        (case crd_NewForConfig cs of
           Some err \<Rightarrow> Some (Inr (Some (''k8s client error: '' @ err)), s0)
         | None \<Rightarrow>
             let crdNames = map Name (cRDKindObjects objects) in
             (case Poll (ticks (world s0)) cRDPollTimeout (crdPoll cs crdNames) s0 of
                None \<Rightarrow> None
              | Some (Inl p, s1) \<Rightarrow> Some (Inl p, s1)
              | Some (Inr (Some errPoll), s1) \<Rightarrow>
                  Some (Inr (Some (''failed to verify CRD creation: '' @ errPoll)),
                        logf Error (''failed to verify CRD creation; '' @ errPoll) s1)
              | Some (Inr None, s1) \<Rightarrow> Some (Inr None, logf Info ''Finished applying CRDs.'' s1))))"

text \<open>The events a run has added to the trace.\<close>

definition new_events :: "'w st \<Rightarrow> 'w st \<Rightarrow> event list" where
  "new_events s s' = drop (length (trace s)) (trace s')"

subsection \<open>The resource readiness waiter\<close>

text \<open>
  \<^verbatim>\<open>InstallOptions\<close>. \<^verbatim>\<open>WaitTimeout\<close> is a duration in nanoseconds; the waiter prints it
  with \<^verbatim>\<open>%v\<close>, a rendering that belongs to the Go library and is a parameter here.
\<close>

record InstallOptions =
  DryRun :: bool
  Verbose :: bool
  Wait :: bool
  WaitTimeout :: int
  Kubeconfig :: string
  Context :: string

text \<open>
  What the waiter reads of a replication controller (its selector is a plain map) and of
  a daemon set, stateful set or replica set (\<^verbatim>\<open>Spec.Selector\<close> is a pointer to a label
  selector, whose \<^verbatim>\<open>MatchLabels\<close> it takes).
\<close>

type_synonym selector = "(string \<times> string) list"

record Controller =
  rc_Namespace :: string
  rc_Selector :: selector

record Workload =
  wl_Namespace :: string
  wl_Selector :: "selector option"

text \<open>
  The typed clientset: construction from the REST configuration, the \<^verbatim>\<open>Get\<close> and
  \<^verbatim>\<open>List\<close> calls the waiter makes, and \<^verbatim>\<open>GetAllReplicaSets\<close> of the kubectl utility
  package, of whose results the waiter keeps the new replica set and the error.
\<close>

record 'w kube_client =
  kube_NewForConfig :: "error option"
  GetNamespace :: "string \<Rightarrow> 'w \<Rightarrow> (error + NamespaceObj) \<times> 'w"
  GetPod :: "string \<Rightarrow> string \<Rightarrow> 'w \<Rightarrow> (error + Pod) \<times> 'w"
  GetReplicationController :: "string \<Rightarrow> string \<Rightarrow> 'w \<Rightarrow> (error + Controller) \<times> 'w"
  ListPods :: "string \<Rightarrow> selector \<Rightarrow> 'w \<Rightarrow> (Pod list \<times> error option) \<times> 'w"
  GetDeployment :: "string \<Rightarrow> string \<Rightarrow> 'w \<Rightarrow> (error + Deployment) \<times> 'w"
  GetAllReplicaSets :: "Deployment \<Rightarrow> 'w \<Rightarrow> (ReplicaSet option \<times> error option) \<times> 'w"
  GetDaemonSet :: "string \<Rightarrow> string \<Rightarrow> 'w \<Rightarrow> (error + Workload) \<times> 'w"
  GetStatefulSet :: "string \<Rightarrow> string \<Rightarrow> 'w \<Rightarrow> (error + Workload) \<times> 'w"
  GetReplicaSet :: "string \<Rightarrow> string \<Rightarrow> 'w \<Rightarrow> (error + Workload) \<times> 'w"
  GetService :: "string \<Rightarrow> string \<Rightarrow> 'w \<Rightarrow> (error + Service) \<times> 'w"

definition getPods :: "'w kube_client \<Rightarrow> string \<Rightarrow> selector \<Rightarrow> 'w \<Rightarrow> (Pod list \<times> error option) \<times> 'w" where
  "getPods client namespace sel w = ListPods client namespace sel w"

text \<open>The four slices the condition function fills on each tick.\<close>

record resources =
  pods :: "Pod list"
  services :: "Service list"
  deployments :: "deployment list"
  namespaces :: "NamespaceObj list"

definition no_resources :: resources where
  "no_resources = \<lparr>pods = [], services = [], deployments = [], namespaces = []\<rparr>"

text \<open>
  One iteration of the loop over the objects either goes on with the slices extended,
  or leaves the condition function with \<^verbatim>\<open>return false, err\<close> (where \<^verbatim>\<open>err\<close> may be
  \<^verbatim>\<open>nil\<close>), or panics.
\<close>

datatype 'a flow = Proceed 'a | ReturnFalse "error option" | Panicked panic

text \<open>The pods behind a daemon set, stateful set or replica set that was fetched.\<close>

definition workloadPods :: "'w kube_client \<Rightarrow> resources \<Rightarrow> (error + Workload) \<times> 'w \<Rightarrow> resources flow \<times> 'w" where
  "workloadPods cs r res =
     (case res of
        (Inl err, w1) \<Rightarrow> (ReturnFalse (Some err), w1)
      | (Inr wl, w1) \<Rightarrow>
          (case wl_Selector wl of
             None \<Rightarrow> (Panicked NilPointerDereference, w1)
           | Some matchLabels \<Rightarrow>
               (case getPods cs (wl_Namespace wl) matchLabels w1 of
                  ((list, Some err), w2) \<Rightarrow> (ReturnFalse (Some err), w2)
                | ((list, None), w2) \<Rightarrow> (Proceed (r\<lparr>pods := pods r @ list\<rparr>), w2))))"

text \<open>The body of the \<^verbatim>\<open>switch kind\<close> for one object.\<close>

definition resolveObject :: "'w kube_client \<Rightarrow> K8sObject \<Rightarrow> resources \<Rightarrow> 'w \<Rightarrow> resources flow \<times> 'w" where
  "resolveObject cs o' r w =
     (let kind = Kind o' in
      if kind = ''Namespace'' then
        (case GetNamespace cs (Name o') w of
           (Inl err, w1) \<Rightarrow> (ReturnFalse (Some err), w1)
         | (Inr namespace, w1) \<Rightarrow> (Proceed (r\<lparr>namespaces := namespaces r @ [namespace]\<rparr>), w1))
      else if kind = ''Pod'' then
        (case GetPod cs (Namespace o') (Name o') w of
           (Inl err, w1) \<Rightarrow> (ReturnFalse (Some err), w1)
         | (Inr pod, w1) \<Rightarrow> (Proceed (r\<lparr>pods := pods r @ [pod]\<rparr>), w1))
      else if kind = ''ReplicationController'' then
        (case GetReplicationController cs (Namespace o') (Name o') w of
           (Inl err, w1) \<Rightarrow> (ReturnFalse (Some err), w1)
         | (Inr rc, w1) \<Rightarrow>
             (case getPods cs (rc_Namespace rc) (rc_Selector rc) w1 of
                ((list, Some err), w2) \<Rightarrow> (ReturnFalse (Some err), w2)
              | ((list, None), w2) \<Rightarrow> (Proceed (r\<lparr>pods := pods r @ list\<rparr>), w2)))
      else if kind = ''Deployment'' then
        (case GetDeployment cs (Namespace o') (Name o') w of
           (Inl err, w1) \<Rightarrow> (ReturnFalse (Some err), w1)
         | (Inr currentDeployment, w1) \<Rightarrow>
             (case GetAllReplicaSets cs currentDeployment w1 of
                ((newReplicaSet, Some err), w2) \<Rightarrow> (ReturnFalse (Some err), w2)
              | ((None, None), w2) \<Rightarrow> (ReturnFalse None, w2)
              | ((Some rs, None), w2) \<Rightarrow>
                  (Proceed (r\<lparr>deployments := deployments r @
                     [\<lparr>replicaSets = Some rs, deployment = Some currentDeployment\<rparr>]\<rparr>), w2)))
      else if kind = ''DaemonSet'' then
        workloadPods cs r (GetDaemonSet cs (Namespace o') (Name o') w)
      else if kind = ''StatefulSet'' then
        workloadPods cs r (GetStatefulSet cs (Namespace o') (Name o') w)
      else if kind = ''ReplicaSet'' then
        workloadPods cs r (GetReplicaSet cs (Namespace o') (Name o') w)
      else if kind = ''Service'' then
        (case GetService cs (Namespace o') (Name o') w of
           (Inl err, w1) \<Rightarrow> (ReturnFalse (Some err), w1)
         | (Inr svc, w1) \<Rightarrow> (Proceed (r\<lparr>services := services r @ [svc]\<rparr>), w1))
      else (Proceed r, w))"

fun resolveObjects :: "'w kube_client \<Rightarrow> K8sObjects \<Rightarrow> resources \<Rightarrow> 'w \<Rightarrow> resources flow \<times> 'w" where
  "resolveObjects cs [] r w = (Proceed r, w)"
| "resolveObjects cs (o' # objects) r w =
     (case resolveObject cs o' r w of
        (Proceed r1, w1) \<Rightarrow> resolveObjects cs objects r1 w1
      | (ReturnFalse err, w1) \<Rightarrow> (ReturnFalse err, w1)
      | (Panicked p, w1) \<Rightarrow> (Panicked p, w1))"

text \<open>
  The condition function of \<^verbatim>\<open>waitForResources\<close>. Its state is the captured variable
  \<^verbatim>\<open>notReady\<close> with the state of the run.
\<close>

definition resourcesPoll :: "'w kube_client \<Rightarrow> K8sObjects \<Rightarrow> string list \<times> 'w st
    \<Rightarrow> (panic + bool \<times> error option) \<times> (string list \<times> 'w st)" where
  "resourcesPoll cs objects ns =
     (case ns of (notReady, s) \<Rightarrow>
       (case resolveObjects cs objects no_resources (world s) of
          (Panicked p, w1) \<Rightarrow> (Inl p, (notReady, s\<lparr>world := w1\<rparr>))
        | (ReturnFalse err, w1) \<Rightarrow> (Inr (False, err), (notReady, s\<lparr>world := w1\<rparr>))
        | (Proceed r, w1) \<Rightarrow>
            (case deploymentsReady (deployments r) of
               Inl p \<Rightarrow> (Inl p, (notReady, s\<lparr>world := w1\<rparr>))
             | Inr (dr, dnr) \<Rightarrow>
                 (case namespacesReady (namespaces r) of (nsr, nnr) \<Rightarrow>
                  case podsReady (pods r) of (pr, pnr) \<Rightarrow>
                  case servicesReady (services r) of (sr, snr) \<Rightarrow>
                    (Inr (dr \<and> nsr \<and> pr \<and> sr, None),
                     (joinStringSlices [nnr, dnr, pnr, snr], s\<lparr>world := w1\<rparr>))))))"

fun strings_Join :: "string list \<Rightarrow> string \<Rightarrow> string" where
  "strings_Join [] sep = []"
| "strings_Join [x] sep = x"
| "strings_Join (x # y # ys) sep = x @ sep @ strings_Join (y # ys) sep"

text \<open>
  The wait runs with the timeout of the options: with \<^verbatim>\<open>WaitTimeout\<close> 0 it has no
  timer, and does not return while the resources stay unready.
\<close>

definition waitForResources :: "('w \<Rightarrow> nat) \<Rightarrow> (int \<Rightarrow> string) \<Rightarrow> 'w kube_client \<Rightarrow> K8sObjects
    \<Rightarrow> InstallOptions \<Rightarrow> 'w st \<Rightarrow> ((panic + error option) \<times> 'w st) option" where
  "waitForResources ticks fmt_Duration cs objects opts s =
     (if DryRun opts then Some (Inr None, s)
      else
        (case kube_NewForConfig cs of
           Some err \<Rightarrow> Some (Inr (Some (''k8s client error: '' @ err)), s)
         | None \<Rightarrow>
             (case Poll (ticks (world s)) (WaitTimeout opts) (resourcesPoll cs objects) ([], s) of
                None \<Rightarrow> None
              | Some (Inl p, (notReady, s1)) \<Rightarrow> Some (Inl p, s1)
              | Some (Inr (Some errPoll), (notReady, s1)) \<Rightarrow>
                  Some (Inr (Some (''resources not ready after '' @ fmt_Duration (WaitTimeout opts) @ '': ''
                      @ errPoll @ [CHR 0x0A] @ strings_Join notReady [CHR 0x0A])), s1)
              | Some (Inr None, (notReady, s1)) \<Rightarrow> Some (Inr None, s1))))"

subsection \<open>Applying one component\<close>

text \<open>
  The constants of package \<^verbatim>\<open>name\<close> are declared outside installer.go: they are taken
  as a parameter, one field for each constant the installer mentions.
\<close>

type_synonym ComponentName = string

record names_pkg =
  OperatorAPINamespace :: string
  IstioBaseComponentName :: ComponentName
  PilotComponentName :: ComponentName
  PolicyComponentName :: ComponentName
  TelemetryComponentName :: ComponentName
  GalleyComponentName :: ComponentName
  CitadelComponentName :: ComponentName
  NodeAgentComponentName :: ComponentName
  CertManagerComponentName :: ComponentName
  SidecarInjectorComponentName :: ComponentName
  IngressComponentName :: ComponentName
  EgressComponentName :: ComponentName
  CNIComponentName :: ComponentName
  PrometheusOperatorComponentName :: ComponentName
  PrometheusComponentName :: ComponentName
  GrafanaComponentName :: ComponentName
  KialiComponentName :: ComponentName
  TracingComponentName :: ComponentName

definition operatorReconcileStr :: string where
  "operatorReconcileStr = ''Reconcile''"

definition operatorLabelStr :: "names_pkg \<Rightarrow> string" where
  "operatorLabelStr N = OperatorAPINamespace N @ ''/managed''"

definition istioComponentLabelStr :: "names_pkg \<Rightarrow> string" where
  "istioComponentLabelStr N = OperatorAPINamespace N @ ''/component''"

definition istioVersionLabelStr :: "names_pkg \<Rightarrow> string" where
  "istioVersionLabelStr N = OperatorAPINamespace N @ ''/version''"

text \<open>
  Package \<^verbatim>\<open>object\<close> is declared outside installer.go as well: the manifest parser, the
  two serialisers, the sort by a score and the labelling of an object are parameters.
  \<^verbatim>\<open>YAMLManifest\<close> is given by its string result only, because
  \<^verbatim>\<open>buildComponentApplyOutput\<close> drops its error.
\<close>

record object_pkg =
  ParseK8sObjectsFromYAMLManifest :: "string \<Rightarrow> error + K8sObjects"
  JSONManifest :: "K8sObjects \<Rightarrow> error + string"
  YAMLManifest :: "K8sObjects \<Rightarrow> string"
  Sort :: "(K8sObject \<Rightarrow> int) \<Rightarrow> K8sObjects \<Rightarrow> K8sObjects"
  AddLabels :: "K8sObject \<Rightarrow> (string \<times> string) list \<Rightarrow> K8sObject"

text \<open>The executor \<^verbatim>\<open>kubectlcmd\<close>: each call returns stdout, stderr and an error.\<close>

record 'w kubectl_client =
  kubectl_GetAll :: "string \<Rightarrow> string \<Rightarrow> string \<Rightarrow> string \<Rightarrow> string list \<Rightarrow> 'w
     \<Rightarrow> (string \<times> string \<times> error option) \<times> 'w"
  kubectl_Delete :: "bool \<Rightarrow> bool \<Rightarrow> string \<Rightarrow> string \<Rightarrow> string \<Rightarrow> string \<Rightarrow> string list \<Rightarrow> 'w
     \<Rightarrow> (string \<times> string \<times> error option) \<times> 'w"
  kubectl_Apply :: "bool \<Rightarrow> bool \<Rightarrow> string \<Rightarrow> string \<Rightarrow> string \<Rightarrow> string \<Rightarrow> string list \<Rightarrow> 'w
     \<Rightarrow> (string \<times> string \<times> error option) \<times> 'w"

text \<open>
  A decoded YAML document, as \<^verbatim>\<open>yaml.Unmarshal\<close> of the YAML library stores it in a
  \<^verbatim>\<open>map[string]interface{}\<close>; a mapping is an association list read with \<open>map_of\<close>.
\<close>

datatype yaml = YNull | YBool bool | YNumber int | YString string
  | YSeq "yaml list" | YMap "(string \<times> yaml) list"

text \<open>The whole environment of a run.\<close>

record 'w env =
  ticks :: "'w \<Rightarrow> nat"
  fmt_Duration :: "int \<Rightarrow> string"
  names :: names_pkg
  objects_pkg :: object_pkg
  yaml_Unmarshal :: "string \<Rightarrow> error + (string \<times> yaml) list"
  kubectl :: "'w kubectl_client"
  apiextensions :: "'w crd_client"
  kubernetes :: "'w kube_client"

definition call_GetAll :: "'w kubectl_client \<Rightarrow> string \<Rightarrow> string \<Rightarrow> string \<Rightarrow> string \<Rightarrow> string list
    \<Rightarrow> 'w st \<Rightarrow> (string \<times> string \<times> error option) \<times> 'w st" where
  "call_GetAll kc kubeconfig context' namespace output extraArgs s =
     (case kubectl_GetAll kc kubeconfig context' namespace output extraArgs (world s) of
        (r, w) \<Rightarrow> (r, s\<lparr>world := w,
           trace := trace s @ [KubectlGetAll kubeconfig context' namespace output extraArgs]\<rparr>))"

definition call_Delete :: "'w kubectl_client \<Rightarrow> bool \<Rightarrow> bool \<Rightarrow> string \<Rightarrow> string \<Rightarrow> string \<Rightarrow> string
    \<Rightarrow> string list \<Rightarrow> 'w st \<Rightarrow> (string \<times> string \<times> error option) \<times> 'w st" where
  "call_Delete kc dryRun verbose kubeconfig context' namespace manifest extraArgs s =
     (case kubectl_Delete kc dryRun verbose kubeconfig context' namespace manifest extraArgs (world s) of
        (r, w) \<Rightarrow> (r, s\<lparr>world := w,
           trace := trace s @ [KubectlDelete dryRun verbose kubeconfig context' namespace manifest extraArgs]\<rparr>))"

definition call_Apply :: "'w kubectl_client \<Rightarrow> bool \<Rightarrow> bool \<Rightarrow> string \<Rightarrow> string \<Rightarrow> string \<Rightarrow> string
    \<Rightarrow> string list \<Rightarrow> 'w st \<Rightarrow> (string \<times> string \<times> error option) \<times> 'w st" where
  "call_Apply kc dryRun verbose kubeconfig context' namespace manifest extraArgs s =
     (case kubectl_Apply kc dryRun verbose kubeconfig context' namespace manifest extraArgs (world s) of
        (r, w) \<Rightarrow> (r, s\<lparr>world := w,
           trace := trace s @ [KubectlApply dryRun verbose kubeconfig context' namespace manifest extraArgs]\<rparr>))"

definition GetKubectlGetItems :: "(string \<Rightarrow> error + (string \<times> yaml) list) \<Rightarrow> string \<Rightarrow> error + yaml list" where
  "GetKubectlGetItems unmarshal stdoutGet =
     (case unmarshal stdoutGet of
        Inl err \<Rightarrow> Inl err
      | Inr yamlGet \<Rightarrow>
          if map_of yamlGet ''kind'' \<noteq> Some (YString ''List'')
          then Inl ''`kubectl get` returned a yaml whose kind is not List''
          else
            (case map_of yamlGet ''items'' of
               None \<Rightarrow> Inl ''`kubectl get` returned a yaml without 'items' in the root''
             | Some (YSeq items) \<Rightarrow> Inr items
             | Some _ \<Rightarrow> Inl ''`kubectl get` returned a yaml incorrecnt type 'items' in the root''))"

record ComponentApplyOutput =
  Stdout :: string
  Stderr :: string
  Err :: "error option"
  Manifest :: string

definition buildComponentApplyOutput :: "object_pkg \<Rightarrow> string \<Rightarrow> string \<Rightarrow> K8sObjects \<Rightarrow> error option
    \<Rightarrow> ComponentApplyOutput" where
  "buildComponentApplyOutput op stdout stderr objects err =
     \<lparr>Stdout = stdout, Stderr = stderr, Err = err, Manifest = YAMLManifest op objects\<rparr>"

text \<open>
  \<^verbatim>\<open>objectsNotInLists\<close> keys its filter map by pointer. The lists it is given are the
  objects of kind Namespace and CustomResourceDefinition taken out of \<open>objects\<close> itself, so
  that an object is in them by pointer exactly when it is by value.
\<close>

definition objectsNotInLists :: "K8sObjects \<Rightarrow> K8sObjects list \<Rightarrow> K8sObjects" where
  "objectsNotInLists objects lists' =
     (let filterMap = set (concat lists') in filter (\<lambda>o'. o' \<notin> filterMap) objects)"

text \<open>What \<^verbatim>\<open>applyManifest\<close> returns when it returns and does not panic.\<close>

type_synonym applied = "ComponentApplyOutput \<times> K8sObjects"

text \<open>A step of a function either returns from the function or hands on to the next step.\<close>

datatype ('r, 'a) step = Return 'r | Next 'a

definition newline :: string where
  "newline = [CHR 0x0A]"

text \<open>
  Lines 275 to 307: the component has no objects, and what the cluster still holds under
  its label is deleted.
\<close>

definition pruneDisabled :: "'w env \<Rightarrow> string \<Rightarrow> InstallOptions \<Rightarrow> 'w st \<Rightarrow> applied \<times> 'w st" where
  "pruneDisabled E componentLabel opts s =
     (let op = objects_pkg E; stdout = []; stderr = []; appliedObjects = [];
          extraArgsGet = [''--all-namespaces'', ''--selector'', componentLabel] in
      (case call_GetAll (kubectl E) (Kubeconfig opts) (Context opts) [] ''yaml'' extraArgsGet s of
        ((stdoutGet, stderrGet, Some err), s1) \<Rightarrow>
          ((buildComponentApplyOutput op (stdout @ newline @ stdoutGet) (stderr @ newline @ stderrGet)
              appliedObjects (Some err), appliedObjects), s1)
      | ((stdoutGet, stderrGet, None), s1) \<Rightarrow>
          (case GetKubectlGetItems (yaml_Unmarshal E) stdoutGet of
             Inl err \<Rightarrow> ((buildComponentApplyOutput op stdout stderr appliedObjects (Some err), appliedObjects), s1)
           | Inr items \<Rightarrow>
               if length items = 0
               then ((buildComponentApplyOutput op stdout stderr appliedObjects None, appliedObjects), s1)
               else
                 (case ParseK8sObjectsFromYAMLManifest op stdoutGet of
                    Inl err \<Rightarrow>
                      ((buildComponentApplyOutput op stdout stderr appliedObjects (Some err), appliedObjects), s1)
                  | Inr delObjects \<Rightarrow>
                      let extraArgsDel = [''--selector'', componentLabel] in
                      (case call_Delete (kubectl E) (DryRun opts) (Verbose opts) (Kubeconfig opts)
                              (Context opts) [] stdoutGet extraArgsDel s1 of
                         ((stdoutDel, stderrDel, Some err), s2) \<Rightarrow>
                           ((buildComponentApplyOutput op (stdout @ newline @ stdoutDel)
                               (stderr @ newline @ stderrDel) appliedObjects (Some err), appliedObjects), s2)
                       | ((stdoutDel, stderrDel, None), s2) \<Rightarrow>
                           ((buildComponentApplyOutput op (stdout @ newline @ stdoutDel)
                               (stderr @ newline @ stderrDel) (appliedObjects @ delObjects) None,
                             appliedObjects @ delObjects), s2))))))"

text \<open>Lines 309 to 318: the three labels, and the namespace of the last object that has one.\<close>

fun labelObjects :: "'w env \<Rightarrow> ComponentName \<Rightarrow> string \<Rightarrow> K8sObjects \<Rightarrow> string \<Rightarrow> K8sObjects \<times> string" where
  "labelObjects E componentName version [] namespace = ([], namespace)"
| "labelObjects E componentName version (o' # objects) namespace =
     (let op = objects_pkg E;
          o1 = AddLabels op o' [(istioComponentLabelStr (names E), componentName)];
          o2 = AddLabels op o1 [(operatorLabelStr (names E), operatorReconcileStr)];
          o3 = AddLabels op o2 [(istioVersionLabelStr (names E), version)];
          namespace1 = (if Namespace o3 \<noteq> [] then Namespace o3 else namespace) in
      case labelObjects E componentName version objects namespace1 of
        (os, namespace2) \<Rightarrow> (o3 # os, namespace2))"

text \<open>
  The enabled path threads three variables through its steps: \<^verbatim>\<open>stdout\<close>,
  \<^verbatim>\<open>stderr\<close> and \<^verbatim>\<open>appliedObjects\<close>.
\<close>

type_synonym progress = "string \<times> string \<times> K8sObjects"

text \<open>Lines 327 to 345: the namespace objects are applied and waited for.\<close>

definition applyNamespaces :: "'w env \<Rightarrow> InstallOptions \<Rightarrow> string \<Rightarrow> string list \<Rightarrow> K8sObjects
    \<Rightarrow> progress \<Rightarrow> 'w st \<Rightarrow> ((panic + applied, progress) step \<times> 'w st) option" where
  "applyNamespaces E opts namespace extraArgs nsObjects pr s =
     (case pr of (stdout, stderr, appliedObjects) \<Rightarrow>
      let op = objects_pkg E in
      if length nsObjects > 0 then
        (case JSONManifest op nsObjects of
           Inl err \<Rightarrow>
             Some (Return (Inr (buildComponentApplyOutput op stdout stderr appliedObjects (Some err),
                appliedObjects)), s)
         | Inr mns \<Rightarrow>
             (case call_Apply (kubectl E) (DryRun opts) (Verbose opts) (Kubeconfig opts) (Context opts)
                     namespace mns extraArgs s of
                ((stdoutNs, stderrNs, err), s1) \<Rightarrow>
                  let stdout1 = stdout @ newline @ stdoutNs; stderr1 = stderr @ newline @ stderrNs in
                  (case err of
                     Some e \<Rightarrow>
                       Some (Return (Inr (buildComponentApplyOutput op stdout1 stderr1 appliedObjects (Some e),
                          appliedObjects)), s1)
                   | None \<Rightarrow>
                       (case waitForResources (ticks E) (fmt_Duration E) (kubernetes E) nsObjects opts s1 of
                          None \<Rightarrow> None
                        | Some (Inl p, s2) \<Rightarrow> Some (Return (Inl p), s2)
                        | Some (Inr (Some e), s2) \<Rightarrow>
                            Some (Return (Inr (buildComponentApplyOutput op stdout1 stderr1 appliedObjects
                               (Some e), appliedObjects)), s2)
                        | Some (Inr None, s2) \<Rightarrow>
                            Some (Next (stdout1, stderr1, appliedObjects @ nsObjects), s2)))))
      else Some (Next (stdout, stderr, appliedObjects @ nsObjects), s))"

text \<open>
  Lines 347 to 365: the custom resource definitions are applied and waited for. The
  waiter is handed all objects of the component and picks the definitions itself.
\<close>

definition applyCRDs :: "'w env \<Rightarrow> InstallOptions \<Rightarrow> string \<Rightarrow> string list \<Rightarrow> K8sObjects \<Rightarrow> K8sObjects
    \<Rightarrow> progress \<Rightarrow> 'w st \<Rightarrow> ((panic + applied, progress) step \<times> 'w st) option" where
  "applyCRDs E opts namespace extraArgs objects crdObjects pr s =
     (case pr of (stdout, stderr, appliedObjects) \<Rightarrow>
      let op = objects_pkg E in
      if length crdObjects > 0 then
        (case JSONManifest op crdObjects of
           Inl err \<Rightarrow>
             Some (Return (Inr (buildComponentApplyOutput op stdout stderr appliedObjects (Some err),
                appliedObjects)), s)
         | Inr mcrd \<Rightarrow>
             (case call_Apply (kubectl E) (DryRun opts) (Verbose opts) (Kubeconfig opts) (Context opts)
                     namespace mcrd extraArgs s of
                ((stdoutCRD, stderrCRD, err), s1) \<Rightarrow>
                  let stdout1 = stdout @ newline @ stdoutCRD; stderr1 = stderr @ newline @ stderrCRD in
                  (case err of
                     Some e \<Rightarrow>
                       Some (Return (Inr (buildComponentApplyOutput op stdout1 stderr1 appliedObjects (Some e),
                          appliedObjects)), s1)
                   | None \<Rightarrow>
                       (case waitForCRDs (ticks E) (apiextensions E) objects (DryRun opts) s1 of
                          None \<Rightarrow> None
                        | Some (Inl p, s2) \<Rightarrow> Some (Return (Inl p), s2)
                        | Some (Inr (Some e), s2) \<Rightarrow>
                            Some (Return (Inr (buildComponentApplyOutput op stdout1 stderr1 appliedObjects
                               (Some e), appliedObjects)), s2)
                        | Some (Inr None, s2) \<Rightarrow>
                            Some (Next (stdout1, stderr1, appliedObjects @ crdObjects), s2)))))
      else Some (Next (stdout, stderr, appliedObjects @ crdObjects), s))"

text \<open>
  Lines 367 to 381: the remaining objects. The objects are appended to
  \<^verbatim>\<open>appliedObjects\<close> before the error of the executor is looked at.
\<close>

definition applyRemainder :: "'w env \<Rightarrow> InstallOptions \<Rightarrow> string \<Rightarrow> string list \<Rightarrow> K8sObjects
    \<Rightarrow> progress \<Rightarrow> 'w st \<Rightarrow> applied \<times> 'w st" where
  "applyRemainder E opts namespace extraArgs nonNsCrdObjects pr s =
     (case pr of (stdout, stderr, appliedObjects) \<Rightarrow>
      let op = objects_pkg E in
      (case JSONManifest op nonNsCrdObjects of
         Inl err \<Rightarrow>
           ((buildComponentApplyOutput op stdout stderr appliedObjects (Some err), appliedObjects), s)
       | Inr m \<Rightarrow>
           (case call_Apply (kubectl E) (DryRun opts) (Verbose opts) (Kubeconfig opts) (Context opts)
                   namespace m extraArgs s of
              ((stdoutNonNsCrd, stderrNonNsCrd, err), s1) \<Rightarrow>
                (let stdout1 = stdout @ newline @ stdoutNonNsCrd;
                     stderr1 = stderr @ newline @ stderrNonNsCrd;
                     appliedObjects1 = appliedObjects @ nonNsCrdObjects in
                 ((buildComponentApplyOutput op stdout1 stderr1 appliedObjects1 err, appliedObjects1), s1)))))"

text \<open>
  \<^verbatim>\<open>applyManifest\<close>: \<open>None\<close> when one of its waits does not return.
\<close>

definition applyManifest :: "'w env \<Rightarrow> ComponentName \<Rightarrow> string \<Rightarrow> string \<Rightarrow> InstallOptions \<Rightarrow> 'w st
    \<Rightarrow> ((panic + applied) \<times> 'w st) option" where
  "applyManifest E componentName manifestStr version opts s =
     (let op = objects_pkg E; stdout = []; stderr = []; appliedObjects = [] in
      (case ParseK8sObjectsFromYAMLManifest op manifestStr of
        Inl err \<Rightarrow>
          Some (Inr (buildComponentApplyOutput op stdout stderr appliedObjects (Some err), appliedObjects), s)
      | Inr objects \<Rightarrow>
          let componentLabel = istioComponentLabelStr (names E) @ ''='' @ componentName in
          if length objects = 0 then
            (case pruneDisabled E componentLabel opts s of (r, s1) \<Rightarrow> Some (Inr r, s1))
          else
            (case labelObjects E componentName version objects [] of
               (labelled, namespace) \<Rightarrow>
                 let sorted' = Sort op defaultObjectOrder labelled;
                     extraArgs = [''--force''] @
                       (if componentName \<noteq> IstioBaseComponentName (names E)
                        then [''--prune'', ''--selector'', componentLabel] else []);
                     nsObjects = nsKindObjects sorted' in
                 (case applyNamespaces E opts namespace extraArgs nsObjects (stdout, stderr, appliedObjects) s of
                    None \<Rightarrow> None
                  | Some (Return r, s1) \<Rightarrow> Some (r, s1)
                  | Some (Next pr1, s1) \<Rightarrow>
                      let crdObjects = cRDKindObjects sorted' in
                      (case applyCRDs E opts namespace extraArgs sorted' crdObjects pr1 s1 of
                         None \<Rightarrow> None
                       | Some (Return r, s2) \<Rightarrow> Some (r, s2)
                       | Some (Next pr2, s2) \<Rightarrow>
                           (case applyRemainder E opts namespace extraArgs
                                   (objectsNotInLists sorted' [nsObjects, crdObjects]) pr2 s2 of
                              (r, s3) \<Rightarrow> Some (Inr r, s3)))))))"

subsection \<open>The dependency tree and RenderToDir\<close>

type_synonym componentNameToListMap = "(ComponentName \<times> ComponentName list) list"

text \<open>The declaration \<^verbatim>\<open>componentDependencies\<close>: one parent with sixteen children.\<close>

definition baseChildren :: "names_pkg \<Rightarrow> ComponentName list" where
  "baseChildren N =
     [PilotComponentName N, PolicyComponentName N, TelemetryComponentName N, GalleyComponentName N,
      CitadelComponentName N, NodeAgentComponentName N, CertManagerComponentName N,
      SidecarInjectorComponentName N, IngressComponentName N, EgressComponentName N,
      CNIComponentName N, PrometheusOperatorComponentName N, PrometheusComponentName N,
      GrafanaComponentName N, KialiComponentName N, TracingComponentName N]"

definition componentDependencies :: "names_pkg \<Rightarrow> componentNameToListMap" where
  "componentDependencies N = [(IstioBaseComponentName N, baseChildren N)]"

text \<open>Reading a Go map of slices: a missing key gives the nil slice.\<close>

definition childrenOf :: "componentNameToListMap \<Rightarrow> ComponentName \<Rightarrow> ComponentName list" where
  "childrenOf children componentName =
     (case map_of children componentName of None \<Rightarrow> [] | Some cs \<Rightarrow> cs)"

text \<open>
  \<^verbatim>\<open>componentTree\<close> is a \<^verbatim>\<open>map[name.ComponentName]interface{}\<close>. The model keeps its
  entries in a list, whose order stands for the order in which a \<^verbatim>\<open>range\<close> over the map
  visits them; a value is \<open>Some t\<close> when it is a component tree and \<open>None\<close> when it is
  anything else.
\<close>

datatype componentTree = ComponentTree "(ComponentName \<times> componentTree option) list"

type_synonym entries = "(ComponentName \<times> componentTree option) list"

text \<open>The assignment \<^verbatim>\<open>tree[k] = v\<close>.\<close>

fun tree_assign :: "ComponentName \<Rightarrow> componentTree option \<Rightarrow> entries \<Rightarrow> entries" where
  "tree_assign k v [] = [(k, v)]"
| "tree_assign k v ((k', v') # es) = (if k = k' then (k, v) # es else (k', v') # tree_assign k v es)"

text \<open>
  \<^verbatim>\<open>insertChildrenRecursive\<close> follows the declaration from parent to child and does not
  return on a declaration with a cycle: the model counts the depth it may still descend
  and gives \<open>None\<close> when the count is used up. \<open>insertEach\<close> is its loop over the children.
\<close>

fun insertChildrenRecursive :: "nat \<Rightarrow> ComponentName \<Rightarrow> componentTree \<Rightarrow> componentNameToListMap
    \<Rightarrow> componentTree option"
  and insertEach :: "nat \<Rightarrow> ComponentName list \<Rightarrow> componentTree \<Rightarrow> componentNameToListMap
    \<Rightarrow> componentTree option" where
  "insertChildrenRecursive 0 componentName tree children = None"
| "insertChildrenRecursive (Suc depth) componentName (ComponentTree es) children =
     (case insertEach depth (childrenOf children componentName) (ComponentTree []) children of
        None \<Rightarrow> None
      | Some sub \<Rightarrow> Some (ComponentTree (tree_assign componentName (Some sub) es)))"
| "insertEach depth [] sub children = Some sub"
| "insertEach depth (child # rest) sub children =
     (case insertChildrenRecursive depth child sub children of
        None \<Rightarrow> None
      | Some sub' \<Rightarrow> insertEach depth rest sub' children)"

definition buildInstallTree :: "nat \<Rightarrow> names_pkg \<Rightarrow> componentTree option" where
  "buildInstallTree depth N =
     insertChildrenRecursive depth (IstioBaseComponentName N) (ComponentTree []) (componentDependencies N)"

text \<open>
  The file system: \<^verbatim>\<open>os.MkdirAll\<close> and \<^verbatim>\<open>ioutil.WriteFile\<close>, each of which may fail.
  A path is the list of its elements; \<^verbatim>\<open>filepath.Join\<close> adds one element, for
  component names that are a single path element.
\<close>

record 'w filesystem =
  os_MkdirAll :: "path \<Rightarrow> 'w \<Rightarrow> error option \<times> 'w"
  ioutil_WriteFile :: "path \<Rightarrow> string \<Rightarrow> 'w \<Rightarrow> error option \<times> 'w"

definition call_MkdirAll :: "'w filesystem \<Rightarrow> path \<Rightarrow> 'w st \<Rightarrow> error option \<times> 'w st" where
  "call_MkdirAll fs p s =
     (case os_MkdirAll fs p (world s) of
        (r, w) \<Rightarrow> (r, s\<lparr>world := w, trace := trace s @ [MkdirAll p]\<rparr>))"

definition call_WriteFile :: "'w filesystem \<Rightarrow> path \<Rightarrow> string \<Rightarrow> 'w st \<Rightarrow> error option \<times> 'w st" where
  "call_WriteFile fs p content s =
     (case ioutil_WriteFile fs p content (world s) of
        (r, w) \<Rightarrow> (r, s\<lparr>world := w, trace := trace s @ [WriteFile p content]\<rparr>))"

definition path_string :: "path \<Rightarrow> string" where
  "path_string p = strings_Join p ''/''"

type_synonym ManifestMap = "(ComponentName \<times> string) list"

text \<open>Reading a Go map of strings: a missing key gives the empty string.\<close>

definition manifestOf :: "ManifestMap \<Rightarrow> ComponentName \<Rightarrow> string" where
  "manifestOf manifests k = (case map_of manifests k of None \<Rightarrow> [] | Some ym \<Rightarrow> ym)"

text \<open>
  \<^verbatim>\<open>renderRecursive\<close>: the loop over the entries of a tree, which calls itself on the
  subtree of an entry with the directory of that entry as output directory.
\<close>

function renderEntries :: "'w filesystem \<Rightarrow> ManifestMap \<Rightarrow> entries \<Rightarrow> path \<Rightarrow> bool \<Rightarrow> 'w st
    \<Rightarrow> error option \<times> 'w st" where
  "renderEntries fs manifests [] outputDir dryRun s = (None, s)"
| "renderEntries fs manifests ((k, v) # rest) outputDir dryRun s =
     (let componentName = k; ym = manifestOf manifests k in
      if ym = [] then renderEntries fs manifests rest outputDir dryRun s
      else
        let dirName = outputDir @ [componentName] in
        (case (if \<not> dryRun then call_MkdirAll fs dirName s else (None, s)) of
           (Some err, s1) \<Rightarrow>
             (Some (''could not create directory '' @ path_string outputDir @ ''; '' @ err), s1)
         | (None, s1) \<Rightarrow>
             let fname = dirName @ [componentName @ ''.yaml''] in
             (case (if \<not> dryRun then call_WriteFile fs fname ym s1 else (None, s1)) of
                (Some err, s2) \<Rightarrow> (Some (''could not write manifest config; '' @ err), s2)
              | (None, s2) \<Rightarrow>
                  (case v of
                     None \<Rightarrow> (None, s2)
                   | Some (ComponentTree kt) \<Rightarrow>
                       (case renderEntries fs manifests kt dirName dryRun s2 of
                          (Some err, s3) \<Rightarrow> (Some err, s3)
                        | (None, s3) \<Rightarrow> renderEntries fs manifests rest outputDir dryRun s3)))))"
  by pat_completeness auto
termination
  by (relation "measure (\<lambda>(fs, manifests, es, outputDir, dryRun, s).
        size_list (size_prod (\<lambda>k. 0) (size_option size)) es)") auto

definition renderRecursive :: "'w filesystem \<Rightarrow> ManifestMap \<Rightarrow> componentTree \<Rightarrow> path \<Rightarrow> bool \<Rightarrow> bool
    \<Rightarrow> 'w st \<Rightarrow> error option \<times> 'w st" where
  "renderRecursive fs manifests installTree outputDir dryRun verbose s =
     (case installTree of ComponentTree es \<Rightarrow> renderEntries fs manifests es outputDir dryRun s)"

definition RenderToDir :: "'w filesystem \<Rightarrow> componentTree \<Rightarrow> ManifestMap \<Rightarrow> path \<Rightarrow> bool \<Rightarrow> bool
    \<Rightarrow> 'w st \<Rightarrow> error option \<times> 'w st" where
  "RenderToDir fs installTree manifests outputDir dryRun verbose s =
     renderRecursive fs manifests installTree outputDir dryRun verbose s"

subsection \<open>The cluster connection\<close>

text \<open>
  \<^verbatim>\<open>rest.Config\<close>: what the client configuration loader produced, and the three fields
  \<^verbatim>\<open>defaultRestConfig\<close> sets.
\<close>

record rest_Config =
  cfg_Loaded :: string
  cfg_APIPath :: string
  cfg_GroupVersion :: string
  cfg_NegotiatedSerializer :: string

text \<open>
  \<^verbatim>\<open>os.Stat\<close>, of which \<^verbatim>\<open>BuildClientConfig\<close> reads the error and the size, and the
  deferred loader of \<^verbatim>\<open>clientcmd\<close>, called with the explicit path and the context.
\<close>

record 'w resolver =
  os_Stat :: "string \<Rightarrow> 'w \<Rightarrow> (error + int) \<times> 'w"
  clientcmd_ClientConfig :: "string \<Rightarrow> string \<Rightarrow> 'w \<Rightarrow> (error + rest_Config) \<times> 'w"

definition BuildClientConfig :: "'w resolver \<Rightarrow> string \<Rightarrow> string \<Rightarrow> 'w \<Rightarrow> (error + rest_Config) \<times> 'w" where
  "BuildClientConfig R kubeconfig context' w =
     (case (if kubeconfig \<noteq> [] then
              (case os_Stat R kubeconfig w of
                 (Inl err, w1) \<Rightarrow> ([], w1)
               | (Inr size', w1) \<Rightarrow> (if size' = 0 then [] else kubeconfig, w1))
            else (kubeconfig, w)) of
        (explicitPath, w1) \<Rightarrow> clientcmd_ClientConfig R explicitPath context' w1)"

definition defaultRestConfig :: "'w resolver \<Rightarrow> string \<Rightarrow> string \<Rightarrow> 'w \<Rightarrow> (error + rest_Config) \<times> 'w" where
  "defaultRestConfig R kubeconfig configContext w =
     (case BuildClientConfig R kubeconfig configContext w of
        (Inl err, w1) \<Rightarrow> (Inl err, w1)
      | (Inr config, w1) \<Rightarrow>
          (Inr (config\<lparr>cfg_APIPath := ''/api'', cfg_GroupVersion := ''v1'',
                        cfg_NegotiatedSerializer := ''WithoutConversionCodecFactory''\<rparr>), w1))"

text \<open>
  \<^verbatim>\<open>initK8SRestClient\<close> works on the package variable \<^verbatim>\<open>k8sRESTConfig\<close>, which is the
  first component of the state here.
\<close>

definition initK8SRestClient :: "'w resolver \<Rightarrow> string \<Rightarrow> string \<Rightarrow> rest_Config option \<times> 'w
    \<Rightarrow> error option \<times> rest_Config option \<times> 'w" where
  "initK8SRestClient R kubeconfig context' g =
     (case g of (k8sRESTConfig, w) \<Rightarrow>
      if k8sRESTConfig \<noteq> None then (None, k8sRESTConfig, w)
      else
        (case defaultRestConfig R kubeconfig context' w of
           (Inl err, w1) \<Rightarrow> (Some err, None, w1)
         | (Inr config, w1) \<Rightarrow> (None, Some config, w1)))"

subsection \<open>The orchestrator and its dependency gates\<close>

text \<open>
  \<^verbatim>\<open>applyRecursive\<close> starts one goroutine for each entry of the manifest map. The model
  follows each goroutine through the points at which it can block or hand over:
  \<^item> \<open>Waiting\<close>: at the test of its gate (lines 236 to 240); it goes on when it has no
    gate, or takes the token out of its gate when there is one;
  \<^item> \<open>Applying\<close>: about to call \<^verbatim>\<open>applyManifest\<close> and to record the result under the
    mutex (lines 241 to 245);
  \<^item> \<open>Signalling rest\<close>: in the loop over its declared children, with the gates of
    \<open>rest\<close> still to be signalled (lines 248 to 251);
  \<^item> \<open>Finished\<close>: after \<^verbatim>\<open>wg.Done\<close>.
  The call of \<^verbatim>\<open>applyManifest\<close> with the critical section after it is one step: what
  the goroutines do to the cluster in between is part of the environment, which is
  arbitrary.
\<close>

datatype phase = Waiting | Applying | Signalling "ComponentName list" | Finished

text \<open>
  \<^verbatim>\<open>init\<close> makes a channel of capacity 1 for every child of every parent of the
  declaration; a component has a gate when it is such a child.
\<close>

definition hasGate :: "names_pkg \<Rightarrow> ComponentName \<Rightarrow> bool" where
  "hasGate N c = (c \<in> set (concat (map snd (componentDependencies N))))"

text \<open>
  The state of a run: the phase of each goroutine, the number of tokens in each gate,
  the gates signalled so far in their order, the two variables guarded by the mutex, a
  panic if a goroutine has panicked, and the state of the outside world with the trace.
\<close>

record 'w orchestration =
  phase_of :: "ComponentName \<Rightarrow> phase"
  dependencyWaitCh :: "ComponentName \<Rightarrow> nat"
  signalled :: "ComponentName list"
  outputs :: "(ComponentName \<times> ComponentApplyOutput) list"
  allAppliedObjects :: K8sObjects
  crashed :: "panic option"
  outside :: "'w st"

text \<open>
  One step of the goroutine of component \<open>c\<close>, or \<open>None\<close> when it cannot move: it is not
  a goroutine of this run, it waits on an empty gate, its call of \<^verbatim>\<open>applyManifest\<close> does
  not return, it sends to a full gate, it has finished, or the process has panicked.
\<close>

definition step :: "'w env \<Rightarrow> string \<Rightarrow> InstallOptions \<Rightarrow> ManifestMap \<Rightarrow> ComponentName
    \<Rightarrow> 'w orchestration \<Rightarrow> 'w orchestration option" where
  "step E version opts manifests c \<sigma> =
     (if crashed \<sigma> \<noteq> None \<or> c \<notin> fst ` set manifests then None
      else
        (case phase_of \<sigma> c of
           Waiting \<Rightarrow>
             if hasGate (names E) c then
               (if dependencyWaitCh \<sigma> c > 0
                then Some (\<sigma>\<lparr>phase_of := (phase_of \<sigma>)(c := Applying),
                            dependencyWaitCh := (dependencyWaitCh \<sigma>)(c := dependencyWaitCh \<sigma> c - 1)\<rparr>)
                else None)
             else Some (\<sigma>\<lparr>phase_of := (phase_of \<sigma>)(c := Applying)\<rparr>)
         | Applying \<Rightarrow>
             (case applyManifest E c (manifestOf manifests c) version opts (outside \<sigma>) of
                None \<Rightarrow> None
              | Some (Inl p, s') \<Rightarrow> Some (\<sigma>\<lparr>crashed := Some p, outside := s'\<rparr>)
              | Some (Inr (applyOut, appliedObjects), s') \<Rightarrow>
                  Some (\<sigma>\<lparr>phase_of := (phase_of \<sigma>)
                               (c := Signalling (childrenOf (componentDependencies (names E)) c)),
                           outputs := outputs \<sigma> @ [(c, applyOut)],
                           allAppliedObjects := allAppliedObjects \<sigma> @ appliedObjects,
                           outside := s'\<rparr>))
         | Signalling [] \<Rightarrow> Some (\<sigma>\<lparr>phase_of := (phase_of \<sigma>)(c := Finished)\<rparr>)
         | Signalling (ch # rest) \<Rightarrow>
             if dependencyWaitCh \<sigma> ch < 1
             then Some (\<sigma>\<lparr>phase_of := (phase_of \<sigma>)(c := Signalling rest),
                         dependencyWaitCh := (dependencyWaitCh \<sigma>)(ch := dependencyWaitCh \<sigma> ch + 1),
                         signalled := signalled \<sigma> @ [ch]\<rparr>)
             else None
         | Finished \<Rightarrow> None))"

text \<open>
  A schedule names the goroutine that is given the next turn; a goroutine that cannot
  move loses its turn. Every interleaving of the goroutines is the run of some schedule.
\<close>

fun exec :: "'w env \<Rightarrow> string \<Rightarrow> InstallOptions \<Rightarrow> ManifestMap \<Rightarrow> ComponentName list
    \<Rightarrow> 'w orchestration \<Rightarrow> 'w orchestration" where
  "exec E version opts manifests [] \<sigma> = \<sigma>"
| "exec E version opts manifests (c # sched) \<sigma> =
     (case step E version opts manifests c \<sigma> of
        None \<Rightarrow> exec E version opts manifests sched \<sigma>
      | Some \<sigma>' \<Rightarrow> exec E version opts manifests sched \<sigma>')"

text \<open>
  The start of a run, with the tokens the gates hold and the state of the world. The
  gates are the package variable \<^verbatim>\<open>dependencyWaitCh\<close>: a call finds in them what the
  earlier calls of the process have left.
\<close>

definition start :: "(ComponentName \<Rightarrow> nat) \<Rightarrow> 'w st \<Rightarrow> 'w orchestration" where
  "start tokens s =
     \<lparr>phase_of = (\<lambda>c. Waiting), dependencyWaitCh = tokens, signalled = [], outputs = [],
      allAppliedObjects = [], crashed = None, outside = s\<rparr>"

text \<open>The gates as \<^verbatim>\<open>init\<close> leaves them: empty.\<close>

definition noTokens :: "ComponentName \<Rightarrow> nat" where
  "noTokens c = 0"

definition allFinished :: "ManifestMap \<Rightarrow> 'w orchestration \<Rightarrow> bool" where
  "allFinished manifests \<sigma> = list_all (\<lambda>c. phase_of \<sigma> c = Finished) (map fst manifests)"

text \<open>
  How a call ends under a schedule: it returns, the process panics, or it has not
  returned: \<^verbatim>\<open>wg.Wait\<close> has not, because goroutines are still on their way or blocked,
  or the final wait for the resources does not.
\<close>

datatype 'a ending = Returned 'a | Panics panic | NotReturned

type_synonym CompositeOutput = "(ComponentName \<times> ComponentApplyOutput) list"

definition applyRecursive :: "'w env \<Rightarrow> string \<Rightarrow> InstallOptions \<Rightarrow> ManifestMap \<Rightarrow> ComponentName list
    \<Rightarrow> (ComponentName \<Rightarrow> nat) \<Rightarrow> 'w st \<Rightarrow> ((CompositeOutput option \<times> error option) \<times> 'w st) ending" where
  "applyRecursive E version opts manifests sched tokens s =
     (let \<sigma> = exec E version opts manifests sched (start tokens s) in
      case crashed \<sigma> of
        Some p \<Rightarrow> Panics p
      | None \<Rightarrow>
          if allFinished manifests \<sigma> then
            (if Wait opts then
               (case waitForResources (ticks E) (fmt_Duration E) (kubernetes E) (allAppliedObjects \<sigma>)
                       opts (outside \<sigma>) of
                  None \<Rightarrow> NotReturned
                | Some (Inl p, s1) \<Rightarrow> Panics p
                | Some (Inr err, s1) \<Rightarrow> Returned ((Some (outputs \<sigma>), err), s1))
             else Returned ((Some (outputs \<sigma>), None), outside \<sigma>))
          else NotReturned)"

definition ApplyAll :: "'w env \<Rightarrow> 'w resolver \<Rightarrow> ManifestMap \<Rightarrow> string \<Rightarrow> InstallOptions
    \<Rightarrow> ComponentName list \<Rightarrow> rest_Config option \<Rightarrow> (ComponentName \<Rightarrow> nat) \<Rightarrow> 'w st
    \<Rightarrow> ((CompositeOutput option \<times> error option) \<times> 'w st) ending" where
  "ApplyAll E R manifests version opts sched k8sRESTConfig tokens s =
     (case initK8SRestClient R (Kubeconfig opts) (Context opts) (k8sRESTConfig, world s) of
        (Some err, config, w1) \<Rightarrow> Returned ((None, Some err), s\<lparr>world := w1\<rparr>)
      | (None, config, w1) \<Rightarrow>
          applyRecursive E version opts manifests sched tokens (s\<lparr>world := w1\<rparr>))"

subsection \<open>Notions used to state the properties\<close>

text \<open>
  A definition is established when one of its status conditions has type Established and
  status True.
\<close>

definition established :: "CRDCondition list \<Rightarrow> bool" where
  "established conds = (\<exists>c \<in> set conds. cond_Type c = Established \<and> cond_Status c = ConditionTrue)"

text \<open>No fetch of a definition recorded in these events has failed.\<close>

definition no_failed_fetch :: "event list \<Rightarrow> bool" where
  "no_failed_fetch evs = (\<forall>n e. GetCRD n (Inl e) \<notin> set evs)"



text \<open>
  The deployment condition in the words of the specification: the ready-replica count of
  the current replica set is at least the desired replica count of the deployment.
\<close>

definition spec_deploymentReady :: "ReplicaSet \<Rightarrow> Deployment \<Rightarrow> bool" where
  "spec_deploymentReady rs d =
     (case dep_Replicas d of None \<Rightarrow> False | Some n \<Rightarrow> sint n \<le> sint (rs_ReadyReplicas rs))"

text \<open>
  An entry of the slice \<^verbatim>\<open>deployments\<close> is paired when both of its pointers are set,
  and resolved when the desired replica count of its deployment is set as well.
\<close>

definition entryPaired :: "deployment \<Rightarrow> bool" where
  "entryPaired v = (replicaSets v \<noteq> None \<and> deployment v \<noteq> None)"

definition entryResolved :: "deployment \<Rightarrow> bool" where
  "entryResolved v =
     (case replicaSets v of
        None \<Rightarrow> False
      | Some rs \<Rightarrow> (case deployment v of None \<Rightarrow> False | Some d \<Rightarrow> dep_Replicas d \<noteq> None))"

definition entryReady :: "deployment \<Rightarrow> bool" where
  "entryReady v =
     (case replicaSets v of
        None \<Rightarrow> False
      | Some rs \<Rightarrow> (case deployment v of None \<Rightarrow> False | Some d \<Rightarrow> spec_deploymentReady rs d))"

definition entryLabel :: "deployment \<Rightarrow> string" where
  "entryLabel v = (case deployment v of None \<Rightarrow> [] | Some d \<Rightarrow> dep_label d)"

text \<open>The selector of a component and the two executor calls of the disabled path.\<close>

definition componentLabelOf :: "'w env \<Rightarrow> ComponentName \<Rightarrow> string" where
  "componentLabelOf E componentName = istioComponentLabelStr (names E) @ ''='' @ componentName"

definition lookupCall :: "InstallOptions \<Rightarrow> string \<Rightarrow> event" where
  "lookupCall opts label =
     KubectlGetAll (Kubeconfig opts) (Context opts) [] ''yaml'' [''--all-namespaces'', ''--selector'', label]"

definition deleteCall :: "InstallOptions \<Rightarrow> string \<Rightarrow> string \<Rightarrow> event" where
  "deleteCall opts label manifest =
     KubectlDelete (DryRun opts) (Verbose opts) (Kubeconfig opts) (Context opts) [] manifest
       [''--selector'', label]"

text \<open>
  A leaf of the tree, and the two file-system calls that render a component with a
  manifest into the directory \<open>dir\<close>.
\<close>

definition leaf :: "ComponentName \<Rightarrow> ComponentName \<times> componentTree option" where
  "leaf c = (c, Some (ComponentTree []))"

definition renderCalls :: "ManifestMap \<Rightarrow> path \<Rightarrow> ComponentName \<Rightarrow> event list" where
  "renderCalls manifests dir c =
     (if manifestOf manifests c = [] then []
      else [MkdirAll (dir @ [c]), WriteFile (dir @ [c, c @ ''.yaml'']) (manifestOf manifests c)])"

text \<open>
  The names of the declaration are well chosen when the base component and its sixteen
  children are seventeen different names, as the constants of package \<^verbatim>\<open>name\<close> are.
\<close>

definition wellNamed :: "names_pkg \<Rightarrow> bool" where
  "wellNamed N = distinct (IstioBaseComponentName N # baseChildren N)"

text \<open>
  What holds of the gates in every state of a run that starts with empty gates: only
  goroutines of the run move; the base component has signalled a prefix of its children,
  as far as its phase says; the gate of a child holds one token from its signal until the
  child takes it, and none otherwise, and a child not yet signalled still waits; no
  component but the base has children to signal.
\<close>

definition gate_inv :: "names_pkg \<Rightarrow> ManifestMap \<Rightarrow> 'w orchestration \<Rightarrow> bool" where
  "gate_inv N manifests \<sigma> =
     ((\<forall>c. c \<notin> fst ` set manifests \<longrightarrow> phase_of \<sigma> c = Waiting)
      \<and> (\<exists>k \<le> length (baseChildren N). signalled \<sigma> = take k (baseChildren N) \<and>
            (case phase_of \<sigma> (IstioBaseComponentName N) of
               Waiting \<Rightarrow> k = 0
             | Applying \<Rightarrow> k = 0
             | Signalling rest \<Rightarrow> rest = drop k (baseChildren N)
             | Finished \<Rightarrow> k = length (baseChildren N)))
      \<and> (\<forall>c \<in> set (baseChildren N).
            if c \<in> set (signalled \<sigma>)
            then dependencyWaitCh \<sigma> c = (if phase_of \<sigma> c = Waiting then 1 else 0)
            else dependencyWaitCh \<sigma> c = 0 \<and> phase_of \<sigma> c = Waiting)
      \<and> (\<forall>c rest. c \<noteq> IstioBaseComponentName N \<longrightarrow> phase_of \<sigma> c = Signalling rest \<longrightarrow> rest = []))"

text \<open>
  The outcome map holds one entry for each goroutine that has come back from
  \<^verbatim>\<open>applyManifest\<close>, and no other.
\<close>

definition outputs_inv :: "ManifestMap \<Rightarrow> 'w orchestration \<Rightarrow> bool" where
  "outputs_inv manifests \<sigma> =
     (distinct (map fst (outputs \<sigma>))
      \<and> set (map fst (outputs \<sigma>)) =
          {c \<in> fst ` set manifests. phase_of \<sigma> c \<noteq> Waiting \<and> phase_of \<sigma> c \<noteq> Applying})"

text \<open>
  How far a goroutine is from its end, and how far the run is: each step of a goroutine
  brings the run nearer.
\<close>

definition rank :: "names_pkg \<Rightarrow> phase \<Rightarrow> nat" where
  "rank N ph =
     (case ph of
        Waiting \<Rightarrow> length (baseChildren N) + 3
      | Applying \<Rightarrow> length (baseChildren N) + 2
      | Signalling rest \<Rightarrow> length rest + 1
      | Finished \<Rightarrow> 0)"

definition distance :: "names_pkg \<Rightarrow> ManifestMap \<Rightarrow> 'w orchestration \<Rightarrow> nat" where
  "distance N manifests \<sigma> =
     (if crashed \<sigma> = None
      then 1 + sum_list (map (\<lambda>c. rank N (phase_of \<sigma> c)) (map fst manifests))
      else 0)"

text \<open>
  A manifest map is closed under parents when it holds the base component as soon as it
  holds one of its children.
\<close>

definition parentClosed :: "names_pkg \<Rightarrow> ManifestMap \<Rightarrow> bool" where
  "parentClosed N manifests =
     ((\<exists>c \<in> set (baseChildren N). c \<in> fst ` set manifests)
        \<longrightarrow> IstioBaseComponentName N \<in> fst ` set manifests)"

text \<open>Every entry of the outcome map is what \<open>applyManifest\<close> returned for its component.\<close>

definition recorded_inv :: "'w env \<Rightarrow> string \<Rightarrow> InstallOptions \<Rightarrow> ManifestMap \<Rightarrow> 'w orchestration \<Rightarrow> bool" where
  "recorded_inv E version opts manifests \<sigma> =
     (\<forall>c applyOut. (c, applyOut) \<in> set (outputs \<sigma>) \<longrightarrow>
        (\<exists>s appliedObjects s'.
           applyManifest E c (manifestOf manifests c) version opts s
             = Some (Inr (applyOut, appliedObjects), s')))"

subsection \<open>Example inputs\<close>

definition s0 :: "unit st" where
  "s0 = \<lparr>world = (), trace = []\<rparr>"






definition unreachableCRDs :: "unit crd_client" where
  "unreachableCRDs = \<lparr>crd_NewForConfig = None, crd_Get = (\<lambda>n w. (Inl ''connection refused'', w))\<rparr>"

definition nodePortWithoutIP :: Service where
  "nodePortWithoutIP = \<lparr>svc_Namespace = ''istio-system'', svc_Name = ''np'',
     svc_Type = ServiceTypeNodePort, svc_ClusterIP = [], svc_Ingress = None\<rparr>"

definition externalNameService :: Service where
  "externalNameService = \<lparr>svc_Namespace = ''istio-system'', svc_Name = ''ext'',
     svc_Type = ServiceTypeExternalName, svc_ClusterIP = [], svc_Ingress = None\<rparr>"

definition pendingLoadBalancer :: Service where
  "pendingLoadBalancer = \<lparr>svc_Namespace = ''istio-system'', svc_Name = ''gw'',
     svc_Type = ServiceTypeLoadBalancer, svc_ClusterIP = ''10.0.0.7'', svc_Ingress = None\<rparr>"

definition pilotDeployment :: "int32 option \<Rightarrow> Deployment" where
  "pilotDeployment n = \<lparr>dep_Namespace = ''istio-system'', dep_Name = ''pilot'', dep_Replicas = n\<rparr>"

definition pilotReplicaSet :: "int32 \<Rightarrow> ReplicaSet" where
  "pilotReplicaSet r = \<lparr>rs_Name = ''pilot-7d9f'', rs_ReadyReplicas = r\<rparr>"

definition pilotObject :: K8sObject where
  "pilotObject = \<lparr>Group = ''apps'', Kind = ''Deployment'', Name = ''pilot'',
     Namespace = ''istio-system'', Labels = []\<rparr>"

text \<open>
  A cluster that holds the pilot deployment with the given desired replica count and a
  current replica set with the given ready count, and nothing else.
\<close>

definition pilotCluster :: "int32 option \<Rightarrow> int32 \<Rightarrow> unit kube_client" where
  "pilotCluster n r =
     \<lparr>kube_NewForConfig = None,
      GetNamespace = (\<lambda>nm w. (Inl ''not found'', w)),
      GetPod = (\<lambda>ns nm w. (Inl ''not found'', w)),
      GetReplicationController = (\<lambda>ns nm w. (Inl ''not found'', w)),
      ListPods = (\<lambda>ns sel w. (([], None), w)),
      GetDeployment = (\<lambda>ns nm w. (Inr (pilotDeployment n), w)),
      GetAllReplicaSets = (\<lambda>d w. ((Some (pilotReplicaSet r), None), w)),
      GetDaemonSet = (\<lambda>ns nm w. (Inl ''not found'', w)),
      GetStatefulSet = (\<lambda>ns nm w. (Inl ''not found'', w)),
      GetReplicaSet = (\<lambda>ns nm w. (Inl ''not found'', w)),
      GetService = (\<lambda>ns nm w. (Inl ''not found'', w))\<rparr>"

definition waitOptions :: InstallOptions where
  "waitOptions = \<lparr>DryRun = False, Verbose = False, Wait = True, WaitTimeout = 60000000000,
     Kubeconfig = [], Context = []\<rparr>"

text \<open>
  An environment for the examples: component names, a parser that knows three manifests,
  serialisers that list the names of the objects, a stable sort, labels kept in a list,
  an executor whose three answers are given, and a cluster without resources.
\<close>

definition exampleNames :: names_pkg where
  "exampleNames =
     \<lparr>OperatorAPINamespace = ''install.istio.io'',
      IstioBaseComponentName = ''Base'', PilotComponentName = ''Pilot'',
      PolicyComponentName = ''Policy'', TelemetryComponentName = ''Telemetry'',
      GalleyComponentName = ''Galley'', CitadelComponentName = ''Citadel'',
      NodeAgentComponentName = ''NodeAgent'', CertManagerComponentName = ''CertManager'',
      SidecarInjectorComponentName = ''Injector'', IngressComponentName = ''IngressGateway'',
      EgressComponentName = ''EgressGateway'', CNIComponentName = ''Cni'',
      PrometheusOperatorComponentName = ''PrometheusOperator'',
      PrometheusComponentName = ''Prometheus'', GrafanaComponentName = ''Grafana'',
      KialiComponentName = ''Kiali'', TracingComponentName = ''Tracing''\<rparr>"

definition liveList :: K8sObject where
  "liveList = \<lparr>Group = [], Kind = ''List'', Name = [], Namespace = [], Labels = []\<rparr>"

definition exampleParse :: "string \<Rightarrow> error + K8sObjects" where
  "exampleParse m =
     (if m = [] then Inr []
      else if m = ''pilot-deployment'' then Inr [pilotObject]
      else if m = ''live-objects'' then Inr [liveList]
      else Inl ''cannot parse the manifest'')"

definition exampleObjectPkg :: object_pkg where
  "exampleObjectPkg =
     \<lparr>ParseK8sObjectsFromYAMLManifest = exampleParse,
      JSONManifest = (\<lambda>os. Inr (concat (map Name os))),
      YAMLManifest = (\<lambda>os. concat (map Name os)),
      Sort = (\<lambda>score os. sort_key score os),
      AddLabels = (\<lambda>o' ls. o'\<lparr>Labels := Labels o' @ ls\<rparr>)\<rparr>"

definition exampleUnmarshal :: "yaml list \<Rightarrow> string \<Rightarrow> error + (string \<times> yaml) list" where
  "exampleUnmarshal items m =
     (if m = ''not yaml'' then Inl ''yaml: did not find expected key''
      else Inr [(''kind'', YString ''List''), (''items'', YSeq items)])"

definition exampleKubectl :: "string \<times> string \<times> error option \<Rightarrow> string \<times> string \<times> error option
    \<Rightarrow> string \<times> string \<times> error option \<Rightarrow> unit kubectl_client" where
  "exampleKubectl got deleted applied' =
     \<lparr>kubectl_GetAll = (\<lambda>kubeconfig context' namespace output extraArgs w. (got, w)),
      kubectl_Delete = (\<lambda>dryRun verbose kubeconfig context' namespace manifest extraArgs w. (deleted, w)),
      kubectl_Apply = (\<lambda>dryRun verbose kubeconfig context' namespace manifest extraArgs w. (applied', w))\<rparr>"

definition emptyCluster :: "unit kube_client" where
  "emptyCluster =
     \<lparr>kube_NewForConfig = None,
      GetNamespace = (\<lambda>nm w. (Inl ''not found'', w)),
      GetPod = (\<lambda>ns nm w. (Inl ''not found'', w)),
      GetReplicationController = (\<lambda>ns nm w. (Inl ''not found'', w)),
      ListPods = (\<lambda>ns sel w. (([], None), w)),
      GetDeployment = (\<lambda>ns nm w. (Inl ''not found'', w)),
      GetAllReplicaSets = (\<lambda>d w. ((None, None), w)),
      GetDaemonSet = (\<lambda>ns nm w. (Inl ''not found'', w)),
      GetStatefulSet = (\<lambda>ns nm w. (Inl ''not found'', w)),
      GetReplicaSet = (\<lambda>ns nm w. (Inl ''not found'', w)),
      GetService = (\<lambda>ns nm w. (Inl ''not found'', w))\<rparr>"

definition exampleEnv :: "yaml list \<Rightarrow> unit kubectl_client \<Rightarrow> unit env" where
  "exampleEnv items kc =
     \<lparr>ticks = (\<lambda>w. 2), fmt_Duration = (\<lambda>d. ''1m0s''), names = exampleNames,
      objects_pkg = exampleObjectPkg, yaml_Unmarshal = exampleUnmarshal items, kubectl = kc,
      apiextensions = unreachableCRDs, kubernetes = emptyCluster\<rparr>"

definition applyOptions :: InstallOptions where
  "applyOptions = \<lparr>DryRun = False, Verbose = False, Wait = False, WaitTimeout = 60000000000,
     Kubeconfig = [], Context = []\<rparr>"

text \<open>The pilot deployment with the three labels of component Pilot at version 1.4.0.\<close>

definition labelledPilot :: K8sObject where
  "labelledPilot = pilotObject\<lparr>Labels :=
     [(''install.istio.io/component'', ''Pilot''), (''install.istio.io/managed'', ''Reconcile''),
      (''install.istio.io/version'', ''1.4.0'')]\<rparr>"

definition okFS :: "unit filesystem" where
  "okFS = \<lparr>os_MkdirAll = (\<lambda>p w. (None, w)), ioutil_WriteFile = (\<lambda>p content w. (None, w))\<rparr>"

definition exampleTree :: componentTree where
  "exampleTree = ComponentTree [(''Base'', Some (ComponentTree (map leaf (baseChildren exampleNames))))]"

definition twoManifests :: ManifestMap where
  "twoManifests = [(''Base'', ''base-manifest''), (''Pilot'', ''pilot-deployment'')]"

text \<open>
  An executor whose lookup fails, so that every apply of a disabled component ends with
  an error in its outcome; three manifest maps of disabled components; a resolver that
  finds a configuration, and one that does not.
\<close>

definition orchEnv :: "unit env" where
  "orchEnv = exampleEnv [] (exampleKubectl ([], ''refused'', Some ''exit status 1'') ([], [], None) ([], [], None))"

definition baseAndPilot :: ManifestMap where
  "baseAndPilot = [(''Base'', []), (''Pilot'', [])]"

definition pilotAlone :: ManifestMap where
  "pilotAlone = [(''Pilot'', [])]"

definition baseAlone :: ManifestMap where
  "baseAlone = [(''Base'', [])]"

definition failedLookup :: ComponentApplyOutput where
  "failedLookup = \<lparr>Stdout = newline, Stderr = newline @ ''refused'', Err = Some ''exit status 1'',
     Manifest = []\<rparr>"

definition okResolver :: "unit resolver" where
  "okResolver =
     \<lparr>os_Stat = (\<lambda>p w. (Inl ''no such file'', w)),
      clientcmd_ClientConfig = (\<lambda>p c w. (Inr \<lparr>cfg_Loaded = ''in-cluster'', cfg_APIPath = [],
         cfg_GroupVersion = [], cfg_NegotiatedSerializer = []\<rparr>, w))\<rparr>"

definition noResolver :: "unit resolver" where
  "noResolver =
     \<lparr>os_Stat = (\<lambda>p w. (Inl ''no such file'', w)),
      clientcmd_ClientConfig = (\<lambda>p c w. (Inl ''invalid configuration: no configuration has been provided'', w))\<rparr>"

text \<open>Schedules for the examples, and the states they lead to.\<close>

definition baseToEnd :: "ComponentName list" where
  "baseToEnd = replicate 19 ''Base''"

definition bothToEnd :: "ComponentName list" where
  "bothToEnd = replicate 19 ''Base'' @ replicate 3 ''Pilot''"

definition afterSchedule :: "ManifestMap \<Rightarrow> ComponentName list \<Rightarrow> unit orchestration" where
  "afterSchedule manifests sched =
     exec orchEnv ''1.4.0'' applyOptions manifests sched (start noTokens s0)"

text \<open>
  Two calls in one process: the state in which a first call with the manifest of the base
  component alone ends, and the run of a second call, with the manifests of the base
  component and of Pilot, that starts with the gates and the world the first call has
  left.
\<close>

definition firstCall :: "unit orchestration" where
  "firstCall = afterSchedule baseAlone baseToEnd"

definition secondCall :: "ComponentName list \<Rightarrow> unit orchestration" where
  "secondCall sched =
     exec orchEnv ''1.4.0'' applyOptions baseAndPilot sched
       (start (dependencyWaitCh firstCall) (outside firstCall))"

definition pilotFirst :: "ComponentName list" where
  "pilotFirst = [''Pilot'', ''Pilot'']"

definition pilotThenBase :: "ComponentName list" where
  "pilotThenBase = [''Pilot'', ''Pilot'', ''Pilot'', ''Base'', ''Base'', ''Base'', ''Base'']"

section \<open>Properties\<close>

subsection \<open>The object orderer\<close>

lemma defaultObjectOrder_recognized:
  "defaultObjectOrder (obj ''apiextensions.k8s.io'' ''CustomResourceDefinition'') = - 1000"
  "defaultObjectOrder (obj [] ''ServiceAccount'') = 1"
  "defaultObjectOrder (obj ''rbac.authorization.k8s.io'' ''ClusterRole'') = 1"
  "defaultObjectOrder (obj ''rbac.authorization.k8s.io'' ''ClusterRoleBinding'') = 2"
  "defaultObjectOrder (obj [] ''ConfigMap'') = 100"
  "defaultObjectOrder (obj ''autoscaling'' ''HorizontalPodAutoscaler'') = 1001"
  "defaultObjectOrder (obj [] ''Service'') = 10000"
  by (simp_all add: defaultObjectOrder_def obj_def)

lemma defaultObjectOrder_Deployment:
  "Kind o' = ''Deployment'' \<Longrightarrow> defaultObjectOrder o' = 1000"
  by (simp add: defaultObjectOrder_def Let_def)

text \<open>
  C1. The orderer is claimed to give a Secret the priority 100 of a ConfigMap. The case
  label of the switch is \<^verbatim>\<open>"/Secrets"\<close>, which no object of kind Secret produces, so a
  Secret of the core API group falls through to the default priority 1000.
\<close>

theorem defaultObjectOrder_Secret:
  "defaultObjectOrder (obj [] ''Secret'') = 1000 \<and> defaultObjectOrder (obj [] ''Secret'') \<noteq> 100"
  by (simp add: defaultObjectOrder_def obj_def)

subsection \<open>Services\<close>

lemma servicesReady_loop_eq:
  "servicesReady_loop svc acc = acc @ map svc_label (filter serviceNotReady svc)"
  by (induction svc arbitrary: acc) (auto simp: serviceNotReady_def ClusterIPNone_def)

lemma servicesReady_eq:
  "servicesReady svc =
     (list_all (\<lambda>s. \<not> serviceNotReady s) svc, map svc_label (filter serviceNotReady svc))"
  by (auto simp: servicesReady_def servicesReady_loop_eq Let_def list_all_iff filter_empty_conv)

text \<open>
  C5, as amended. A service of type ExternalName is always ready. Any other service is
  held back exactly when its cluster IP is empty, whatever its type, or when it is of type
  LoadBalancer and its ingress list is nil. \<open>servicesReady\<close> returns the labels of the
  services held back, in their order, and reports readiness when there is none.
\<close>

theorem servicesReady_by_cluster_ip:
  "snd (servicesReady svc) =
     map svc_label (filter (\<lambda>s. svc_Type s \<noteq> ServiceTypeExternalName \<and>
        (svc_ClusterIP s = [] \<or> (svc_Type s = ServiceTypeLoadBalancer \<and> svc_Ingress s = None))) svc)
   \<and> fst (servicesReady svc) =
     list_all (\<lambda>s. svc_Type s = ServiceTypeExternalName \<or>
        (svc_ClusterIP s \<noteq> [] \<and> \<not> (svc_Type s = ServiceTypeLoadBalancer \<and> svc_Ingress s = None))) svc"
proof -
  have a: "serviceNotReady = (\<lambda>s. svc_Type s \<noteq> ServiceTypeExternalName \<and>
        (svc_ClusterIP s = [] \<or> (svc_Type s = ServiceTypeLoadBalancer \<and> svc_Ingress s = None)))"
    by (rule ext) (simp add: serviceNotReady_def)
  have b: "(\<lambda>s. \<not> serviceNotReady s) = (\<lambda>s. svc_Type s = ServiceTypeExternalName \<or>
        (svc_ClusterIP s \<noteq> [] \<and> \<not> (svc_Type s = ServiceTypeLoadBalancer \<and> svc_Ingress s = None)))"
    by (rule ext) (auto simp add: serviceNotReady_def)
  show ?thesis
    unfolding servicesReady_eq fst_conv snd_conv a [symmetric] b [symmetric] by simp
qed

theorem servicesReady_by_cluster_ip_witness:
  "servicesReady [externalNameService, pendingLoadBalancer, nodePortWithoutIP] =
     (False, [''Service/istio-system/gw'', ''Service/istio-system/np''])"
proof -
  have "servicesReady [externalNameService, pendingLoadBalancer, nodePortWithoutIP] =
     (fst (servicesReady [externalNameService, pendingLoadBalancer, nodePortWithoutIP]),
      snd (servicesReady [externalNameService, pendingLoadBalancer, nodePortWithoutIP]))"
    by simp
  also have "\<dots> = (False, [''Service/istio-system/gw'', ''Service/istio-system/np''])"
    using servicesReady_by_cluster_ip [of "[externalNameService, pendingLoadBalancer, nodePortWithoutIP]"]
    by (simp add: externalNameService_def pendingLoadBalancer_def nodePortWithoutIP_def svc_label_def
        ServiceTypeExternalName_def ServiceTypeLoadBalancer_def ServiceTypeNodePort_def)
  finally show ?thesis .
qed

text \<open>
  C5, as stated, fails: a service of type NodePort without a cluster IP is neither a
  ClusterIP service without a cluster IP nor a LoadBalancer service without an ingress
  endpoint, so the claim calls it ready, and \<open>servicesReady\<close> holds it back.
\<close>

theorem servicesReady_node_port_counterexample:
  "spec_serviceReady nodePortWithoutIP \<and>
   servicesReady [nodePortWithoutIP] = (False, [''Service/istio-system/np''])"
  by (simp add: spec_serviceReady_def nodePortWithoutIP_def servicesReady_def svc_label_def
      ServiceTypeNodePort_def ServiceTypeClusterIP_def ServiceTypeLoadBalancer_def
      ServiceTypeExternalName_def ClusterIPNone_def)

subsection \<open>The CRD establishment waiter\<close>

lemma no_failed_fetch_simps [simp]:
  "no_failed_fetch []"
  "no_failed_fetch (Log l m # evs) = no_failed_fetch evs"
  "no_failed_fetch (GetCRD n (Inr c) # evs) = no_failed_fetch evs"
  "no_failed_fetch (xs @ ys) = (no_failed_fetch xs \<and> no_failed_fetch ys)"
  by (auto simp: no_failed_fetch_def)







lemma pollTimed_error:
  "condition s = (Inr (ok, Some err), s') \<Longrightarrow> pollTimed k condition s = (Inr (Some err), s')"
  by (cases k; cases ok; simp)

lemma pollTimed_true:
  "condition s = (Inr (True, None), s') \<Longrightarrow> pollTimed k condition s = (Inr None, s')"
  by (cases k; simp)

lemma pollTimed_panic:
  "condition s = (Inl p, s') \<Longrightarrow> pollTimed k condition s = (Inl p, s')"
  by (cases k; simp)

lemma pollTimed_false_0:
  "condition s = (Inr (False, None), s') \<Longrightarrow> pollTimed 0 condition s = (Inr (Some ErrWaitTimeout), s')"
  by simp

lemma pollTimed_false_Suc:
  "condition s = (Inr (False, None), s') \<Longrightarrow> pollTimed (Suc k) condition s = pollTimed k condition s'"
  by simp

declare pollTimed.simps [simp del]

text \<open>The wait with a timer always returns; the first tick decides both waits alike.\<close>

lemma Poll_timed:
  "timeout \<noteq> 0 \<Longrightarrow> Poll k timeout condition s = Some (pollTimed k condition s)"
  by (simp add: Poll_def)

lemma Poll_cRDPollTimeout:
  "Poll k cRDPollTimeout condition s = Some (pollTimed k condition s)"
  by (simp add: Poll_def cRDPollTimeout_def)

lemma pollForever_error:
  "condition s = (Inr (ok, Some err), s') \<Longrightarrow> pollForever condition s = Some (Inr (Some err), s')"
  by (subst pollForever.simps) simp

lemma pollForever_true:
  "condition s = (Inr (True, None), s') \<Longrightarrow> pollForever condition s = Some (Inr None, s')"
  by (subst pollForever.simps) simp

lemma pollForever_panic:
  "condition s = (Inl p, s') \<Longrightarrow> pollForever condition s = Some (Inl p, s')"
  by (subst pollForever.simps) simp

lemma pollForever_false:
  "condition s = (Inr (False, None), s') \<Longrightarrow> pollForever condition s = pollForever condition s'"
  by (subst pollForever.simps) simp



lemma Poll_panic:
  "condition s = (Inl p, s') \<Longrightarrow> Poll k timeout condition s = Some (Inl p, s')"
  by (simp add: Poll_def pollTimed_panic pollForever_panic)

text \<open>
  The wait without a timer does not return while the condition stays false, and it ends
  as the wait with a timer does whenever that one ends before its timeout.
\<close>

lemma pollForever_never:
  assumes "\<And>s. \<exists>s'. condition s = (Inr (False, None), s')"
  shows "pollForever condition s = None"
proof (rule ccontr)
  assume "pollForever condition s \<noteq> None"
  then obtain y where y: "pollForever condition s = Some y" by auto
  have "condition \<noteq> condition"
  proof (rule pollForever.raw_induct [where P = "\<lambda>c s y. c \<noteq> condition", OF _ y])
    fix pf :: "('a \<Rightarrow> (panic + bool \<times> error option) \<times> 'a) \<Rightarrow> 'a \<Rightarrow> ((panic + error option) \<times> 'a) option"
      and c s y
    assume IH: "\<And>c s y. pf c s = Some y \<Longrightarrow> c \<noteq> condition"
      and eq: "(case c s of
                  (Inl p, s') \<Rightarrow> Some (Inl p, s')
                | (Inr (ok, None), s') \<Rightarrow> if ok then Some (Inr None, s') else pf c s'
                | (Inr (ok, Some err), s') \<Rightarrow> Some (Inr (Some err), s')) = Some y"
    show "c \<noteq> condition"
    proof
      assume cc: "c = condition"
      with assms obtain s' where "c s = (Inr (False, None), s')" by blast
      with eq have "pf c s' = Some y" by simp
      from IH [OF this] cc show False by simp
    qed
  qed
  then show False by simp
qed

lemma pollTimed_pollForever:
  "pollTimed k condition s = (r, s') \<Longrightarrow> r \<noteq> Inr (Some ErrWaitTimeout)
   \<Longrightarrow> pollForever condition s = Some (r, s')"
proof (induction k arbitrary: s)
  case 0
  obtain c s1 where c: "condition s = (c, s1)" by (cases "condition s")
  show ?case
  proof (cases c)
    case (Inl p)
    with c 0 show ?thesis by (simp add: pollTimed_panic pollForever_panic)
  next
    case (Inr be)
    obtain b eo where be: "be = (b, eo)" by (cases be)
    show ?thesis
    proof (cases eo)
      case (Some e)
      with c Inr be 0 show ?thesis by (simp add: pollTimed_error pollForever_error)
    next
      case None
      with c Inr be 0 show ?thesis
        by (cases b) (simp_all add: pollTimed_true pollForever_true pollTimed_false_0)
    qed
  qed
next
  case (Suc k)
  obtain c s1 where c: "condition s = (c, s1)" by (cases "condition s")
  show ?case
  proof (cases c)
    case (Inl p)
    with c Suc.prems show ?thesis by (simp add: pollTimed_panic pollForever_panic)
  next
    case (Inr be)
    obtain b eo where be: "be = (b, eo)" by (cases be)
    show ?thesis
    proof (cases eo)
      case (Some e)
      with c Inr be Suc.prems show ?thesis by (simp add: pollTimed_error pollForever_error)
    next
      case None
      show ?thesis
      proof (cases b)
        case True
        with c Inr be None Suc.prems show ?thesis by (simp add: pollTimed_true pollForever_true)
      next
        case False
        with c Inr be None have cs: "condition s = (Inr (False, None), s1)" by simp
        with Suc.prems have "pollTimed k condition s1 = (r, s')" by (simp add: pollTimed_false_Suc)
        from Suc.IH [OF this Suc.prems(2)] cs show ?thesis by (simp add: pollForever_false)
      qed
    qed
  qed
qed


lemma waitForCRDs_returns:
  "\<exists>y. waitForCRDs tk cs objects dryRun s = Some y"
  by (simp add: waitForCRDs_def Let_def Poll_cRDPollTimeout split: option.splits prod.splits sum.splits)


lemma NamesAccepted_neq_Established [simp]:
  "NamesAccepted \<noteq> Established" "Established \<noteq> NamesAccepted"
  by (simp_all add: Established_def NamesAccepted_def)








subsection \<open>Deployments in the resource waiter\<close>

lemma deploymentNotReady_resolved:
  "entryResolved v \<Longrightarrow> deploymentNotReady v = Inr (\<not> entryReady v)"
  by (auto simp: entryResolved_def deploymentNotReady_def entryReady_def spec_deploymentReady_def
      split: option.splits)

lemma deploymentNotReady_unresolved:
  "\<not> entryResolved v \<Longrightarrow> deploymentNotReady v = Inl NilPointerDereference"
  by (auto simp: entryResolved_def deploymentNotReady_def split: option.splits)

lemma deploymentsReady_loop_resolved:
  "list_all entryResolved ds \<Longrightarrow>
   deploymentsReady_loop ds acc = Inr (acc @ map entryLabel (filter (\<lambda>v. \<not> entryReady v) ds))"
proof (induction ds arbitrary: acc)
  case Nil
  show ?case by simp
next
  case (Cons v ds)
  then have r: "entryResolved v" and rs: "list_all entryResolved ds" by simp_all
  from r obtain d where d: "deployment v = Some d"
    by (auto simp: entryResolved_def split: option.splits)
  show ?case
    using deploymentNotReady_resolved [OF r] Cons.IH [OF rs] d
    by (simp add: entryLabel_def)
qed

lemma deploymentsReady_loop_unresolved:
  "\<not> list_all entryResolved ds \<Longrightarrow> deploymentsReady_loop ds acc = Inl NilPointerDereference"
proof (induction ds arbitrary: acc)
  case Nil
  then show ?case by simp
next
  case (Cons v ds)
  show ?case
  proof (cases "entryResolved v")
    case False
    then show ?thesis by (simp add: deploymentNotReady_unresolved)
  next
    case True
    with Cons.prems have "\<not> list_all entryResolved ds" by simp
    from Cons.IH [OF this] have ih: "\<And>acc. deploymentsReady_loop ds acc = Inl NilPointerDereference" .
    from True obtain d where d: "deployment v = Some d"
      by (auto simp: entryResolved_def split: option.splits)
    show ?thesis using deploymentNotReady_resolved [OF True] ih d
      by (cases "entryReady v") simp_all
  qed
qed

lemma deploymentsReady_resolved:
  "list_all entryResolved ds \<Longrightarrow>
   deploymentsReady ds = Inr (list_all entryReady ds, map entryLabel (filter (\<lambda>v. \<not> entryReady v) ds))"
  by (auto simp: deploymentsReady_def deploymentsReady_loop_resolved list_all_iff filter_empty_conv)

lemma deploymentsReady_unresolved:
  "\<not> list_all entryResolved ds \<Longrightarrow> deploymentsReady ds = Inl NilPointerDereference"
  by (simp add: deploymentsReady_def deploymentsReady_loop_unresolved)

lemma deploymentsReady_panic_iff:
  "(deploymentsReady ds = Inl NilPointerDereference) = (\<not> list_all entryResolved ds)"
  using deploymentsReady_resolved [of ds] deploymentsReady_unresolved [of ds] by auto

lemma workloadPods_deployments:
  "workloadPods cs r res = (Proceed r1, w1) \<Longrightarrow> deployments r1 = deployments r"
  by (auto simp: workloadPods_def split: prod.splits sum.splits option.splits)

lemma resolveObject_paired:
  "resolveObject cs o' r w = (Proceed r1, w1) \<Longrightarrow> list_all entryPaired (deployments r)
   \<Longrightarrow> list_all entryPaired (deployments r1)"
  by (auto simp: resolveObject_def Let_def entryPaired_def dest: workloadPods_deployments
      split: if_splits prod.splits sum.splits option.splits)

lemma resolveObjects_paired:
  "resolveObjects cs objects r w = (Proceed r1, w1) \<Longrightarrow> list_all entryPaired (deployments r)
   \<Longrightarrow> list_all entryPaired (deployments r1)"
proof (induction objects arbitrary: r w)
  case Nil
  then show ?case by simp
next
  case (Cons o' objects)
  obtain f w2 where f: "resolveObject cs o' r w = (f, w2)" by (cases "resolveObject cs o' r w")
  show ?case
  proof (cases f)
    case (Proceed r2)
    with Cons.prems f have "resolveObjects cs objects r2 w2 = (Proceed r1, w1)" by simp
    moreover have "resolveObject cs o' r w = (Proceed r2, w2)" using f Proceed by simp
    then have "list_all entryPaired (deployments r2)"
      using Cons.prems(2) by (rule resolveObject_paired)
    ultimately show ?thesis by (rule Cons.IH)
  next
    case (ReturnFalse e)
    with Cons.prems f show ?thesis by simp
  next
    case (Panicked p)
    with Cons.prems f show ?thesis by simp
  qed
qed

lemma resourcesPoll_proceed:
  assumes "resolveObjects cs objects no_resources (world s) = (Proceed r, w1)"
  shows "resourcesPoll cs objects (notReady, s) =
     (case deploymentsReady (deployments r) of
        Inl p \<Rightarrow> (Inl p, (notReady, s\<lparr>world := w1\<rparr>))
      | Inr (dr, dnr) \<Rightarrow>
          (Inr (dr \<and> fst (namespacesReady (namespaces r)) \<and> fst (podsReady (pods r))
                \<and> fst (servicesReady (services r)), None),
           (snd (namespacesReady (namespaces r)) @ dnr @ snd (podsReady (pods r))
              @ snd (servicesReady (services r)), s\<lparr>world := w1\<rparr>)))"
  using assms by (simp add: resourcesPoll_def split: sum.splits prod.splits)



lemma poll_panic_iff:
  assumes "resolveObjects cs objects no_resources (world s) = (Proceed r, w1)"
  shows "(fst (resourcesPoll cs objects (notReady, s)) = Inl NilPointerDereference)
     = (\<exists>v \<in> set (deployments r). \<exists>d. deployment v = Some d \<and> dep_Replicas d = None)"
proof -
  have paired: "list_all entryPaired (deployments r)"
    using resolveObjects_paired [OF assms] by (simp add: no_resources_def)
  have el: "(\<not> entryResolved v) = (\<exists>d. deployment v = Some d \<and> dep_Replicas d = None)"
    if "entryPaired v" for v
    using that by (auto simp: entryPaired_def entryResolved_def split: option.splits)
  have "(\<not> list_all entryResolved (deployments r))
     = (\<exists>v \<in> set (deployments r). \<not> entryResolved v)"
    by (simp add: list_all_iff)
  also have "\<dots> = (\<exists>v \<in> set (deployments r). \<exists>d. deployment v = Some d \<and> dep_Replicas d = None)"
  proof -
    have "\<forall>v \<in> set (deployments r). entryPaired v" using paired by (simp add: list_all_iff)
    then show ?thesis using el by auto
  qed
  finally have "(\<not> list_all entryResolved (deployments r))
     = (\<exists>v \<in> set (deployments r). \<exists>d. deployment v = Some d \<and> dep_Replicas d = None)" .
  moreover have "(fst (resourcesPoll cs objects (notReady, s)) = Inl NilPointerDereference)
     = (deploymentsReady (deployments r) = Inl NilPointerDereference)"
    unfolding resourcesPoll_proceed [OF assms] by (auto split: sum.splits prod.splits)
  ultimately show ?thesis by (simp add: deploymentsReady_panic_iff)
qed



text \<open>
  C10. The comparison dereferences the desired replica count without a check. On the
  entries the waiter builds, which hold both of their pointers, \<open>deploymentsReady\<close> panics
  exactly when some deployment has no desired replica count, and returns a result when
  every deployment has one; a tick of the waiter whose objects resolve panics exactly
  when one of the deployments it examined has no desired replica count; and a wait whose
  first tick panics ends in that panic.
\<close>

theorem deployment_check_total_iff_replicas_set:
  "(list_all entryPaired ds
    \<longrightarrow> (deploymentsReady ds = Inl NilPointerDereference)
          = (\<exists>v \<in> set ds. \<exists>d. deployment v = Some d \<and> dep_Replicas d = None))
   \<and> (list_all entryResolved ds \<longrightarrow> (\<exists>res. deploymentsReady ds = Inr res))
   \<and> (resolveObjects cs objects no_resources (world s) = (Proceed r, w1)
    \<longrightarrow> (fst (resourcesPoll cs objects (notReady, s)) = Inl NilPointerDereference)
          = (\<exists>v \<in> set (deployments r). \<exists>d. deployment v = Some d \<and> dep_Replicas d = None))
   \<and> (\<not> DryRun opts \<and> kube_NewForConfig cs = None
        \<and> resourcesPoll cs objects ([], s) = (Inl p, (notReady', s1))
    \<longrightarrow> waitForResources tk fmt cs objects opts s = Some (Inl p, s1))"
proof (intro conjI impI)
  assume paired: "list_all entryPaired ds"
  have el: "(\<not> entryResolved v) = (\<exists>d. deployment v = Some d \<and> dep_Replicas d = None)"
    if "entryPaired v" for v
    using that by (auto simp: entryPaired_def entryResolved_def split: option.splits)
  have "(\<not> list_all entryResolved ds) = (\<exists>v \<in> set ds. \<not> entryResolved v)"
    by (simp add: list_all_iff)
  also have "\<dots> = (\<exists>v \<in> set ds. \<exists>d. deployment v = Some d \<and> dep_Replicas d = None)"
  proof -
    have "\<forall>v \<in> set ds. entryPaired v" using paired by (simp add: list_all_iff)
    then show ?thesis using el by auto
  qed
  finally show "(deploymentsReady ds = Inl NilPointerDereference)
          = (\<exists>v \<in> set ds. \<exists>d. deployment v = Some d \<and> dep_Replicas d = None)"
    by (simp add: deploymentsReady_panic_iff)
next
  assume "list_all entryResolved ds"
  then show "\<exists>res. deploymentsReady ds = Inr res"
    by (simp add: deploymentsReady_resolved)
next
  assume "resolveObjects cs objects no_resources (world s) = (Proceed r, w1)"
  then show "(fst (resourcesPoll cs objects (notReady, s)) = Inl NilPointerDereference)
          = (\<exists>v \<in> set (deployments r). \<exists>d. deployment v = Some d \<and> dep_Replicas d = None)"
    by (rule poll_panic_iff)
next
  assume a: "\<not> DryRun opts \<and> kube_NewForConfig cs = None
        \<and> resourcesPoll cs objects ([], s) = (Inl p, (notReady', s1))"
  then have "Poll (tk (world s)) (WaitTimeout opts) (resourcesPoll cs objects) ([], s)
      = Some (Inl p, (notReady', s1))"
    by (intro Poll_panic) simp
  with a show "waitForResources tk fmt cs objects opts s = Some (Inl p, s1)"
    by (simp add: waitForResources_def)
qed

theorem deployment_check_total_iff_replicas_set_witness:
  "deploymentsReady [\<lparr>replicaSets = Some (pilotReplicaSet 2), deployment = Some (pilotDeployment None)\<rparr>]
     = Inl NilPointerDereference
   \<and> (\<exists>res. deploymentsReady
        [\<lparr>replicaSets = Some (pilotReplicaSet 2), deployment = Some (pilotDeployment (Some 3))\<rparr>] = Inr res)
   \<and> fst (resourcesPoll (pilotCluster None 2) [pilotObject] ([], s0)) = Inl NilPointerDereference
   \<and> waitForResources (\<lambda>w. 5) (\<lambda>d. ''1m0s'') (pilotCluster None 2) [pilotObject] waitOptions s0
       = Some (Inl NilPointerDereference, s0)"
proof -
  let ?v = "\<lparr>replicaSets = Some (pilotReplicaSet 2), deployment = Some (pilotDeployment None)\<rparr>"
  let ?u = "\<lparr>replicaSets = Some (pilotReplicaSet 2), deployment = Some (pilotDeployment (Some 3))\<rparr>"
  have h1: "list_all entryPaired [?v]" by (simp add: entryPaired_def)
  have h2: "list_all entryResolved [?u]" by (simp add: entryResolved_def pilotDeployment_def)
  have h3: "resolveObjects (pilotCluster None 2) [pilotObject] no_resources (world s0)
      = (Proceed (no_resources\<lparr>deployments := [?v]\<rparr>), ())"
    by (simp add: resolveObject_def pilotObject_def pilotCluster_def s0_def no_resources_def)
  have h4: "\<not> DryRun waitOptions \<and> kube_NewForConfig (pilotCluster None 2) = None
      \<and> resourcesPoll (pilotCluster None 2) [pilotObject] ([], s0) = (Inl NilPointerDereference, ([], s0))"
    by (simp add: waitOptions_def pilotCluster_def resourcesPoll_def resolveObject_def pilotObject_def
        s0_def no_resources_def deploymentsReady_def deploymentNotReady_def pilotDeployment_def)
  have a: "\<exists>v \<in> set [?v]. \<exists>d. deployment v = Some d \<and> dep_Replicas d = None"
    by (simp add: pilotDeployment_def)
  have b: "\<exists>v \<in> set (deployments (no_resources\<lparr>deployments := [?v]\<rparr>)).
      \<exists>d. deployment v = Some d \<and> dep_Replicas d = None"
    by (simp add: pilotDeployment_def)
  note t1 = deployment_check_total_iff_replicas_set [of "[?v]" "pilotCluster None 2" "[pilotObject]" s0
        "no_resources\<lparr>deployments := [?v]\<rparr>" "()" "[]" waitOptions NilPointerDereference "[]" s0
        "\<lambda>w. 5" "\<lambda>d. ''1m0s''"]
  note t2 = deployment_check_total_iff_replicas_set [of "[?u]" "pilotCluster None 2" "[pilotObject]" s0
        "no_resources\<lparr>deployments := [?v]\<rparr>" "()" "[]" waitOptions NilPointerDereference "[]" s0
        "\<lambda>w. 5" "\<lambda>d. ''1m0s''"]
  from t1 h1 a have c1: "deploymentsReady [?v] = Inl NilPointerDereference" by blast
  from t2 h2 have c2: "\<exists>res. deploymentsReady [?u] = Inr res" by blast
  from t1 h3 b have c3: "fst (resourcesPoll (pilotCluster None 2) [pilotObject] ([], s0)) = Inl NilPointerDereference"
    by blast
  from t1 h4 have c4: "waitForResources (\<lambda>w. 5) (\<lambda>d. ''1m0s'') (pilotCluster None 2) [pilotObject] waitOptions s0
       = Some (Inl NilPointerDereference, s0)" by blast
  from c1 c2 c3 c4 show ?thesis by blast
qed

subsection \<open>Applying one component\<close>

lemma applyManifest_disabled:
  "ParseK8sObjectsFromYAMLManifest (objects_pkg E) manifestStr = Inr [] \<Longrightarrow>
   applyManifest E componentName manifestStr version opts s =
     (case pruneDisabled E (componentLabelOf E componentName) opts s of (r, s1) \<Rightarrow> Some (Inr r, s1))"
  by (simp add: applyManifest_def componentLabelOf_def)

lemma call_GetAll_lookup:
  "kubectl_GetAll (kubectl E) (Kubeconfig opts) (Context opts) [] ''yaml''
      [''--all-namespaces'', ''--selector'', label] (world s) = (got, w1) \<Longrightarrow>
   call_GetAll (kubectl E) (Kubeconfig opts) (Context opts) [] ''yaml''
      [''--all-namespaces'', ''--selector'', label] s
     = (got, s\<lparr>world := w1, trace := trace s @ [lookupCall opts label]\<rparr>)"
  by (simp add: call_GetAll_def lookupCall_def)

text \<open>
  C6. Let the manifest of a component parse to no objects, and let the lookup be the
  \<open>kubectl get\<close> of all objects under the label of the component. If the lookup succeeds
  with an empty item list, the apply returns an outcome without error, with empty stdout
  and stderr, no applied objects, and no call but the lookup. If it succeeds with a
  non-empty item list that parses into objects, the apply makes exactly one delete call
  after the lookup, with the selector of the component, and the error of the delete, if
  any, is the error of the outcome. An error of the lookup, of the reading of its items
  or of the parsing of its output is the error of the outcome, and no delete is called.
  In each case the apply returns an outcome.
\<close>

theorem disabled_component_pruned:
  "(ParseK8sObjectsFromYAMLManifest (objects_pkg E) manifestStr = Inr []
     \<and> kubectl_GetAll (kubectl E) (Kubeconfig opts) (Context opts) [] ''yaml''
          [''--all-namespaces'', ''--selector'', componentLabelOf E componentName] (world s)
        = ((stdoutGet, stderrGet, gerr), w1)
    \<longrightarrow>
     (gerr = None \<and> GetKubectlGetItems (yaml_Unmarshal E) stdoutGet = Inr []
       \<longrightarrow> applyManifest E componentName manifestStr version opts s =
            Some (Inr (\<lparr>Stdout = [], Stderr = [], Err = None, Manifest = YAMLManifest (objects_pkg E) []\<rparr>, []),
             s\<lparr>world := w1, trace := trace s @ [lookupCall opts (componentLabelOf E componentName)]\<rparr>))
   \<and> (gerr = None \<and> GetKubectlGetItems (yaml_Unmarshal E) stdoutGet = Inr items \<and> items \<noteq> []
        \<and> ParseK8sObjectsFromYAMLManifest (objects_pkg E) stdoutGet = Inr delObjects
        \<and> kubectl_Delete (kubectl E) (DryRun opts) (Verbose opts) (Kubeconfig opts) (Context opts) []
             stdoutGet [''--selector'', componentLabelOf E componentName] w1
           = ((stdoutDel, stderrDel, derr), w2)
       \<longrightarrow> applyManifest E componentName manifestStr version opts s =
            Some (Inr (\<lparr>Stdout = newline @ stdoutDel, Stderr = newline @ stderrDel, Err = derr,
                   Manifest = YAMLManifest (objects_pkg E) (if derr = None then delObjects else [])\<rparr>,
                  if derr = None then delObjects else []),
             s\<lparr>world := w2, trace := trace s @
                [lookupCall opts (componentLabelOf E componentName),
                 deleteCall opts (componentLabelOf E componentName) stdoutGet]\<rparr>))
   \<and> (gerr = Some e
       \<longrightarrow> applyManifest E componentName manifestStr version opts s =
            Some (Inr (\<lparr>Stdout = newline @ stdoutGet, Stderr = newline @ stderrGet, Err = Some e,
                   Manifest = YAMLManifest (objects_pkg E) []\<rparr>, []),
             s\<lparr>world := w1, trace := trace s @ [lookupCall opts (componentLabelOf E componentName)]\<rparr>))
   \<and> (gerr = None \<and> (GetKubectlGetItems (yaml_Unmarshal E) stdoutGet = Inl e
          \<or> (GetKubectlGetItems (yaml_Unmarshal E) stdoutGet = Inr items \<and> items \<noteq> []
              \<and> ParseK8sObjectsFromYAMLManifest (objects_pkg E) stdoutGet = Inl e))
       \<longrightarrow> applyManifest E componentName manifestStr version opts s =
            Some (Inr (\<lparr>Stdout = [], Stderr = [], Err = Some e, Manifest = YAMLManifest (objects_pkg E) []\<rparr>, []),
             s\<lparr>world := w1, trace := trace s @ [lookupCall opts (componentLabelOf E componentName)]\<rparr>)))"
proof (intro impI)
  let ?label = "componentLabelOf E componentName"
  let ?s1 = "s\<lparr>world := w1, trace := trace s @ [lookupCall opts ?label]\<rparr>"
  assume a: "ParseK8sObjectsFromYAMLManifest (objects_pkg E) manifestStr = Inr []
     \<and> kubectl_GetAll (kubectl E) (Kubeconfig opts) (Context opts) [] ''yaml''
          [''--all-namespaces'', ''--selector'', ?label] (world s)
        = ((stdoutGet, stderrGet, gerr), w1)"
  then have dis: "applyManifest E componentName manifestStr version opts s =
     (case pruneDisabled E ?label opts s of (r, s1) \<Rightarrow> Some (Inr r, s1))"
    by (simp add: applyManifest_disabled)
  have get: "call_GetAll (kubectl E) (Kubeconfig opts) (Context opts) [] ''yaml''
      [''--all-namespaces'', ''--selector'', ?label] s = ((stdoutGet, stderrGet, gerr), ?s1)"
    using a by (simp add: call_GetAll_lookup)
  have p1: "pruneDisabled E ?label opts s =
      ((\<lparr>Stdout = [], Stderr = [], Err = None, Manifest = YAMLManifest (objects_pkg E) []\<rparr>, []), ?s1)"
    if "gerr = None \<and> GetKubectlGetItems (yaml_Unmarshal E) stdoutGet = Inr []"
    using that get by (simp add: pruneDisabled_def buildComponentApplyOutput_def)
  have p2: "pruneDisabled E ?label opts s =
      ((\<lparr>Stdout = newline @ stdoutDel, Stderr = newline @ stderrDel, Err = derr,
          Manifest = YAMLManifest (objects_pkg E) (if derr = None then delObjects else [])\<rparr>,
        if derr = None then delObjects else []),
       s\<lparr>world := w2, trace := trace s @ [lookupCall opts ?label, deleteCall opts ?label stdoutGet]\<rparr>)"
    if "gerr = None \<and> GetKubectlGetItems (yaml_Unmarshal E) stdoutGet = Inr items \<and> items \<noteq> []
        \<and> ParseK8sObjectsFromYAMLManifest (objects_pkg E) stdoutGet = Inr delObjects
        \<and> kubectl_Delete (kubectl E) (DryRun opts) (Verbose opts) (Kubeconfig opts) (Context opts) []
             stdoutGet [''--selector'', ?label] w1
           = ((stdoutDel, stderrDel, derr), w2)"
    using that get
    by (cases derr)
       (simp_all add: pruneDisabled_def buildComponentApplyOutput_def call_Delete_def deleteCall_def)
  have p3: "pruneDisabled E ?label opts s =
      ((\<lparr>Stdout = newline @ stdoutGet, Stderr = newline @ stderrGet, Err = Some e,
          Manifest = YAMLManifest (objects_pkg E) []\<rparr>, []), ?s1)"
    if "gerr = Some e"
    using that get by (simp add: pruneDisabled_def buildComponentApplyOutput_def)
  have p4: "pruneDisabled E ?label opts s =
      ((\<lparr>Stdout = [], Stderr = [], Err = Some e, Manifest = YAMLManifest (objects_pkg E) []\<rparr>, []), ?s1)"
    if "gerr = None \<and> (GetKubectlGetItems (yaml_Unmarshal E) stdoutGet = Inl e
          \<or> (GetKubectlGetItems (yaml_Unmarshal E) stdoutGet = Inr items \<and> items \<noteq> []
              \<and> ParseK8sObjectsFromYAMLManifest (objects_pkg E) stdoutGet = Inl e))"
    using that get by (auto simp add: pruneDisabled_def buildComponentApplyOutput_def)
  show "(gerr = None \<and> GetKubectlGetItems (yaml_Unmarshal E) stdoutGet = Inr []
       \<longrightarrow> applyManifest E componentName manifestStr version opts s =
            Some (Inr (\<lparr>Stdout = [], Stderr = [], Err = None, Manifest = YAMLManifest (objects_pkg E) []\<rparr>, []),
             ?s1))
   \<and> (gerr = None \<and> GetKubectlGetItems (yaml_Unmarshal E) stdoutGet = Inr items \<and> items \<noteq> []
        \<and> ParseK8sObjectsFromYAMLManifest (objects_pkg E) stdoutGet = Inr delObjects
        \<and> kubectl_Delete (kubectl E) (DryRun opts) (Verbose opts) (Kubeconfig opts) (Context opts) []
             stdoutGet [''--selector'', ?label] w1
           = ((stdoutDel, stderrDel, derr), w2)
       \<longrightarrow> applyManifest E componentName manifestStr version opts s =
            Some (Inr (\<lparr>Stdout = newline @ stdoutDel, Stderr = newline @ stderrDel, Err = derr,
                   Manifest = YAMLManifest (objects_pkg E) (if derr = None then delObjects else [])\<rparr>,
                  if derr = None then delObjects else []),
             s\<lparr>world := w2, trace := trace s @
                [lookupCall opts ?label, deleteCall opts ?label stdoutGet]\<rparr>))
   \<and> (gerr = Some e
       \<longrightarrow> applyManifest E componentName manifestStr version opts s =
            Some (Inr (\<lparr>Stdout = newline @ stdoutGet, Stderr = newline @ stderrGet, Err = Some e,
                   Manifest = YAMLManifest (objects_pkg E) []\<rparr>, []), ?s1))
   \<and> (gerr = None \<and> (GetKubectlGetItems (yaml_Unmarshal E) stdoutGet = Inl e
          \<or> (GetKubectlGetItems (yaml_Unmarshal E) stdoutGet = Inr items \<and> items \<noteq> []
              \<and> ParseK8sObjectsFromYAMLManifest (objects_pkg E) stdoutGet = Inl e))
       \<longrightarrow> applyManifest E componentName manifestStr version opts s =
            Some (Inr (\<lparr>Stdout = [], Stderr = [], Err = Some e, Manifest = YAMLManifest (objects_pkg E) []\<rparr>, []),
             ?s1))"
    unfolding dis using p1 p2 p3 p4 by simp
qed

theorem disabled_component_pruned_witness:
  "applyManifest (exampleEnv [] (exampleKubectl (''live-objects'', [], None) (''deleted'', [], None) ([], [], None)))
      ''Pilot'' [] ''1.4.0'' applyOptions s0
     = Some (Inr (\<lparr>Stdout = [], Stderr = [], Err = None, Manifest = []\<rparr>, []),
        s0\<lparr>trace := [lookupCall applyOptions ''install.istio.io/component=Pilot'']\<rparr>)
   \<and> applyManifest (exampleEnv [YMap []] (exampleKubectl (''live-objects'', [], None) (''deleted'', [], None) ([], [], None)))
      ''Pilot'' [] ''1.4.0'' applyOptions s0
     = Some (Inr (\<lparr>Stdout = newline @ ''deleted'', Stderr = newline, Err = None, Manifest = []\<rparr>, [liveList]),
        s0\<lparr>trace := [lookupCall applyOptions ''install.istio.io/component=Pilot'',
                      deleteCall applyOptions ''install.istio.io/component=Pilot'' ''live-objects'']\<rparr>)
   \<and> applyManifest (exampleEnv [YMap []] (exampleKubectl ([], ''refused'', Some ''exit status 1'') (''deleted'', [], None) ([], [], None)))
      ''Pilot'' [] ''1.4.0'' applyOptions s0
     = Some (Inr (\<lparr>Stdout = newline, Stderr = newline @ ''refused'', Err = Some ''exit status 1'', Manifest = []\<rparr>, []),
        s0\<lparr>trace := [lookupCall applyOptions ''install.istio.io/component=Pilot'']\<rparr>)
   \<and> applyManifest (exampleEnv [YMap []] (exampleKubectl (''not yaml'', [], None) (''deleted'', [], None) ([], [], None)))
      ''Pilot'' [] ''1.4.0'' applyOptions s0
     = Some (Inr (\<lparr>Stdout = [], Stderr = [], Err = Some ''yaml: did not find expected key'', Manifest = []\<rparr>, []),
        s0\<lparr>trace := [lookupCall applyOptions ''install.istio.io/component=Pilot'']\<rparr>)"
proof -
  let ?live = "(''live-objects'', [], None) :: string \<times> string \<times> error option"
  let ?del = "(''deleted'', [], None) :: string \<times> string \<times> error option"
  let ?ap = "([], [], None) :: string \<times> string \<times> error option"
  let ?E1 = "exampleEnv [] (exampleKubectl ?live ?del ?ap)"
  let ?E2 = "exampleEnv [YMap []] (exampleKubectl ?live ?del ?ap)"
  let ?E3 = "exampleEnv [YMap []] (exampleKubectl ([], ''refused'', Some ''exit status 1'') ?del ?ap)"
  let ?E4 = "exampleEnv [YMap []] (exampleKubectl (''not yaml'', [], None) ?del ?ap)"
  have label: "componentLabelOf (exampleEnv items kc) ''Pilot'' = ''install.istio.io/component=Pilot''"
    for items kc
    by (simp add: componentLabelOf_def exampleEnv_def exampleNames_def istioComponentLabelStr_def)
  have parse: "ParseK8sObjectsFromYAMLManifest (objects_pkg (exampleEnv items kc)) [] = Inr []"
    for items kc
    by (simp add: exampleEnv_def exampleObjectPkg_def exampleParse_def)
  have yamlm: "YAMLManifest (objects_pkg (exampleEnv items kc)) os = concat (map Name os)"
    for items kc os
    by (simp add: exampleEnv_def exampleObjectPkg_def)
  have get: "kubectl_GetAll (kubectl (exampleEnv items (exampleKubectl got d a))) (Kubeconfig applyOptions)
        (Context applyOptions) [] ''yaml'' [''--all-namespaces'', ''--selector'', lbl] (world s0)
      = ((fst got, fst (snd got), snd (snd got)), ())"
    for items got d a lbl
    by (simp add: exampleEnv_def exampleKubectl_def)
  have del: "kubectl_Delete (kubectl (exampleEnv items (exampleKubectl got ?del a))) (DryRun applyOptions)
        (Verbose applyOptions) (Kubeconfig applyOptions) (Context applyOptions) [] m [''--selector'', lbl] ()
      = ((''deleted'', [], None), ())"
    for items got a m lbl
    by (simp add: exampleEnv_def exampleKubectl_def)
  have items1: "GetKubectlGetItems (yaml_Unmarshal ?E1) ''live-objects'' = Inr []"
    by (simp add: GetKubectlGetItems_def exampleEnv_def exampleUnmarshal_def)
  have items2: "GetKubectlGetItems (yaml_Unmarshal ?E2) ''live-objects'' = Inr [YMap []]"
    by (simp add: GetKubectlGetItems_def exampleEnv_def exampleUnmarshal_def)
  have parse2: "ParseK8sObjectsFromYAMLManifest (objects_pkg ?E2) ''live-objects'' = Inr [liveList]"
    by (simp add: exampleEnv_def exampleObjectPkg_def exampleParse_def)
  have items4: "GetKubectlGetItems (yaml_Unmarshal ?E4) ''not yaml'' = Inl ''yaml: did not find expected key''"
    by (simp add: GetKubectlGetItems_def exampleEnv_def exampleUnmarshal_def)
  have c1: "applyManifest ?E1 ''Pilot'' [] ''1.4.0'' applyOptions s0
     = Some (Inr (\<lparr>Stdout = [], Stderr = [], Err = None, Manifest = []\<rparr>, []),
        s0\<lparr>trace := [lookupCall applyOptions ''install.istio.io/component=Pilot'']\<rparr>)"
    using disabled_component_pruned [where E = ?E1 and manifestStr = "[]" and opts = applyOptions
        and componentName = "''Pilot''" and s = s0 and stdoutGet = "''live-objects''" and stderrGet = "[]"
        and gerr = None and ?w1.0 = "()" and version = "''1.4.0''"]
      parse [of "[]" "exampleKubectl ?live ?del ?ap"] get [of "[]" ?live ?del ?ap] items1
    by (simp add: label yamlm s0_def)
  have c2: "applyManifest ?E2 ''Pilot'' [] ''1.4.0'' applyOptions s0
     = Some (Inr (\<lparr>Stdout = newline @ ''deleted'', Stderr = newline, Err = None, Manifest = []\<rparr>, [liveList]),
        s0\<lparr>trace := [lookupCall applyOptions ''install.istio.io/component=Pilot'',
                      deleteCall applyOptions ''install.istio.io/component=Pilot'' ''live-objects'']\<rparr>)"
    using disabled_component_pruned [where E = ?E2 and manifestStr = "[]" and opts = applyOptions
        and componentName = "''Pilot''" and s = s0 and stdoutGet = "''live-objects''" and stderrGet = "[]"
        and gerr = None and ?w1.0 = "()" and version = "''1.4.0''" and items = "[YMap []]"
        and delObjects = "[liveList]" and stdoutDel = "''deleted''" and stderrDel = "[]" and derr = None
        and ?w2.0 = "()"]
      parse [of "[YMap []]" "exampleKubectl ?live ?del ?ap"] get [of "[YMap []]" ?live ?del ?ap]
      items2 parse2 del [of "[YMap []]" ?live ?ap]
    by (simp add: label yamlm s0_def liveList_def)
  have c3: "applyManifest ?E3 ''Pilot'' [] ''1.4.0'' applyOptions s0
     = Some (Inr (\<lparr>Stdout = newline, Stderr = newline @ ''refused'', Err = Some ''exit status 1'', Manifest = []\<rparr>, []),
        s0\<lparr>trace := [lookupCall applyOptions ''install.istio.io/component=Pilot'']\<rparr>)"
    using disabled_component_pruned [where E = ?E3 and manifestStr = "[]" and opts = applyOptions
        and componentName = "''Pilot''" and s = s0 and stdoutGet = "[]" and stderrGet = "''refused''"
        and gerr = "Some ''exit status 1''" and ?w1.0 = "()" and version = "''1.4.0''"
        and e = "''exit status 1''"]
      parse [of "[YMap []]" "exampleKubectl ([], ''refused'', Some ''exit status 1'') ?del ?ap"]
      get [of "[YMap []]" "([], ''refused'', Some ''exit status 1'')" ?del ?ap]
    by (simp add: label yamlm s0_def)
  have c4: "applyManifest ?E4 ''Pilot'' [] ''1.4.0'' applyOptions s0
     = Some (Inr (\<lparr>Stdout = [], Stderr = [], Err = Some ''yaml: did not find expected key'', Manifest = []\<rparr>, []),
        s0\<lparr>trace := [lookupCall applyOptions ''install.istio.io/component=Pilot'']\<rparr>)"
    using disabled_component_pruned [where E = ?E4 and manifestStr = "[]" and opts = applyOptions
        and componentName = "''Pilot''" and s = s0 and stdoutGet = "''not yaml''" and stderrGet = "[]"
        and gerr = None and ?w1.0 = "()" and version = "''1.4.0''"
        and e = "''yaml: did not find expected key''"]
      parse [of "[YMap []]" "exampleKubectl (''not yaml'', [], None) ?del ?ap"]
      get [of "[YMap []]" "(''not yaml'', [], None)" ?del ?ap] items4
    by (simp add: label yamlm s0_def)
  from c1 c2 c3 c4 show ?thesis by simp
qed

text \<open>
  The last step of the enabled path hands back the remaining objects as applied whether
  the executor has failed or not.
\<close>

lemma applyRemainder_appends:
  assumes "JSONManifest (objects_pkg E) nonNsCrdObjects = Inr m"
    and "kubectl_Apply (kubectl E) (DryRun opts) (Verbose opts) (Kubeconfig opts) (Context opts)
           namespace m extraArgs (world s) = ((out, err', result), w1)"
  shows "applyRemainder E opts namespace extraArgs nonNsCrdObjects (stdout, stderr, appliedObjects) s =
     ((\<lparr>Stdout = stdout @ newline @ out, Stderr = stderr @ newline @ err', Err = result,
        Manifest = YAMLManifest (objects_pkg E) (appliedObjects @ nonNsCrdObjects)\<rparr>,
       appliedObjects @ nonNsCrdObjects),
      s\<lparr>world := w1, trace := trace s @
         [KubectlApply (DryRun opts) (Verbose opts) (Kubeconfig opts) (Context opts) namespace m extraArgs]\<rparr>)"
  using assms by (simp add: applyRemainder_def call_Apply_def buildComponentApplyOutput_def Let_def)

text \<open>
  C8. The claim asks that the objects returned as applied are those of the steps that
  succeeded before the failure. For component Pilot with one Deployment in its manifest
  and an executor whose apply fails, \<open>applyManifest\<close> returns the error of the executor
  in the outcome and, with it, the Deployment as an applied object.
\<close>

theorem failed_remainder_returned_as_applied:
  "applyManifest (exampleEnv [] (exampleKubectl ([], [], None) ([], [], None) ([], ''forbidden'', Some ''exit status 1'')))
      ''Pilot'' ''pilot-deployment'' ''1.4.0'' applyOptions s0
     = Some (Inr (\<lparr>Stdout = newline, Stderr = newline @ ''forbidden'', Err = Some ''exit status 1'',
              Manifest = ''pilot''\<rparr>, [labelledPilot]),
        s0\<lparr>trace := [KubectlApply False False [] [] ''istio-system'' ''pilot''
                        [''--force'', ''--prune'', ''--selector'', ''install.istio.io/component=Pilot'']]\<rparr>)"
  by (simp add: applyManifest_def exampleEnv_def exampleObjectPkg_def exampleParse_def exampleNames_def
      exampleKubectl_def pilotObject_def labelledPilot_def applyOptions_def s0_def
      istioComponentLabelStr_def operatorLabelStr_def istioVersionLabelStr_def operatorReconcileStr_def
      applyNamespaces_def applyCRDs_def applyRemainder_def objectsNotInLists_def call_Apply_def
      buildComponentApplyOutput_def defaultObjectOrder_def Let_def)

subsection \<open>RenderToDir\<close>

lemma renderEntries_dry_run:
  "renderEntries fs manifests es outputDir True s = (None, s)"
  by (induction fs manifests es outputDir "True" s rule: renderEntries.induct)
     (auto simp: Let_def split: option.splits componentTree.splits prod.splits)

lemma renderEntries_skip:
  "manifestOf manifests c = [] \<Longrightarrow>
   renderEntries fs manifests (leaf c # rest) dir dryRun s = renderEntries fs manifests rest dir dryRun s"
  by (simp add: leaf_def)

lemma call_MkdirAll_trace:
  "call_MkdirAll fs p s = (r, s1) \<Longrightarrow> trace s1 = trace s @ [MkdirAll p]"
  by (auto simp: call_MkdirAll_def split: prod.splits)

lemma call_WriteFile_trace:
  "call_WriteFile fs p c s = (r, s1) \<Longrightarrow> trace s1 = trace s @ [WriteFile p c]"
  by (auto simp: call_WriteFile_def split: prod.splits)

lemma renderEntries_leaf_step:
  assumes "manifestOf manifests c \<noteq> []"
    and "renderEntries fs manifests (leaf c # rest) dir False s = (None, s')"
  shows "\<exists>s2. trace s2 = trace s @ renderCalls manifests dir c
     \<and> renderEntries fs manifests rest dir False s2 = (None, s')"
proof -
  obtain r1 s1 where m: "call_MkdirAll fs (dir @ [c]) s = (r1, s1)"
    by (cases "call_MkdirAll fs (dir @ [c]) s")
  obtain r2 s2 where w: "call_WriteFile fs (dir @ [c, c @ ''.yaml'']) (manifestOf manifests c) s1 = (r2, s2)"
    by (cases "call_WriteFile fs (dir @ [c, c @ ''.yaml'']) (manifestOf manifests c) s1")
  have r1: "r1 = None"
    using assms m by (cases r1) (simp_all add: leaf_def Let_def)
  have r2: "r2 = None"
    using assms m w r1 by (cases r2) (simp_all add: leaf_def Let_def)
  have rest: "renderEntries fs manifests rest dir False s2 = (None, s')"
    using assms m w r1 r2 by (simp add: leaf_def Let_def)
  have "trace s2 = trace s @ renderCalls manifests dir c"
    using call_MkdirAll_trace [OF m] call_WriteFile_trace [OF w] assms(1)
    by (simp add: renderCalls_def)
  with rest show ?thesis by blast
qed

lemma renderEntries_leaves:
  "renderEntries fs manifests (map leaf cs) dir False s = (None, s')
   \<Longrightarrow> trace s' = trace s @ concat (map (renderCalls manifests dir) cs)"
proof (induction cs arbitrary: s)
  case Nil
  then show ?case by simp
next
  case (Cons c cs)
  show ?case
  proof (cases "manifestOf manifests c = []")
    case True
    with Cons.prems have "renderEntries fs manifests (map leaf cs) dir False s = (None, s')"
      by (simp add: renderEntries_skip)
    from Cons.IH [OF this] True show ?thesis by (simp add: renderCalls_def)
  next
    case False
    from Cons.prems have "renderEntries fs manifests (leaf c # map leaf cs) dir False s = (None, s')"
      by simp
    from renderEntries_leaf_step [OF False this] obtain s2 where
      t: "trace s2 = trace s @ renderCalls manifests dir c"
      and r: "renderEntries fs manifests (map leaf cs) dir False s2 = (None, s')" by blast
    from Cons.IH [OF r] t show ?thesis by simp
  qed
qed

lemma renderEntries_root:
  assumes "manifestOf manifests base \<noteq> []"
    and "renderEntries fs manifests [(base, Some (ComponentTree (map leaf cs)))] outputDir False s = (None, s')"
  shows "trace s' = trace s @ renderCalls manifests outputDir base
     @ concat (map (renderCalls manifests (outputDir @ [base])) cs)"
proof -
  obtain r1 s1 where m: "call_MkdirAll fs (outputDir @ [base]) s = (r1, s1)"
    by (cases "call_MkdirAll fs (outputDir @ [base]) s")
  obtain r2 s2 where w: "call_WriteFile fs (outputDir @ [base, base @ ''.yaml''])
      (manifestOf manifests base) s1 = (r2, s2)"
    by (cases "call_WriteFile fs (outputDir @ [base, base @ ''.yaml'']) (manifestOf manifests base) s1")
  obtain r3 s3 where k: "renderEntries fs manifests (map leaf cs) (outputDir @ [base]) False s2 = (r3, s3)"
    by (cases "renderEntries fs manifests (map leaf cs) (outputDir @ [base]) False s2")
  have r1: "r1 = None" using assms m by (cases r1) (simp_all add: Let_def)
  have r2: "r2 = None" using assms m w r1 by (cases r2) (simp_all add: Let_def)
  have r3: "r3 = None" using assms m w k r1 r2 by (cases r3) (simp_all add: Let_def)
  have s3: "s3 = s'" using assms m w k r1 r2 r3 by (simp add: Let_def)
  have "trace s2 = trace s @ renderCalls manifests outputDir base"
    using call_MkdirAll_trace [OF m] call_WriteFile_trace [OF w] assms(1)
    by (simp add: renderCalls_def)
  moreover have "trace s3 = trace s2 @ concat (map (renderCalls manifests (outputDir @ [base])) cs)"
    using k r3 by (intro renderEntries_leaves) simp
  ultimately show ?thesis using s3 by simp
qed

lemma tree_assign_fresh:
  "k \<notin> fst ` set es \<Longrightarrow> tree_assign k v es = es @ [(k, v)]"
  by (induction es) auto

lemma insertEach_leaves:
  assumes "\<forall>c \<in> set cs. childrenOf children c = []"
  shows "distinct cs \<Longrightarrow> set cs \<inter> fst ` set es = {}
   \<Longrightarrow> insertEach (Suc depth) cs (ComponentTree es) children = Some (ComponentTree (es @ map leaf cs))"
  using assms
proof (induction cs arbitrary: es)
  case Nil
  show ?case by simp
next
  case (Cons c cs)
  have fresh: "c \<notin> fst ` set es" using Cons.prems(2) by auto
  have one: "insertChildrenRecursive (Suc depth) c (ComponentTree es) children
      = Some (ComponentTree (es @ [leaf c]))"
    using Cons.prems(3) fresh by (simp add: tree_assign_fresh leaf_def)
  have i: "set cs \<inter> fst ` set (es @ [leaf c]) = {}"
    using Cons.prems(1,2) by (auto simp: leaf_def)
  have d: "distinct cs" using Cons.prems(1) by simp
  have a: "\<forall>c \<in> set cs. childrenOf children c = []" using Cons.prems(3) by simp
  have "insertEach (Suc depth) cs (ComponentTree (es @ [leaf c])) children
      = Some (ComponentTree ((es @ [leaf c]) @ map leaf cs))"
    using d i a by (rule Cons.IH)
  with one show ?case by simp
qed

lemma buildInstallTree_shape:
  assumes "IstioBaseComponentName N \<notin> set (baseChildren N)" and "distinct (baseChildren N)"
  shows "buildInstallTree (Suc (Suc depth)) N =
     Some (ComponentTree [(IstioBaseComponentName N, Some (ComponentTree (map leaf (baseChildren N))))])"
proof -
  have none: "\<forall>c \<in> set (baseChildren N). childrenOf (componentDependencies N) c = []"
    using assms(1) by (auto simp: childrenOf_def componentDependencies_def)
  have "insertEach (Suc depth) (baseChildren N) (ComponentTree []) (componentDependencies N)
      = Some (ComponentTree ([] @ map leaf (baseChildren N)))"
    using none assms(2) by (intro insertEach_leaves) simp_all
  then show ?thesis
    by (simp add: buildInstallTree_def childrenOf_def componentDependencies_def)
qed

text \<open>
  C3, as amended. Under dry-run \<open>RenderToDir\<close> returns without a call of the file system,
  for every tree. The install tree is the base component with the sixteen declared
  children as leaves under it. When dry-run is off, the manifest of the base component
  is not empty and \<open>RenderToDir\<close> returns without error, the calls of the file system are
  exactly these: the directory \<open>outputDir/base\<close> is created and the base manifest is
  written to \<open>outputDir/base/base.yaml\<close>; then, for each child \<open>c\<close> with a manifest, in
  whatever order \<open>cs\<close> the map is visited, the directory \<open>outputDir/base/c\<close> is created
  and the manifest of \<open>c\<close> is written to \<open>outputDir/base/c/c.yaml\<close>.
\<close>

theorem render_to_dir_nested:
  "RenderToDir fs tree manifests outputDir True verbose s = (None, s)
   \<and> (IstioBaseComponentName N \<notin> set (baseChildren N) \<and> distinct (baseChildren N)
      \<longrightarrow> buildInstallTree (Suc (Suc depth)) N =
          Some (ComponentTree [(IstioBaseComponentName N, Some (ComponentTree (map leaf (baseChildren N))))]))
   \<and> (manifestOf manifests base \<noteq> []
        \<and> RenderToDir fs (ComponentTree [(base, Some (ComponentTree (map leaf cs)))]) manifests
             outputDir False verbose s = (None, s')
      \<longrightarrow> new_events s s' =
            [MkdirAll (outputDir @ [base]),
             WriteFile (outputDir @ [base, base @ ''.yaml'']) (manifestOf manifests base)]
            @ concat (map (renderCalls manifests (outputDir @ [base])) cs)
          \<and> (\<forall>c. c \<in> set cs \<and> manifestOf manifests c \<noteq> []
                \<longrightarrow> WriteFile (outputDir @ [base, c, c @ ''.yaml'']) (manifestOf manifests c)
                      \<in> set (new_events s s')))"
proof (intro conjI impI allI)
  show "RenderToDir fs tree manifests outputDir True verbose s = (None, s)"
    by (cases tree) (simp add: RenderToDir_def renderRecursive_def renderEntries_dry_run)
next
  assume "IstioBaseComponentName N \<notin> set (baseChildren N) \<and> distinct (baseChildren N)"
  then show "buildInstallTree (Suc (Suc depth)) N =
          Some (ComponentTree [(IstioBaseComponentName N, Some (ComponentTree (map leaf (baseChildren N))))])"
    by (simp add: buildInstallTree_shape)
next
  assume a: "manifestOf manifests base \<noteq> []
        \<and> RenderToDir fs (ComponentTree [(base, Some (ComponentTree (map leaf cs)))]) manifests
             outputDir False verbose s = (None, s')"
  then have run: "renderEntries fs manifests [(base, Some (ComponentTree (map leaf cs)))] outputDir False s
      = (None, s')"
    by (simp add: RenderToDir_def renderRecursive_def del: renderEntries.simps)
  from a have nonempty: "manifestOf manifests base \<noteq> []" by simp
  have t: "trace s' = trace s @ renderCalls manifests outputDir base
     @ concat (map (renderCalls manifests (outputDir @ [base])) cs)"
    using nonempty run by (rule renderEntries_root)
  then show ev: "new_events s s' =
            [MkdirAll (outputDir @ [base]),
             WriteFile (outputDir @ [base, base @ ''.yaml'']) (manifestOf manifests base)]
            @ concat (map (renderCalls manifests (outputDir @ [base])) cs)"
    using nonempty by (simp add: new_events_def renderCalls_def)
  fix c
  assume c: "c \<in> set cs \<and> manifestOf manifests c \<noteq> []"
  then have "WriteFile (outputDir @ [base, c, c @ ''.yaml'']) (manifestOf manifests c)
      \<in> set (renderCalls manifests (outputDir @ [base]) c)"
    by (simp add: renderCalls_def)
  with c have "WriteFile (outputDir @ [base, c, c @ ''.yaml'']) (manifestOf manifests c)
      \<in> set (concat (map (renderCalls manifests (outputDir @ [base])) cs))"
    by auto
  then show "WriteFile (outputDir @ [base, c, c @ ''.yaml'']) (manifestOf manifests c)
      \<in> set (new_events s s')"
    unfolding ev by simp
qed

lemma exampleTree_rendered:
  "RenderToDir okFS exampleTree twoManifests [''out''] False False s0
     = (None, s0\<lparr>trace :=
         [MkdirAll [''out'', ''Base''],
          WriteFile [''out'', ''Base'', ''Base.yaml''] ''base-manifest'',
          MkdirAll [''out'', ''Base'', ''Pilot''],
          WriteFile [''out'', ''Base'', ''Pilot'', ''Pilot.yaml''] ''pilot-deployment'']\<rparr>)"
  by (simp add: RenderToDir_def renderRecursive_def exampleTree_def twoManifests_def okFS_def
      baseChildren_def exampleNames_def leaf_def manifestOf_def call_MkdirAll_def call_WriteFile_def
      s0_def Let_def)

theorem render_to_dir_nested_witness:
  "RenderToDir okFS exampleTree twoManifests [''out''] True False s0 = (None, s0)
   \<and> buildInstallTree 2 exampleNames = Some exampleTree
   \<and> new_events s0 (snd (RenderToDir okFS exampleTree twoManifests [''out''] False False s0)) =
       [MkdirAll [''out'', ''Base''],
        WriteFile [''out'', ''Base'', ''Base.yaml''] ''base-manifest'',
        MkdirAll [''out'', ''Base'', ''Pilot''],
        WriteFile [''out'', ''Base'', ''Pilot'', ''Pilot.yaml''] ''pilot-deployment'']
   \<and> WriteFile [''out'', ''Base'', ''Pilot'', ''Pilot.yaml''] ''pilot-deployment''
       \<in> set (new_events s0 (snd (RenderToDir okFS exampleTree twoManifests [''out''] False False s0)))"
proof -
  let ?s' = "s0\<lparr>trace :=
         [MkdirAll [''out'', ''Base''],
          WriteFile [''out'', ''Base'', ''Base.yaml''] ''base-manifest'',
          MkdirAll [''out'', ''Base'', ''Pilot''],
          WriteFile [''out'', ''Base'', ''Pilot'', ''Pilot.yaml''] ''pilot-deployment'']\<rparr>"
  have h2: "IstioBaseComponentName exampleNames \<notin> set (baseChildren exampleNames)
      \<and> distinct (baseChildren exampleNames)"
    by (simp add: baseChildren_def exampleNames_def)
  have h3: "manifestOf twoManifests ''Base'' \<noteq> []
      \<and> RenderToDir okFS (ComponentTree [(''Base'', Some (ComponentTree (map leaf (baseChildren exampleNames))))])
           twoManifests [''out''] False False s0 = (None, ?s')"
    using exampleTree_rendered by (simp add: exampleTree_def manifestOf_def twoManifests_def)
  have h4: "''Pilot'' \<in> set (baseChildren exampleNames) \<and> manifestOf twoManifests ''Pilot'' \<noteq> []"
    by (simp add: baseChildren_def exampleNames_def manifestOf_def twoManifests_def)
  note t = render_to_dir_nested [where fs = okFS and tree = exampleTree and manifests = twoManifests
      and outputDir = "[''out'']" and verbose = False and s = s0 and N = exampleNames and depth = 0
      and base = "''Base''" and cs = "baseChildren exampleNames" and s' = ?s']
  from t have c1: "RenderToDir okFS exampleTree twoManifests [''out''] True False s0 = (None, s0)"
    by (elim conjE)
  from t h2 have c2: "buildInstallTree 2 exampleNames = Some exampleTree"
    by (simp add: exampleTree_def exampleNames_def numeral_2_eq_2)
  from t h3 h4 have c4: "WriteFile ([''out''] @ [''Base'', ''Pilot'', ''Pilot'' @ ''.yaml''])
      (manifestOf twoManifests ''Pilot'') \<in> set (new_events s0 ?s')"
    by blast
  have c3: "new_events s0 ?s' =
       [MkdirAll [''out'', ''Base''],
        WriteFile [''out'', ''Base'', ''Base.yaml''] ''base-manifest'',
        MkdirAll [''out'', ''Base'', ''Pilot''],
        WriteFile [''out'', ''Base'', ''Pilot'', ''Pilot.yaml''] ''pilot-deployment'']"
    by (simp add: new_events_def s0_def)
  from c1 c2 c3 c4 show ?thesis
    unfolding exampleTree_rendered by (simp add: manifestOf_def twoManifests_def)
qed

text \<open>
  C3, as stated, fails: with manifests for Base and Pilot and a file system that never
  fails, the manifest of Pilot is written to \<open>out/Base/Pilot/Pilot.yaml\<close>, and nothing is
  written to \<open>out/Pilot/Pilot.yaml\<close>.
\<close>

theorem render_to_dir_flat_counterexample:
  "buildInstallTree 2 exampleNames = Some exampleTree
   \<and> manifestOf twoManifests ''Pilot'' = ''pilot-deployment''
   \<and> RenderToDir okFS exampleTree twoManifests [''out''] False False s0
     = (None, s0\<lparr>trace :=
         [MkdirAll [''out'', ''Base''],
          WriteFile [''out'', ''Base'', ''Base.yaml''] ''base-manifest'',
          MkdirAll [''out'', ''Base'', ''Pilot''],
          WriteFile [''out'', ''Base'', ''Pilot'', ''Pilot.yaml''] ''pilot-deployment'']\<rparr>)
   \<and> WriteFile [''out'', ''Pilot'', ''Pilot.yaml''] ''pilot-deployment''
       \<notin> set (trace (snd (RenderToDir okFS exampleTree twoManifests [''out''] False False s0)))"
proof -
  have "IstioBaseComponentName exampleNames \<notin> set (baseChildren exampleNames)"
    and "distinct (baseChildren exampleNames)"
    by (simp_all add: baseChildren_def exampleNames_def)
  then have "buildInstallTree (Suc (Suc 0)) exampleNames = Some exampleTree"
    by (simp add: buildInstallTree_shape exampleTree_def exampleNames_def)
  then have "buildInstallTree 2 exampleNames = Some exampleTree"
    by (simp add: numeral_2_eq_2)
  then show ?thesis
    unfolding exampleTree_rendered by (simp add: manifestOf_def twoManifests_def)
qed

subsection \<open>The dependency gates\<close>

lemma hasGate_iff: "hasGate N c = (c \<in> set (baseChildren N))"
  by (simp add: hasGate_def componentDependencies_def)

lemma childrenOf_declaration:
  "childrenOf (componentDependencies N) c = (if c = IstioBaseComponentName N then baseChildren N else [])"
  by (simp add: childrenOf_def componentDependencies_def)

lemma stepE:
  assumes "step E version opts manifests c \<sigma> = Some \<sigma>'"
  obtains
    (receive) "crashed \<sigma> = None" "c \<in> fst ` set manifests" "phase_of \<sigma> c = Waiting"
      "hasGate (names E) c" "dependencyWaitCh \<sigma> c > 0"
      "\<sigma>' = \<sigma>\<lparr>phase_of := (phase_of \<sigma>)(c := Applying),
                dependencyWaitCh := (dependencyWaitCh \<sigma>)(c := dependencyWaitCh \<sigma> c - 1)\<rparr>"
  | (pass) "crashed \<sigma> = None" "c \<in> fst ` set manifests" "phase_of \<sigma> c = Waiting"
      "\<not> hasGate (names E) c" "\<sigma>' = \<sigma>\<lparr>phase_of := (phase_of \<sigma>)(c := Applying)\<rparr>"
  | (panicked) p s' where "crashed \<sigma> = None" "c \<in> fst ` set manifests" "phase_of \<sigma> c = Applying"
      "\<sigma>' = \<sigma>\<lparr>crashed := Some p, outside := s'\<rparr>"
  | (applied) applyOut appliedObjects s' where "crashed \<sigma> = None" "c \<in> fst ` set manifests"
      "phase_of \<sigma> c = Applying"
      "applyManifest E c (manifestOf manifests c) version opts (outside \<sigma>)
         = Some (Inr (applyOut, appliedObjects), s')"
      "\<sigma>' = \<sigma>\<lparr>phase_of := (phase_of \<sigma>)(c := Signalling (childrenOf (componentDependencies (names E)) c)),
                outputs := outputs \<sigma> @ [(c, applyOut)],
                allAppliedObjects := allAppliedObjects \<sigma> @ appliedObjects,
                outside := s'\<rparr>"
  | (finished) "crashed \<sigma> = None" "c \<in> fst ` set manifests" "phase_of \<sigma> c = Signalling []"
      "\<sigma>' = \<sigma>\<lparr>phase_of := (phase_of \<sigma>)(c := Finished)\<rparr>"
  | (sent) ch rest where "crashed \<sigma> = None" "c \<in> fst ` set manifests"
      "phase_of \<sigma> c = Signalling (ch # rest)" "dependencyWaitCh \<sigma> ch = 0"
      "\<sigma>' = \<sigma>\<lparr>phase_of := (phase_of \<sigma>)(c := Signalling rest),
                dependencyWaitCh := (dependencyWaitCh \<sigma>)(ch := dependencyWaitCh \<sigma> ch + 1),
                signalled := signalled \<sigma> @ [ch]\<rparr>"
proof -
  from assms have live: "crashed \<sigma> = None" "c \<in> fst ` set manifests"
    by (auto simp: step_def split: if_splits)
  show thesis
  proof (cases "phase_of \<sigma> c")
    case Waiting
    with assms live show ?thesis
      by (cases "hasGate (names E) c") (auto simp: step_def split: if_splits intro: receive pass)
  next
    case Applying
    from assms live Applying
    have "applyManifest E c (manifestOf manifests c) version opts (outside \<sigma>) \<noteq> None"
      by (auto simp: step_def split: option.splits)
    then obtain r s' where r: "applyManifest E c (manifestOf manifests c) version opts (outside \<sigma>)
        = Some (r, s')"
      by (cases "applyManifest E c (manifestOf manifests c) version opts (outside \<sigma>)") auto
    show ?thesis
    proof (cases r)
      case (Inl p)
      with assms live Applying r show ?thesis by (auto simp: step_def intro: panicked)
    next
      case (Inr ao)
      obtain applyOut appliedObjects where "ao = (applyOut, appliedObjects)" by (cases ao)
      with Inr assms live Applying r show ?thesis by (auto simp: step_def intro: applied)
    qed
  next
    case (Signalling l)
    show ?thesis
    proof (cases l)
      case Nil
      with assms live Signalling show ?thesis by (auto simp: step_def intro: finished)
    next
      case (Cons ch rest)
      with assms live Signalling show ?thesis
        by (auto simp: step_def split: if_splits intro: sent)
    qed
  next
    case Finished
    with assms live show ?thesis by (simp add: step_def)
  qed
qed

lemma gate_inv_start: "gate_inv N manifests (start noTokens s)"
  unfolding gate_inv_def
  by (intro conjI) (auto simp: start_def noTokens_def intro: exI [of _ 0])

lemma gate_inv_step:
  assumes wn: "wellNamed (names E)"
    and inv: "gate_inv (names E) manifests \<sigma>"
    and st: "step E version opts manifests c \<sigma> = Some \<sigma>'"
  shows "gate_inv (names E) manifests \<sigma>'"
proof -
  let ?b = "IstioBaseComponentName (names E)"
  let ?cs = "baseChildren (names E)"
  have bn: "?b \<notin> set ?cs" and dc: "distinct ?cs"
    using wn by (simp_all add: wellNamed_def)
  from inv obtain k where k: "k \<le> length ?cs" and sg: "signalled \<sigma> = take k ?cs"
    and phb: "(case phase_of \<sigma> ?b of
               Waiting \<Rightarrow> k = 0
             | Applying \<Rightarrow> k = 0
             | Signalling rest \<Rightarrow> rest = drop k ?cs
             | Finished \<Rightarrow> k = length ?cs)"
    unfolding gate_inv_def by blast
  from inv have nt: "\<And>c. c \<notin> fst ` set manifests \<Longrightarrow> phase_of \<sigma> c = Waiting"
    unfolding gate_inv_def by blast
  from inv have chs: "\<And>c. c \<in> set ?cs \<Longrightarrow>
            (if c \<in> set (signalled \<sigma>)
             then dependencyWaitCh \<sigma> c = (if phase_of \<sigma> c = Waiting then 1 else 0)
             else dependencyWaitCh \<sigma> c = 0 \<and> phase_of \<sigma> c = Waiting)"
    unfolding gate_inv_def by blast
  from inv have nc: "\<And>c rest. c \<noteq> ?b \<Longrightarrow> phase_of \<sigma> c = Signalling rest \<Longrightarrow> rest = []"
    unfolding gate_inv_def by blast
  from st show ?thesis
  proof (cases rule: stepE)
    case receive
    then have cin: "c \<in> set ?cs" by (simp add: hasGate_iff)
    then have cb: "c \<noteq> ?b" using bn by auto
    have csig: "c \<in> set (signalled \<sigma>)" and g1: "dependencyWaitCh \<sigma> c = 1"
      using chs [OF cin] receive(3,5) by (auto split: if_splits)
    have p1: "\<forall>c'. c' \<notin> fst ` set manifests \<longrightarrow> phase_of \<sigma>' c' = Waiting"
      using nt receive(2,6) by auto
    have p2: "\<exists>k \<le> length ?cs. signalled \<sigma>' = take k ?cs \<and>
            (case phase_of \<sigma>' ?b of
               Waiting \<Rightarrow> k = 0
             | Applying \<Rightarrow> k = 0
             | Signalling rest \<Rightarrow> rest = drop k ?cs
             | Finished \<Rightarrow> k = length ?cs)"
      using k sg phb cb receive(6) by (intro exI [of _ k]) simp
    have p3: "\<forall>c' \<in> set ?cs.
            if c' \<in> set (signalled \<sigma>')
            then dependencyWaitCh \<sigma>' c' = (if phase_of \<sigma>' c' = Waiting then 1 else 0)
            else dependencyWaitCh \<sigma>' c' = 0 \<and> phase_of \<sigma>' c' = Waiting"
    proof
      fix c' assume c': "c' \<in> set ?cs"
      show "if c' \<in> set (signalled \<sigma>')
            then dependencyWaitCh \<sigma>' c' = (if phase_of \<sigma>' c' = Waiting then 1 else 0)
            else dependencyWaitCh \<sigma>' c' = 0 \<and> phase_of \<sigma>' c' = Waiting"
      proof (cases "c' = c")
        case True
        with csig g1 receive(6) show ?thesis by simp
      next
        case False
        with chs [OF c'] receive(6) show ?thesis by simp
      qed
    qed
    have p4: "\<forall>c' rest. c' \<noteq> ?b \<longrightarrow> phase_of \<sigma>' c' = Signalling rest \<longrightarrow> rest = []"
      using nc receive(6) by auto
    from p1 p2 p3 p4 show ?thesis unfolding gate_inv_def by blast
  next
    case pass
    then have cnin: "c \<notin> set ?cs" by (simp add: hasGate_iff)
    have p1: "\<forall>c'. c' \<notin> fst ` set manifests \<longrightarrow> phase_of \<sigma>' c' = Waiting"
      using nt pass(2,5) by auto
    have p2: "\<exists>k \<le> length ?cs. signalled \<sigma>' = take k ?cs \<and>
            (case phase_of \<sigma>' ?b of
               Waiting \<Rightarrow> k = 0
             | Applying \<Rightarrow> k = 0
             | Signalling rest \<Rightarrow> rest = drop k ?cs
             | Finished \<Rightarrow> k = length ?cs)"
    proof (cases "c = ?b")
      case True
      with pass(3) phb have "k = 0" by simp
      with k sg True pass(5) show ?thesis by (intro exI [of _ 0]) simp
    next
      case False
      with k sg phb pass(5) show ?thesis by (intro exI [of _ k]) simp
    qed
    have p3: "\<forall>c' \<in> set ?cs.
            if c' \<in> set (signalled \<sigma>')
            then dependencyWaitCh \<sigma>' c' = (if phase_of \<sigma>' c' = Waiting then 1 else 0)
            else dependencyWaitCh \<sigma>' c' = 0 \<and> phase_of \<sigma>' c' = Waiting"
    proof
      fix c' assume c': "c' \<in> set ?cs"
      then have "c' \<noteq> c" using cnin by auto
      with chs [OF c'] pass(5)
      show "if c' \<in> set (signalled \<sigma>')
            then dependencyWaitCh \<sigma>' c' = (if phase_of \<sigma>' c' = Waiting then 1 else 0)
            else dependencyWaitCh \<sigma>' c' = 0 \<and> phase_of \<sigma>' c' = Waiting"
        by simp
    qed
    have p4: "\<forall>c' rest. c' \<noteq> ?b \<longrightarrow> phase_of \<sigma>' c' = Signalling rest \<longrightarrow> rest = []"
      using nc pass(5) by auto
    from p1 p2 p3 p4 show ?thesis unfolding gate_inv_def by blast
  next
    case (panicked p s')
    with inv show ?thesis unfolding gate_inv_def by simp
  next
    case (applied applyOut appliedObjects s')
    have p1: "\<forall>c'. c' \<notin> fst ` set manifests \<longrightarrow> phase_of \<sigma>' c' = Waiting"
      using nt applied(2,5) by auto
    have p2: "\<exists>k \<le> length ?cs. signalled \<sigma>' = take k ?cs \<and>
            (case phase_of \<sigma>' ?b of
               Waiting \<Rightarrow> k = 0
             | Applying \<Rightarrow> k = 0
             | Signalling rest \<Rightarrow> rest = drop k ?cs
             | Finished \<Rightarrow> k = length ?cs)"
    proof (cases "c = ?b")
      case True
      with applied(3) phb have "k = 0" by simp
      with k sg True applied(5) show ?thesis
        by (intro exI [of _ 0]) (simp add: childrenOf_declaration)
    next
      case False
      with k sg phb applied(5) show ?thesis by (intro exI [of _ k]) simp
    qed
    have p3: "\<forall>c' \<in> set ?cs.
            if c' \<in> set (signalled \<sigma>')
            then dependencyWaitCh \<sigma>' c' = (if phase_of \<sigma>' c' = Waiting then 1 else 0)
            else dependencyWaitCh \<sigma>' c' = 0 \<and> phase_of \<sigma>' c' = Waiting"
    proof
      fix c' assume c': "c' \<in> set ?cs"
      show "if c' \<in> set (signalled \<sigma>')
            then dependencyWaitCh \<sigma>' c' = (if phase_of \<sigma>' c' = Waiting then 1 else 0)
            else dependencyWaitCh \<sigma>' c' = 0 \<and> phase_of \<sigma>' c' = Waiting"
      proof (cases "c' = c")
        case True
        with chs [OF c'] applied(3,5) show ?thesis by (auto split: if_splits)
      next
        case False
        with chs [OF c'] applied(5) show ?thesis by simp
      qed
    qed
    have p4: "\<forall>c' rest. c' \<noteq> ?b \<longrightarrow> phase_of \<sigma>' c' = Signalling rest \<longrightarrow> rest = []"
      using nc applied(5) by (auto simp: childrenOf_declaration)
    from p1 p2 p3 p4 show ?thesis unfolding gate_inv_def by blast
  next
    case finished
    have p1: "\<forall>c'. c' \<notin> fst ` set manifests \<longrightarrow> phase_of \<sigma>' c' = Waiting"
      using nt finished(2,4) by auto
    have p2: "\<exists>k \<le> length ?cs. signalled \<sigma>' = take k ?cs \<and>
            (case phase_of \<sigma>' ?b of
               Waiting \<Rightarrow> k = 0
             | Applying \<Rightarrow> k = 0
             | Signalling rest \<Rightarrow> rest = drop k ?cs
             | Finished \<Rightarrow> k = length ?cs)"
    proof (cases "c = ?b")
      case True
      with finished(3) phb have "drop k ?cs = []" by simp
      with k have "k = length ?cs" by simp
      with sg True finished(4) show ?thesis by (intro exI [of _ "length ?cs"]) simp
    next
      case False
      with k sg phb finished(4) show ?thesis by (intro exI [of _ k]) simp
    qed
    have p3: "\<forall>c' \<in> set ?cs.
            if c' \<in> set (signalled \<sigma>')
            then dependencyWaitCh \<sigma>' c' = (if phase_of \<sigma>' c' = Waiting then 1 else 0)
            else dependencyWaitCh \<sigma>' c' = 0 \<and> phase_of \<sigma>' c' = Waiting"
    proof
      fix c' assume c': "c' \<in> set ?cs"
      show "if c' \<in> set (signalled \<sigma>')
            then dependencyWaitCh \<sigma>' c' = (if phase_of \<sigma>' c' = Waiting then 1 else 0)
            else dependencyWaitCh \<sigma>' c' = 0 \<and> phase_of \<sigma>' c' = Waiting"
      proof (cases "c' = c")
        case True
        with chs [OF c'] finished(3,4) show ?thesis by (auto split: if_splits)
      next
        case False
        with chs [OF c'] finished(4) show ?thesis by simp
      qed
    qed
    have p4: "\<forall>c' rest. c' \<noteq> ?b \<longrightarrow> phase_of \<sigma>' c' = Signalling rest \<longrightarrow> rest = []"
      using nc finished(4) by auto
    from p1 p2 p3 p4 show ?thesis unfolding gate_inv_def by blast
  next
    case (sent ch rest)
    have cb: "c = ?b" using nc [of c "ch # rest"] sent(3) by auto
    with sent(3) phb have dr: "ch # rest = drop k ?cs" by simp
    then have kl: "k < length ?cs" by (cases "k < length ?cs") auto
    from dr kl have chk: "ch = ?cs ! k" and rest: "rest = drop (Suc k) ?cs"
      by (simp_all add: Cons_nth_drop_Suc [symmetric])
    have chin: "ch \<in> set ?cs" using chk kl by simp
    have chb: "ch \<noteq> ?b" using chin bn by auto
    have chfresh: "ch \<notin> set (take k ?cs)"
      using dc chk kl by (metis distinct_take id_take_nth_drop not_distinct_conv_prefix)
    have sg': "signalled \<sigma>' = take (Suc k) ?cs"
      using sg chk kl sent(5) by (simp add: take_Suc_conv_app_nth)
    have p1: "\<forall>c'. c' \<notin> fst ` set manifests \<longrightarrow> phase_of \<sigma>' c' = Waiting"
      using nt sent(2,5) by auto
    have p2: "\<exists>k \<le> length ?cs. signalled \<sigma>' = take k ?cs \<and>
            (case phase_of \<sigma>' ?b of
               Waiting \<Rightarrow> k = 0
             | Applying \<Rightarrow> k = 0
             | Signalling rest \<Rightarrow> rest = drop k ?cs
             | Finished \<Rightarrow> k = length ?cs)"
      using kl sg' rest cb sent(5) by (intro exI [of _ "Suc k"]) simp
    have p3: "\<forall>c' \<in> set ?cs.
            if c' \<in> set (signalled \<sigma>')
            then dependencyWaitCh \<sigma>' c' = (if phase_of \<sigma>' c' = Waiting then 1 else 0)
            else dependencyWaitCh \<sigma>' c' = 0 \<and> phase_of \<sigma>' c' = Waiting"
    proof
      fix c' assume c': "c' \<in> set ?cs"
      then have c'b: "c' \<noteq> c" using cb bn by auto
      show "if c' \<in> set (signalled \<sigma>')
            then dependencyWaitCh \<sigma>' c' = (if phase_of \<sigma>' c' = Waiting then 1 else 0)
            else dependencyWaitCh \<sigma>' c' = 0 \<and> phase_of \<sigma>' c' = Waiting"
      proof (cases "c' = ch")
        case True
        have "phase_of \<sigma> ch = Waiting" using chs [OF chin] chfresh sg by simp
        with True c'b sent(4,5) show ?thesis by simp
      next
        case False
        have "(c' \<in> set (signalled \<sigma>')) = (c' \<in> set (signalled \<sigma>))"
          using False sent(5) by simp
        with chs [OF c'] False c'b sent(5) show ?thesis by simp
      qed
    qed
    have p4: "\<forall>c' rest. c' \<noteq> ?b \<longrightarrow> phase_of \<sigma>' c' = Signalling rest \<longrightarrow> rest = []"
      using nc cb sent(5) by auto
    from p1 p2 p3 p4 show ?thesis unfolding gate_inv_def by blast
  qed
qed

lemma gate_inv_exec:
  assumes "wellNamed (names E)"
  shows "gate_inv (names E) manifests \<sigma> \<Longrightarrow> gate_inv (names E) manifests (exec E version opts manifests sched \<sigma>)"
proof (induction sched arbitrary: \<sigma>)
  case Nil
  then show ?case by simp
next
  case (Cons c sched)
  show ?case
  proof (cases "step E version opts manifests c \<sigma>")
    case None
    with Cons show ?thesis by simp
  next
    case (Some \<sigma>')
    have "gate_inv (names E) manifests \<sigma>'"
      using assms Cons.prems Some by (rule gate_inv_step)
    with Cons.IH Some show ?thesis by simp
  qed
qed

lemma outputs_inv_start: "outputs_inv manifests (start tokens s)"
  by (simp add: outputs_inv_def start_def)

lemma outputs_inv_step:
  assumes inv: "outputs_inv manifests \<sigma>"
    and st: "step E version opts manifests c \<sigma> = Some \<sigma>'"
  shows "outputs_inv manifests \<sigma>'"
proof -
  from inv have d: "distinct (map fst (outputs \<sigma>))"
    and s: "set (map fst (outputs \<sigma>)) =
          {c \<in> fst ` set manifests. phase_of \<sigma> c \<noteq> Waiting \<and> phase_of \<sigma> c \<noteq> Applying}"
    unfolding outputs_inv_def by simp_all
  from st show ?thesis
  proof (cases rule: stepE)
    case receive
    with d s show ?thesis unfolding outputs_inv_def by auto
  next
    case pass
    with d s show ?thesis unfolding outputs_inv_def by auto
  next
    case (panicked p s')
    with d s show ?thesis unfolding outputs_inv_def by auto
  next
    case (applied applyOut appliedObjects s')
    have "c \<notin> set (map fst (outputs \<sigma>))" using s applied(3) by auto
    with d s applied(2,5) show ?thesis unfolding outputs_inv_def by auto
  next
    case finished
    with d s show ?thesis unfolding outputs_inv_def by auto
  next
    case (sent ch rest)
    with d s show ?thesis unfolding outputs_inv_def by auto
  qed
qed

lemma outputs_inv_exec:
  "outputs_inv manifests \<sigma> \<Longrightarrow> outputs_inv manifests (exec E version opts manifests sched \<sigma>)"
proof (induction sched arbitrary: \<sigma>)
  case Nil
  then show ?case by simp
next
  case (Cons c sched)
  show ?case
  proof (cases "step E version opts manifests c \<sigma>")
    case None
    with Cons show ?thesis by simp
  next
    case (Some \<sigma>')
    have "outputs_inv manifests \<sigma>'" using Cons.prems Some by (rule outputs_inv_step)
    with Cons.IH Some show ?thesis by simp
  qed
qed

lemma outputs_all_finished:
  assumes "outputs_inv manifests \<sigma>" and "allFinished manifests \<sigma>"
  shows "set (map fst (outputs \<sigma>)) = fst ` set manifests \<and> distinct (map fst (outputs \<sigma>))"
proof -
  have "\<forall>c \<in> fst ` set manifests. phase_of \<sigma> c = Finished"
    using assms(2) by (auto simp: allFinished_def list_all_iff)
  with assms(1) show ?thesis unfolding outputs_inv_def by auto
qed

lemma sum_list_lower_at:
  fixes f g :: "'a \<Rightarrow> nat"
  assumes "g c < f c" and "\<And>x. x \<noteq> c \<Longrightarrow> g x = f x"
  shows "c \<in> set xs \<Longrightarrow> sum_list (map g xs) < sum_list (map f xs)"
proof (induction xs)
  case Nil
  then show ?case by simp
next
  case (Cons x xs)
  have le: "sum_list (map g xs) \<le> sum_list (map f xs)"
  proof (rule sum_list_mono)
    fix y assume "y \<in> set xs"
    show "g y \<le> f y" using assms by (cases "y = c") auto
  qed
  show ?case
  proof (cases "x = c")
    case True
    with assms(1) le show ?thesis by simp
  next
    case False
    with Cons have "sum_list (map g xs) < sum_list (map f xs)" by simp
    with assms(2) [OF False] show ?thesis by simp
  qed
qed

lemma distance_step:
  assumes st: "step E version opts manifests c \<sigma> = Some \<sigma>'"
  shows "distance (names E) manifests \<sigma>' < distance (names E) manifests \<sigma>"
proof -
  let ?N = "names E"
  have lower: "distance ?N manifests \<sigma>' < distance ?N manifests \<sigma>"
    if live: "crashed \<sigma> = None" "crashed \<sigma>' = None" and cin: "c \<in> fst ` set manifests"
      and lt: "rank ?N (phase_of \<sigma>' c) < rank ?N (phase_of \<sigma> c)"
      and same: "\<And>x. x \<noteq> c \<Longrightarrow> phase_of \<sigma>' x = phase_of \<sigma> x"
  proof -
    have "c \<in> set (map fst manifests)" using cin by simp
    then have "sum_list (map (\<lambda>c. rank ?N (phase_of \<sigma>' c)) (map fst manifests))
        < sum_list (map (\<lambda>c. rank ?N (phase_of \<sigma> c)) (map fst manifests))"
      using lt same by (intro sum_list_lower_at [where c = c]) simp_all
    with live show ?thesis by (simp add: distance_def)
  qed
  from st show ?thesis
  proof (cases rule: stepE)
    case receive
    then show ?thesis by (intro lower) (simp_all add: rank_def)
  next
    case pass
    then show ?thesis by (intro lower) (simp_all add: rank_def)
  next
    case (panicked p s')
    then show ?thesis by (simp add: distance_def)
  next
    case (applied applyOut appliedObjects s')
    then show ?thesis
      by (intro lower) (simp_all add: rank_def childrenOf_declaration)
  next
    case finished
    then show ?thesis by (intro lower) (simp_all add: rank_def)
  next
    case (sent ch rest)
    then show ?thesis by (intro lower) (simp_all add: rank_def)
  qed
qed

lemma step_enabled_cases:
  assumes "crashed \<sigma> = None" and "c \<in> fst ` set manifests"
    and "phase_of \<sigma> c = Waiting \<longrightarrow> hasGate (names E) c \<longrightarrow> dependencyWaitCh \<sigma> c > 0"
    and "\<forall>ch rest. phase_of \<sigma> c = Signalling (ch # rest) \<longrightarrow> dependencyWaitCh \<sigma> ch = 0"
    and "phase_of \<sigma> c \<noteq> Finished"
    and "applyManifest E c (manifestOf manifests c) version opts (outside \<sigma>) \<noteq> None"
  shows "step E version opts manifests c \<sigma> \<noteq> None"
proof (cases "phase_of \<sigma> c")
  case Waiting
  with assms show ?thesis by (simp add: step_def)
next
  case Applying
  with assms show ?thesis by (auto simp: step_def split: option.splits prod.splits sum.splits)
next
  case (Signalling l)
  with assms show ?thesis by (cases l) (simp_all add: step_def)
next
  case Finished
  with assms show ?thesis by simp
qed

text \<open>
  In a run that starts with empty gates on a manifest map closed under parents, some
  goroutine can move as long as none has panicked, not all have finished, and every call
  of \<^verbatim>\<open>applyManifest\<close> returns.
\<close>

lemma progress:
  assumes wn: "wellNamed (names E)" and pc: "parentClosed (names E) manifests"
    and inv: "gate_inv (names E) manifests \<sigma>"
    and live: "crashed \<sigma> = None" and unfinished: "\<not> allFinished manifests \<sigma>"
    and ret: "\<And>c. applyManifest E c (manifestOf manifests c) version opts (outside \<sigma>) \<noteq> None"
  shows "\<exists>c \<in> fst ` set manifests. step E version opts manifests c \<sigma> \<noteq> None"
proof -
  let ?b = "IstioBaseComponentName (names E)"
  let ?cs = "baseChildren (names E)"
  have bn: "?b \<notin> set ?cs" and dc: "distinct ?cs"
    using wn by (simp_all add: wellNamed_def)
  from inv obtain k where k: "k \<le> length ?cs" and sg: "signalled \<sigma> = take k ?cs"
    and phb: "(case phase_of \<sigma> ?b of
               Waiting \<Rightarrow> k = 0
             | Applying \<Rightarrow> k = 0
             | Signalling rest \<Rightarrow> rest = drop k ?cs
             | Finished \<Rightarrow> k = length ?cs)"
    unfolding gate_inv_def by blast
  from inv have chs: "\<And>c. c \<in> set ?cs \<Longrightarrow>
            (if c \<in> set (signalled \<sigma>)
             then dependencyWaitCh \<sigma> c = (if phase_of \<sigma> c = Waiting then 1 else 0)
             else dependencyWaitCh \<sigma> c = 0 \<and> phase_of \<sigma> c = Waiting)"
    unfolding gate_inv_def by blast
  from inv have nc: "\<And>c rest. c \<noteq> ?b \<Longrightarrow> phase_of \<sigma> c = Signalling rest \<Longrightarrow> rest = []"
    unfolding gate_inv_def by blast
  show ?thesis
  proof (cases "?b \<in> fst ` set manifests \<and> phase_of \<sigma> ?b \<noteq> Finished")
    case True
    have "step E version opts manifests ?b \<sigma> \<noteq> None"
    proof (rule step_enabled_cases)
      show "crashed \<sigma> = None" by (rule live)
      show "?b \<in> fst ` set manifests" using True by simp
      show "phase_of \<sigma> ?b = Waiting \<longrightarrow> hasGate (names E) ?b \<longrightarrow> dependencyWaitCh \<sigma> ?b > 0"
        using bn by (simp add: hasGate_iff)
      show "\<forall>ch rest. phase_of \<sigma> ?b = Signalling (ch # rest) \<longrightarrow> dependencyWaitCh \<sigma> ch = 0"
      proof (intro allI impI)
        fix ch rest assume s: "phase_of \<sigma> ?b = Signalling (ch # rest)"
        with phb have dr: "ch # rest = drop k ?cs" by simp
        then have kl: "k < length ?cs" by (cases "k < length ?cs") auto
        from dr kl have chk: "ch = ?cs ! k" by (simp add: Cons_nth_drop_Suc [symmetric])
        have "ch \<notin> set (take k ?cs)"
          using dc chk kl by (metis distinct_take id_take_nth_drop not_distinct_conv_prefix)
        moreover have "ch \<in> set ?cs" using chk kl by simp
        ultimately show "dependencyWaitCh \<sigma> ch = 0" using chs [of ch] sg by simp
      qed
      show "phase_of \<sigma> ?b \<noteq> Finished" using True by simp
      show "applyManifest E ?b (manifestOf manifests ?b) version opts (outside \<sigma>) \<noteq> None"
        by (rule ret)
    qed
    with True show ?thesis by blast
  next
    case False
    from unfinished obtain c where cin: "c \<in> fst ` set manifests" and cf: "phase_of \<sigma> c \<noteq> Finished"
      by (auto simp: allFinished_def list_all_iff)
    have cb: "c \<noteq> ?b" using False cin cf by blast
    have "step E version opts manifests c \<sigma> \<noteq> None"
    proof (rule step_enabled_cases)
      show "crashed \<sigma> = None" by (rule live)
      show "c \<in> fst ` set manifests" by (rule cin)
      show "phase_of \<sigma> c \<noteq> Finished" by (rule cf)
      show "applyManifest E c (manifestOf manifests c) version opts (outside \<sigma>) \<noteq> None"
        by (rule ret)
      show "\<forall>ch rest. phase_of \<sigma> c = Signalling (ch # rest) \<longrightarrow> dependencyWaitCh \<sigma> ch = 0"
        using nc [OF cb] by auto
      show "phase_of \<sigma> c = Waiting \<longrightarrow> hasGate (names E) c \<longrightarrow> dependencyWaitCh \<sigma> c > 0"
      proof (intro impI)
        assume w: "phase_of \<sigma> c = Waiting" and g: "hasGate (names E) c"
        then have ccs: "c \<in> set ?cs" by (simp add: hasGate_iff)
        with cin pc have "?b \<in> fst ` set manifests" unfolding parentClosed_def by blast
        with False have "phase_of \<sigma> ?b = Finished" by simp
        with phb have "k = length ?cs" by simp
        with sg ccs have "c \<in> set (signalled \<sigma>)" by simp
        with chs [OF ccs] w show "dependencyWaitCh \<sigma> c > 0" by simp
      qed
    qed
    with cin show ?thesis by blast
  qed
qed

lemma take_drop_disjoint:
  "distinct xs \<Longrightarrow> x \<in> set (take k xs) \<Longrightarrow> x \<notin> set (drop k xs)"
  using set_take_disj_set_drop_if_distinct [of xs k k] by auto

text \<open>
  The first call. In every state of a run that starts with the gates as \<open>init\<close> leaves
  them, under every schedule: a child of the base component that is past its gate has
  been signalled, and by then the apply of the base component has returned and its
  outcome is recorded (the base component is in its signalling loop, past this child, or
  has finished); no gate is signalled twice, and when the base component has finished
  every declared child has been signalled once, in the declared order; a signalled child
  that still waits can take its turn and starts to apply; and a component whose apply
  returns an outcome goes on to signal its declared children whatever the error field of
  the outcome holds.
\<close>

lemma first_call_child_after_parent:
  "wellNamed (names E) \<and> \<sigma> = exec E version opts manifests sched (start noTokens s)
   \<longrightarrow> (child \<in> set (baseChildren (names E)) \<and> phase_of \<sigma> child \<noteq> Waiting
        \<longrightarrow> IstioBaseComponentName (names E) \<in> set (map fst (outputs \<sigma>))
           \<and> (phase_of \<sigma> (IstioBaseComponentName (names E)) = Finished
               \<or> (\<exists>rest. phase_of \<sigma> (IstioBaseComponentName (names E)) = Signalling rest
                     \<and> child \<notin> set rest))
           \<and> child \<in> set (signalled \<sigma>))
     \<and> distinct (signalled \<sigma>)
     \<and> set (signalled \<sigma>) \<subseteq> set (baseChildren (names E))
     \<and> (phase_of \<sigma> (IstioBaseComponentName (names E)) = Finished
        \<longrightarrow> signalled \<sigma> = baseChildren (names E))
     \<and> (child \<in> set (signalled \<sigma>) \<and> child \<in> fst ` set manifests \<and> phase_of \<sigma> child = Waiting
          \<and> crashed \<sigma> = None
        \<longrightarrow> (\<exists>\<sigma>'. step E version opts manifests child \<sigma> = Some \<sigma>' \<and> phase_of \<sigma>' child = Applying))
     \<and> (crashed \<sigma> = None \<and> parent \<in> fst ` set manifests \<and> phase_of \<sigma> parent = Applying
          \<and> applyManifest E parent (manifestOf manifests parent) version opts (outside \<sigma>)
              = Some (Inr (applyOut, appliedObjects), s')
        \<longrightarrow> (\<exists>\<sigma>'. step E version opts manifests parent \<sigma> = Some \<sigma>'
              \<and> phase_of \<sigma>' parent = Signalling (childrenOf (componentDependencies (names E)) parent)
              \<and> (parent, applyOut) \<in> set (outputs \<sigma>')))"
proof (intro impI)
  let ?b = "IstioBaseComponentName (names E)"
  let ?cs = "baseChildren (names E)"
  assume a: "wellNamed (names E) \<and> \<sigma> = exec E version opts manifests sched (start noTokens s)"
  then have wn: "wellNamed (names E)" by simp
  have bn: "?b \<notin> set ?cs" and dc: "distinct ?cs"
    using wn by (simp_all add: wellNamed_def)
  have inv: "gate_inv (names E) manifests \<sigma>"
    using a gate_inv_exec [OF wn gate_inv_start] by simp
  have oinv: "outputs_inv manifests \<sigma>"
    using a outputs_inv_exec [OF outputs_inv_start] by simp
  from inv obtain k where k: "k \<le> length ?cs" and sg: "signalled \<sigma> = take k ?cs"
    and phb: "(case phase_of \<sigma> ?b of
               Waiting \<Rightarrow> k = 0
             | Applying \<Rightarrow> k = 0
             | Signalling rest \<Rightarrow> rest = drop k ?cs
             | Finished \<Rightarrow> k = length ?cs)"
    unfolding gate_inv_def by blast
  from inv have nt: "\<And>c. c \<notin> fst ` set manifests \<Longrightarrow> phase_of \<sigma> c = Waiting"
    unfolding gate_inv_def by blast
  from inv have chs: "\<And>c. c \<in> set ?cs \<Longrightarrow>
            (if c \<in> set (signalled \<sigma>)
             then dependencyWaitCh \<sigma> c = (if phase_of \<sigma> c = Waiting then 1 else 0)
             else dependencyWaitCh \<sigma> c = 0 \<and> phase_of \<sigma> c = Waiting)"
    unfolding gate_inv_def by blast
  have p1: "?b \<in> set (map fst (outputs \<sigma>))
           \<and> (phase_of \<sigma> ?b = Finished
               \<or> (\<exists>rest. phase_of \<sigma> ?b = Signalling rest \<and> child \<notin> set rest))
           \<and> child \<in> set (signalled \<sigma>)"
    if c: "child \<in> set ?cs \<and> phase_of \<sigma> child \<noteq> Waiting"
  proof -
    from c chs [of child] have cs: "child \<in> set (signalled \<sigma>)" by (auto split: if_splits)
    with sg have ck: "child \<in> set (take k ?cs)" by simp
    then have kpos: "k \<noteq> 0" by (cases k) simp_all
    have nd: "child \<notin> set (drop k ?cs)" using dc ck by (rule take_drop_disjoint)
    have ph: "phase_of \<sigma> ?b = Finished
        \<or> (\<exists>rest. phase_of \<sigma> ?b = Signalling rest \<and> child \<notin> set rest)"
      using phb kpos nd by (cases "phase_of \<sigma> ?b") auto
    then have "phase_of \<sigma> ?b \<noteq> Waiting \<and> phase_of \<sigma> ?b \<noteq> Applying" by auto
    moreover from this have "?b \<in> fst ` set manifests" using nt by blast
    ultimately have "?b \<in> set (map fst (outputs \<sigma>))"
      using oinv unfolding outputs_inv_def by blast
    with ph cs show ?thesis by blast
  qed
  have p2: "distinct (signalled \<sigma>)" using sg dc by simp
  have p3: "set (signalled \<sigma>) \<subseteq> set ?cs" using sg by (simp add: set_take_subset)
  have p4: "signalled \<sigma> = ?cs" if "phase_of \<sigma> ?b = Finished"
    using that phb sg by simp
  have p5: "\<exists>\<sigma>'. step E version opts manifests child \<sigma> = Some \<sigma>' \<and> phase_of \<sigma>' child = Applying"
    if c: "child \<in> set (signalled \<sigma>) \<and> child \<in> fst ` set manifests \<and> phase_of \<sigma> child = Waiting
          \<and> crashed \<sigma> = None"
  proof -
    from c p3 have ccs: "child \<in> set ?cs" by auto
    with c chs [of child] have "dependencyWaitCh \<sigma> child = 1" by simp
    with c ccs show ?thesis by (simp add: step_def hasGate_iff)
  qed
  have p6: "\<exists>\<sigma>'. step E version opts manifests parent \<sigma> = Some \<sigma>'
              \<and> phase_of \<sigma>' parent = Signalling (childrenOf (componentDependencies (names E)) parent)
              \<and> (parent, applyOut) \<in> set (outputs \<sigma>')"
    if "crashed \<sigma> = None \<and> parent \<in> fst ` set manifests \<and> phase_of \<sigma> parent = Applying
          \<and> applyManifest E parent (manifestOf manifests parent) version opts (outside \<sigma>)
              = Some (Inr (applyOut, appliedObjects), s')"
    using that by (simp add: step_def)
  from p1 p2 p3 p4 p5 p6
  show "(child \<in> set ?cs \<and> phase_of \<sigma> child \<noteq> Waiting
        \<longrightarrow> ?b \<in> set (map fst (outputs \<sigma>))
           \<and> (phase_of \<sigma> ?b = Finished
               \<or> (\<exists>rest. phase_of \<sigma> ?b = Signalling rest \<and> child \<notin> set rest))
           \<and> child \<in> set (signalled \<sigma>))
     \<and> distinct (signalled \<sigma>)
     \<and> set (signalled \<sigma>) \<subseteq> set ?cs
     \<and> (phase_of \<sigma> ?b = Finished \<longrightarrow> signalled \<sigma> = ?cs)
     \<and> (child \<in> set (signalled \<sigma>) \<and> child \<in> fst ` set manifests \<and> phase_of \<sigma> child = Waiting
          \<and> crashed \<sigma> = None
        \<longrightarrow> (\<exists>\<sigma>'. step E version opts manifests child \<sigma> = Some \<sigma>' \<and> phase_of \<sigma>' child = Applying))
     \<and> (crashed \<sigma> = None \<and> parent \<in> fst ` set manifests \<and> phase_of \<sigma> parent = Applying
          \<and> applyManifest E parent (manifestOf manifests parent) version opts (outside \<sigma>)
              = Some (Inr (applyOut, appliedObjects), s')
        \<longrightarrow> (\<exists>\<sigma>'. step E version opts manifests parent \<sigma> = Some \<sigma>'
              \<and> phase_of \<sigma>' parent = Signalling (childrenOf (componentDependencies (names E)) parent)
              \<and> (parent, applyOut) \<in> set (outputs \<sigma>')))"
    by blast
qed

lemma recorded_inv_start: "recorded_inv E version opts manifests (start tokens s)"
  by (simp add: recorded_inv_def start_def)

lemma recorded_inv_step:
  assumes inv: "recorded_inv E version opts manifests \<sigma>"
    and st: "step E version opts manifests c \<sigma> = Some \<sigma>'"
  shows "recorded_inv E version opts manifests \<sigma>'"
  using st
proof (cases rule: stepE)
  case receive
  with inv show ?thesis unfolding recorded_inv_def by simp
next
  case pass
  with inv show ?thesis unfolding recorded_inv_def by simp
next
  case (panicked p s')
  with inv show ?thesis unfolding recorded_inv_def by simp
next
  case (applied applyOut appliedObjects s')
  show ?thesis
    unfolding recorded_inv_def
  proof (intro allI impI)
    fix c' o' assume "(c', o') \<in> set (outputs \<sigma>')"
    then consider "(c', o') \<in> set (outputs \<sigma>)" | "c' = c" "o' = applyOut"
      using applied(5) by auto
    then show "\<exists>s appliedObjects s'.
        applyManifest E c' (manifestOf manifests c') version opts s
          = Some (Inr (o', appliedObjects), s')"
    proof cases
      case 1
      with inv show ?thesis unfolding recorded_inv_def by blast
    next
      case 2
      with applied(4) show ?thesis by blast
    qed
  qed
next
  case finished
  with inv show ?thesis unfolding recorded_inv_def by simp
next
  case (sent ch rest)
  with inv show ?thesis unfolding recorded_inv_def by simp
qed

lemma recorded_inv_exec:
  "recorded_inv E version opts manifests \<sigma>
   \<Longrightarrow> recorded_inv E version opts manifests (exec E version opts manifests sched \<sigma>)"
proof (induction sched arbitrary: \<sigma>)
  case Nil
  then show ?case by simp
next
  case (Cons c sched)
  show ?case
  proof (cases "step E version opts manifests c \<sigma>")
    case None
    with Cons show ?thesis by simp
  next
    case (Some \<sigma>')
    have "recorded_inv E version opts manifests \<sigma>'" using Cons.prems Some by (rule recorded_inv_step)
    with Cons.IH Some show ?thesis by simp
  qed
qed

lemma exec_append:
  "exec E version opts manifests (a @ b) \<sigma>
     = exec E version opts manifests b (exec E version opts manifests a \<sigma>)"
  by (induction a arbitrary: \<sigma>) (simp_all split: option.splits)

text \<open>
  A wait with a timer returns, and so does \<open>applyManifest\<close> when the timeout of the
  options is not 0 or the run is a dry run.
\<close>

lemma waitForResources_returns:
  assumes "WaitTimeout opts \<noteq> 0 \<or> DryRun opts"
  shows "\<exists>y. waitForResources tk fmt cs objects opts s = Some y"
proof (cases "DryRun opts")
  case True
  then show ?thesis by (simp add: waitForResources_def)
next
  case False
  with assms have "WaitTimeout opts \<noteq> 0" by simp
  then show ?thesis
    by (simp add: waitForResources_def Poll_timed split: option.splits prod.splits sum.splits)
qed

lemma waitForResources_never_returns:
  assumes "\<not> DryRun opts" and "kube_NewForConfig cs = None" and "WaitTimeout opts = 0"
    and "\<And>ns. \<exists>ns'. resourcesPoll cs objects ns = (Inr (False, None), ns')"
  shows "waitForResources tk fmt cs objects opts s = None"
proof -
  have "pollForever (resourcesPoll cs objects) ([], s) = None"
    using assms(4) by (rule pollForever_never)
  with assms(1-3) show ?thesis by (simp add: waitForResources_def Poll_def)
qed

lemma applyNamespaces_returns:
  assumes "WaitTimeout opts \<noteq> 0 \<or> DryRun opts"
  shows "applyNamespaces E opts namespace extraArgs nsObjects pr s \<noteq> None"
proof -
  have w: "waitForResources tk fmt cs objects opts s1 \<noteq> None" for tk fmt cs objects s1
    using waitForResources_returns [OF assms, of tk fmt cs objects s1] by auto
  show ?thesis
    by (auto simp: applyNamespaces_def Let_def w split: prod.splits sum.splits option.splits)
qed

lemma applyCRDs_returns:
  "applyCRDs E opts namespace extraArgs objects crdObjects pr s \<noteq> None"
proof -
  have w: "waitForCRDs tk cs objs dryRun s1 \<noteq> None" for tk cs objs dryRun s1
    using waitForCRDs_returns [of tk cs objs dryRun s1] by auto
  show ?thesis
    by (auto simp: applyCRDs_def Let_def w split: prod.splits sum.splits option.splits)
qed

lemma applyManifest_returns:
  assumes "WaitTimeout opts \<noteq> 0 \<or> DryRun opts"
  shows "applyManifest E componentName manifestStr version opts s \<noteq> None"
  by (auto simp: applyManifest_def Let_def applyNamespaces_returns [OF assms] applyCRDs_returns
      split: prod.splits sum.splits option.splits step.splits)

text \<open>
  Under these conditions every run from empty gates on a manifest map closed under
  parents can be continued until a goroutine has panicked or all have finished.
\<close>

lemma run_completes:
  assumes wn: "wellNamed (names E)" and pc: "parentClosed (names E) manifests"
    and timed: "WaitTimeout opts \<noteq> 0 \<or> DryRun opts"
  shows "gate_inv (names E) manifests \<sigma>
    \<Longrightarrow> \<exists>ext. crashed (exec E version opts manifests ext \<sigma>) \<noteq> None
            \<or> allFinished manifests (exec E version opts manifests ext \<sigma>)"
proof (induction "distance (names E) manifests \<sigma>" arbitrary: \<sigma> rule: less_induct)
  case less
  show ?case
  proof (cases "crashed \<sigma> = None \<and> \<not> allFinished manifests \<sigma>")
    case False
    then have "crashed (exec E version opts manifests [] \<sigma>) \<noteq> None
            \<or> allFinished manifests (exec E version opts manifests [] \<sigma>)"
      by simp
    then show ?thesis by (rule exI)
  next
    case True
    then have live: "crashed \<sigma> = None" and unfinished: "\<not> allFinished manifests \<sigma>"
      by simp_all
    have ret: "applyManifest E c (manifestOf manifests c) version opts (outside \<sigma>) \<noteq> None" for c
      using timed by (rule applyManifest_returns)
    from wn pc less.prems live unfinished ret
    have "\<exists>c \<in> fst ` set manifests. step E version opts manifests c \<sigma> \<noteq> None"
      by (rule progress)
    then obtain c \<sigma>2 where st: "step E version opts manifests c \<sigma> = Some \<sigma>2"
      by auto
    from st have d: "distance (names E) manifests \<sigma>2 < distance (names E) manifests \<sigma>"
      by (rule distance_step)
    from wn less.prems st have gi: "gate_inv (names E) manifests \<sigma>2"
      by (rule gate_inv_step)
    from less.hyps [OF d gi] obtain ext where
      "crashed (exec E version opts manifests ext \<sigma>2) \<noteq> None
        \<or> allFinished manifests (exec E version opts manifests ext \<sigma>2)"
      by blast
    with st have "crashed (exec E version opts manifests (c # ext) \<sigma>) \<noteq> None
        \<or> allFinished manifests (exec E version opts manifests (c # ext) \<sigma>)"
      by simp
    then show ?thesis by (rule exI)
  qed
qed

text \<open>What \<open>ApplyAll\<close> returns, and the errors it can return.\<close>

lemma ApplyAll_connection_error:
  "initK8SRestClient R (Kubeconfig opts) (Context opts) (config, world s) = (Some e, config', w1)
   \<Longrightarrow> ApplyAll E R manifests version opts sched config tokens s
         = Returned ((None, Some e), s\<lparr>world := w1\<rparr>)"
  by (simp add: ApplyAll_def)

lemma ApplyAll_finished:
  assumes i: "initK8SRestClient R (Kubeconfig opts) (Context opts) (config, world s) = (None, config', w1)"
    and eq: "\<sigma> = exec E version opts manifests sched (start tokens (s\<lparr>world := w1\<rparr>))"
    and live: "crashed \<sigma> = None" and fin: "allFinished manifests \<sigma>"
  shows "set (map fst (outputs \<sigma>)) = fst ` set manifests"
    and "distinct (map fst (outputs \<sigma>))"
    and "recorded_inv E version opts manifests \<sigma>"
    and "ApplyAll E R manifests version opts sched config tokens s =
           (if Wait opts then
              (case waitForResources (ticks E) (fmt_Duration E) (kubernetes E) (allAppliedObjects \<sigma>)
                      opts (outside \<sigma>) of
                 None \<Rightarrow> NotReturned
               | Some (Inl p, s1) \<Rightarrow> Panics p
               | Some (Inr err, s1) \<Rightarrow> Returned ((Some (outputs \<sigma>), err), s1))
            else Returned ((Some (outputs \<sigma>), None), outside \<sigma>))"
proof -
  have "outputs_inv manifests (start tokens (s\<lparr>world := w1\<rparr>))" by (rule outputs_inv_start)
  then have "outputs_inv manifests (exec E version opts manifests sched (start tokens (s\<lparr>world := w1\<rparr>)))"
    by (rule outputs_inv_exec)
  then have oinv: "outputs_inv manifests \<sigma>" unfolding eq .
  from oinv fin have keys: "set (map fst (outputs \<sigma>)) = fst ` set manifests \<and> distinct (map fst (outputs \<sigma>))"
    by (rule outputs_all_finished)
  from keys show "set (map fst (outputs \<sigma>)) = fst ` set manifests" by simp
  from keys show "distinct (map fst (outputs \<sigma>))" by simp
  have "recorded_inv E version opts manifests (start tokens (s\<lparr>world := w1\<rparr>))"
    by (rule recorded_inv_start)
  then have "recorded_inv E version opts manifests
      (exec E version opts manifests sched (start tokens (s\<lparr>world := w1\<rparr>)))"
    by (rule recorded_inv_exec)
  then show "recorded_inv E version opts manifests \<sigma>" unfolding eq .
  have "applyRecursive E version opts manifests sched tokens (s\<lparr>world := w1\<rparr>) =
           (if Wait opts then
              (case waitForResources (ticks E) (fmt_Duration E) (kubernetes E) (allAppliedObjects \<sigma>)
                      opts (outside \<sigma>) of
                 None \<Rightarrow> NotReturned
               | Some (Inl p, s1) \<Rightarrow> Panics p
               | Some (Inr err, s1) \<Rightarrow> Returned ((Some (outputs \<sigma>), err), s1))
            else Returned ((Some (outputs \<sigma>), None), outside \<sigma>))"
    unfolding applyRecursive_def Let_def eq [symmetric] using live fin by simp
  with i show "ApplyAll E R manifests version opts sched config tokens s =
           (if Wait opts then
              (case waitForResources (ticks E) (fmt_Duration E) (kubernetes E) (allAppliedObjects \<sigma>)
                      opts (outside \<sigma>) of
                 None \<Rightarrow> NotReturned
               | Some (Inl p, s1) \<Rightarrow> Panics p
               | Some (Inr err, s1) \<Rightarrow> Returned ((Some (outputs \<sigma>), err), s1))
            else Returned ((Some (outputs \<sigma>), None), outside \<sigma>))"
    by (simp add: ApplyAll_def)
qed

lemma ApplyAll_error_sources:
  assumes r: "ApplyAll E R manifests version opts sched config tokens s = Returned ((result, Some e), s2)"
  shows "(\<exists>config' w1. initK8SRestClient R (Kubeconfig opts) (Context opts) (config, world s)
              = (Some e, config', w1) \<and> result = None)
       \<or> (\<exists>config' w1 \<sigma>. initK8SRestClient R (Kubeconfig opts) (Context opts) (config, world s)
              = (None, config', w1)
            \<and> \<sigma> = exec E version opts manifests sched (start tokens (s\<lparr>world := w1\<rparr>))
            \<and> allFinished manifests \<sigma> \<and> Wait opts \<and> result = Some (outputs \<sigma>)
            \<and> waitForResources (ticks E) (fmt_Duration E) (kubernetes E) (allAppliedObjects \<sigma>) opts
                  (outside \<sigma>) = Some (Inr (Some e), s2))"
proof -
  obtain ie ic iw where i: "initK8SRestClient R (Kubeconfig opts) (Context opts) (config, world s)
      = (ie, ic, iw)"
    by (cases "initK8SRestClient R (Kubeconfig opts) (Context opts) (config, world s)")
  show ?thesis
  proof (cases ie)
    case (Some err)
    with r i have "err = e" "result = None" by (simp_all add: ApplyAll_def)
    with Some i show ?thesis by blast
  next
    case None
    let ?\<sigma> = "exec E version opts manifests sched (start tokens (s\<lparr>world := iw\<rparr>))"
    from r i None have ar: "applyRecursive E version opts manifests sched tokens (s\<lparr>world := iw\<rparr>)
        = Returned ((result, Some e), s2)"
      by (simp add: ApplyAll_def)
    then have fin: "allFinished manifests ?\<sigma>"
      by (auto simp: applyRecursive_def Let_def split: option.splits if_splits)
    from ar have w: "Wait opts"
      by (auto simp: applyRecursive_def Let_def split: option.splits if_splits prod.splits sum.splits)
    from ar w have res: "result = Some (outputs ?\<sigma>)"
      by (auto simp: applyRecursive_def Let_def split: option.splits if_splits prod.splits sum.splits)
    from ar w have "waitForResources (ticks E) (fmt_Duration E) (kubernetes E) (allAppliedObjects ?\<sigma>)
        opts (outside ?\<sigma>) = Some (Inr (Some e), s2)"
      by (auto simp: applyRecursive_def Let_def split: option.splits if_splits prod.splits sum.splits)
    with i None fin w res show ?thesis by blast
  qed
qed

subsection \<open>Two calls in one process, and a child without its parent\<close>

lemma orchEnv_names: "names orchEnv = exampleNames"
  by (simp add: orchEnv_def exampleEnv_def)

lemma exampleNames_wellNamed: "wellNamed exampleNames"
  by (simp add: wellNamed_def baseChildren_def exampleNames_def)

lemma orchEnv_apply:
  "applyManifest orchEnv c [] ''1.4.0'' applyOptions s =
     Some (Inr (failedLookup, []),
      s\<lparr>trace := trace s @ [lookupCall applyOptions (''install.istio.io/component='' @ c)]\<rparr>)"
  by (simp add: applyManifest_def pruneDisabled_def orchEnv_def exampleEnv_def exampleObjectPkg_def
      exampleParse_def exampleKubectl_def call_GetAll_def lookupCall_def buildComponentApplyOutput_def
      failedLookup_def applyOptions_def exampleNames_def istioComponentLabelStr_def Let_def)

lemma hasGate_example:
  "hasGate exampleNames ''Pilot''" "\<not> hasGate exampleNames ''Base''"
  by (simp_all add: hasGate_iff baseChildren_def exampleNames_def)

lemma manifestOf_examples:
  "manifestOf baseAndPilot ''Base'' = []" "manifestOf baseAndPilot ''Pilot'' = []"
  "manifestOf pilotAlone ''Pilot'' = []" "manifestOf baseAlone ''Base'' = []"
  by (simp_all add: manifestOf_def baseAndPilot_def pilotAlone_def baseAlone_def)

lemma exampleChildren:
  "baseChildren exampleNames =
     [''Pilot'', ''Policy'', ''Telemetry'', ''Galley'', ''Citadel'', ''NodeAgent'', ''CertManager'',
      ''Injector'', ''IngressGateway'', ''EgressGateway'', ''Cni'', ''PrometheusOperator'',
      ''Prometheus'', ''Grafana'', ''Kiali'', ''Tracing'']"
  by (simp add: baseChildren_def exampleNames_def)

lemma exampleBase: "IstioBaseComponentName exampleNames = ''Base''"
  by (simp add: exampleNames_def)

lemma childrenOf_example:
  "childrenOf (componentDependencies exampleNames) ''Base'' = baseChildren exampleNames"
  "childrenOf (componentDependencies exampleNames) ''Pilot'' = []"
  by (simp_all add: childrenOf_declaration exampleBase)

lemma tasks_examples:
  "fst ` set baseAndPilot = {''Base'', ''Pilot''}" "fst ` set pilotAlone = {''Pilot''}"
  "fst ` set baseAlone = {''Base''}"
  by (auto simp: baseAndPilot_def pilotAlone_def baseAlone_def)

lemmas run_simps = step_def start_def noTokens_def orchEnv_names hasGate_example manifestOf_examples
  orchEnv_apply childrenOf_example exampleChildren tasks_examples afterSchedule_def

lemma okResolver_init:
  "initK8SRestClient okResolver (Kubeconfig applyOptions) (Context applyOptions) (None, ())
     = (None, Some \<lparr>cfg_Loaded = ''in-cluster'', cfg_APIPath = ''/api'', cfg_GroupVersion = ''v1'',
          cfg_NegotiatedSerializer = ''WithoutConversionCodecFactory''\<rparr>, ())"
  by (simp add: initK8SRestClient_def defaultRestConfig_def BuildClientConfig_def okResolver_def
      applyOptions_def s0_def)

lemma noResolver_init:
  "initK8SRestClient noResolver (Kubeconfig applyOptions) (Context applyOptions) (None, ())
     = (Some ''invalid configuration: no configuration has been provided'', None, ())"
  by (simp add: initK8SRestClient_def defaultRestConfig_def BuildClientConfig_def noResolver_def
      applyOptions_def s0_def)

lemma pilot_alone_stays:
  "exec orchEnv ''1.4.0'' applyOptions pilotAlone sched (start noTokens s0) = start noTokens s0"
proof (induction sched)
  case Nil
  show ?case by simp
next
  case (Cons c sched)
  have "step orchEnv ''1.4.0'' applyOptions pilotAlone c (start noTokens s0) = None"
    by (cases "c = ''Pilot''") (simp_all add: run_simps)
  with Cons show ?case by simp
qed

lemma s0_world: "s0\<lparr>world := ()\<rparr> = s0"
  by (simp add: s0_def)

text \<open>
  A first call with the manifests of the base component and of Pilot, whose applies both
  fail, returns both outcomes and no error; a call that cannot resolve the connection
  returns that error.
\<close>

lemma first_call_example:
  "ApplyAll orchEnv noResolver baseAndPilot ''1.4.0'' applyOptions bothToEnd None noTokens s0
     = Returned ((None, Some ''invalid configuration: no configuration has been provided''), s0)
   \<and> ApplyAll orchEnv okResolver baseAndPilot ''1.4.0'' applyOptions bothToEnd None noTokens s0
       = Returned ((Some [(''Base'', failedLookup), (''Pilot'', failedLookup)], None),
           s0\<lparr>trace := [lookupCall applyOptions ''install.istio.io/component=Base'',
                         lookupCall applyOptions ''install.istio.io/component=Pilot'']\<rparr>)"
proof -
  let ?F = "afterSchedule baseAndPilot bothToEnd"
  have i: "initK8SRestClient okResolver (Kubeconfig applyOptions) (Context applyOptions) (None, world s0)
      = (None, Some \<lparr>cfg_Loaded = ''in-cluster'', cfg_APIPath = ''/api'', cfg_GroupVersion = ''v1'',
          cfg_NegotiatedSerializer = ''WithoutConversionCodecFactory''\<rparr>, ())"
    by (simp add: okResolver_init)
  have eq: "?F = exec orchEnv ''1.4.0'' applyOptions baseAndPilot bothToEnd (start noTokens (s0\<lparr>world := ()\<rparr>))"
    by (simp add: afterSchedule_def s0_world)
  have fin: "allFinished baseAndPilot ?F" and live: "crashed ?F = None"
    by (simp_all add: allFinished_def baseAndPilot_def [THEN arg_cong, of "map fst"] run_simps
        bothToEnd_def eval_nat_numeral)
  have o: "outputs ?F = [(''Base'', failedLookup), (''Pilot'', failedLookup)]"
    and os: "outside ?F = s0\<lparr>trace := [lookupCall applyOptions ''install.istio.io/component=Base'',
                         lookupCall applyOptions ''install.istio.io/component=Pilot'']\<rparr>"
    by (simp_all add: run_simps bothToEnd_def eval_nat_numeral s0_def)
  from ApplyAll_finished(4) [OF i eq live fin]
  have "ApplyAll orchEnv okResolver baseAndPilot ''1.4.0'' applyOptions bothToEnd None noTokens s0
       = Returned ((Some (outputs ?F), None), outside ?F)"
    by (simp add: applyOptions_def)
  moreover have "ApplyAll orchEnv noResolver baseAndPilot ''1.4.0'' applyOptions bothToEnd None noTokens s0
     = Returned ((None, Some ''invalid configuration: no configuration has been provided''), s0)"
    using ApplyAll_connection_error [where R = noResolver and opts = applyOptions and config = None
        and s = s0 and E = orchEnv, OF _] noResolver_init
    by (simp add: ApplyAll_def s0_world)
  ultimately show ?thesis unfolding o os by simp
qed

text \<open>
  C7. The claim asks that \<open>ApplyAll\<close> always completes and returns the outcome map. Let
  the manifest map hold Pilot, a child of the base component, and not the base component
  itself, with the gates empty as \<open>init\<close> leaves them. The only goroutine of the run
  waits on the gate of Pilot, which no goroutine signals: under every schedule the run
  stays in its first state, and \<open>ApplyAll\<close> does not return.
\<close>

theorem apply_all_child_only_never_returns:
  "exec orchEnv ''1.4.0'' applyOptions pilotAlone sched (start noTokens s0) = start noTokens s0
   \<and> phase_of (start noTokens s0 :: unit orchestration) ''Pilot'' = Waiting
   \<and> ApplyAll orchEnv okResolver pilotAlone ''1.4.0'' applyOptions sched None noTokens s0 = NotReturned"
proof -
  have stay: "exec orchEnv ''1.4.0'' applyOptions pilotAlone sched (start noTokens s0) = start noTokens s0"
    by (rule pilot_alone_stays)
  have nf: "\<not> allFinished pilotAlone (start noTokens s0 :: unit orchestration)"
    by (simp add: allFinished_def pilotAlone_def start_def)
  have live: "crashed (start noTokens s0 :: unit orchestration) = None"
    by (simp add: start_def)
  have "applyRecursive orchEnv ''1.4.0'' applyOptions pilotAlone sched noTokens s0 = NotReturned"
    unfolding applyRecursive_def stay Let_def using nf live by simp
  then have "ApplyAll orchEnv okResolver pilotAlone ''1.4.0'' applyOptions sched None noTokens s0
      = NotReturned"
    by (simp add: ApplyAll_def okResolver_init s0_world)
  moreover have "phase_of (start noTokens s0 :: unit orchestration) ''Pilot'' = Waiting"
    by (simp add: start_def)
  ultimately show ?thesis using stay by simp
qed

lemma firstCall_state:
  "firstCall =
     \<lparr>phase_of = (\<lambda>c. Waiting)(''Base'' := Finished),
      dependencyWaitCh = (\<lambda>c. if c \<in> set (baseChildren exampleNames) then 1 else 0),
      signalled = baseChildren exampleNames,
      outputs = [(''Base'', failedLookup)],
      allAppliedObjects = [],
      crashed = None,
      outside = s0\<lparr>trace := [lookupCall applyOptions ''install.istio.io/component=Base'']\<rparr>\<rparr>"
  by (simp add: firstCall_def run_simps baseToEnd_def eval_nat_numeral s0_def fun_eq_iff)

lemma second_call_stuck:
  "exec orchEnv ''1.4.0'' applyOptions baseAndPilot sched (secondCall pilotThenBase)
     = secondCall pilotThenBase"
proof (induction sched)
  case Nil
  show ?case by simp
next
  case (Cons c sched)
  have "step orchEnv ''1.4.0'' applyOptions baseAndPilot c (secondCall pilotThenBase) = None"
  proof (cases "c = ''Base''")
    case True
    then show ?thesis
      by (simp add: secondCall_def pilotThenBase_def firstCall_state run_simps s0_def)
  next
    case False
    then show ?thesis
      by (cases "c = ''Pilot''")
         (simp_all add: secondCall_def pilotThenBase_def firstCall_state run_simps s0_def)
  qed
  with Cons show ?case by simp
qed

text \<open>
  C2. The claim asks that the apply of a child begins only after the apply of its parent
  has returned, and that the gate of every declared child is signalled once. The gates
  are package variables, made once by \<open>init\<close>. A first call with the manifest of the
  base component alone returns and leaves a token in the gate of each of the sixteen
  children, since no goroutine of that call takes them. In the next call of the same
  process, with the manifests of the base component and of Pilot, the goroutine of Pilot
  takes the token of the first call: its apply is made and its outcome recorded while the
  goroutine of the base component has not begun. When the base component then applies
  and signals, it refills the gate of Pilot and blocks on the gate of the second child,
  which is still full: fifteen gates are not signalled in this call, and no goroutine
  can move, however the schedule goes on.
\<close>

theorem stale_gate_starts_child_before_parent:
  "ApplyAll orchEnv okResolver baseAlone ''1.4.0'' applyOptions baseToEnd None noTokens s0
     = Returned ((Some [(''Base'', failedLookup)], None), outside firstCall)
   \<and> dependencyWaitCh firstCall ''Pilot'' = 1
   \<and> phase_of (secondCall pilotFirst) ''Base'' = Waiting
   \<and> phase_of (secondCall pilotFirst) ''Pilot'' = Signalling []
   \<and> outputs (secondCall pilotFirst) = [(''Pilot'', failedLookup)]
   \<and> trace (outside (secondCall pilotFirst))
       = [lookupCall applyOptions ''install.istio.io/component=Base'',
          lookupCall applyOptions ''install.istio.io/component=Pilot'']
   \<and> phase_of (secondCall pilotThenBase) ''Pilot'' = Finished
   \<and> phase_of (secondCall pilotThenBase) ''Base'' = Signalling (tl (baseChildren exampleNames))
   \<and> signalled (secondCall pilotThenBase) = [''Pilot'']
   \<and> secondCall (pilotThenBase @ sched) = secondCall pilotThenBase"
proof -
  have fin: "allFinished baseAlone firstCall" "crashed firstCall = None"
    by (simp_all add: firstCall_state allFinished_def baseAlone_def)
  have "applyRecursive orchEnv ''1.4.0'' applyOptions baseAlone baseToEnd noTokens s0
      = Returned ((Some (outputs firstCall), None), outside firstCall)"
    unfolding applyRecursive_def Let_def afterSchedule_def [symmetric] firstCall_def [symmetric]
    using fin by (simp add: applyOptions_def)
  then have c1: "ApplyAll orchEnv okResolver baseAlone ''1.4.0'' applyOptions baseToEnd None noTokens s0
     = Returned ((Some [(''Base'', failedLookup)], None), outside firstCall)"
    by (simp add: ApplyAll_def okResolver_init s0_world firstCall_state)
  have c2: "dependencyWaitCh firstCall ''Pilot'' = 1"
    by (simp add: firstCall_state exampleChildren)
  have c3: "phase_of (secondCall pilotFirst) ''Base'' = Waiting"
    and c4: "phase_of (secondCall pilotFirst) ''Pilot'' = Signalling []"
    and c5: "outputs (secondCall pilotFirst) = [(''Pilot'', failedLookup)]"
    and c6: "trace (outside (secondCall pilotFirst))
       = [lookupCall applyOptions ''install.istio.io/component=Base'',
          lookupCall applyOptions ''install.istio.io/component=Pilot'']"
    by (simp_all add: secondCall_def pilotFirst_def firstCall_state run_simps s0_def)
  have c7: "phase_of (secondCall pilotThenBase) ''Pilot'' = Finished"
    and c8: "phase_of (secondCall pilotThenBase) ''Base'' = Signalling (tl (baseChildren exampleNames))"
    and c9: "signalled (secondCall pilotThenBase) = [''Pilot'']"
    by (simp_all add: secondCall_def pilotThenBase_def firstCall_state run_simps s0_def)
  have "secondCall (pilotThenBase @ sched)
      = exec orchEnv ''1.4.0'' applyOptions baseAndPilot sched (secondCall pilotThenBase)"
    by (simp add: secondCall_def exec_append)
  then have c10: "secondCall (pilotThenBase @ sched) = secondCall pilotThenBase"
    by (simp only: second_call_stuck)
  from c1 c2 c3 c4 c5 c6 c7 c8 c9 c10 show ?thesis by simp
qed

end
